theory Spec2Isabelle
  imports Main "HOL-Library.Word"
begin

unbundle bit_operations_syntax

section \<open>Block-linear texture layout: data model\<close>

text \<open>
  The C++ sources compute sizes and byte offsets in \<^verbatim>\<open>size_t\<close> and take texture
  dimensions as \<^verbatim>\<open>u32\<close>. The single-layer size is computed with the wrap-around of
  \<^verbatim>\<open>size_t\<close> written out at every operation. In the copiers offsets are modelled as
  natural numbers: every offset is an offset into a buffer the caller owns, so it stays
  below \<open>2 ^ 64\<close> in any run that has defined behaviour; the one \<^verbatim>\<open>size_t\<close> subtraction
  of the copiers that can pass below zero (in the sub-rectangle copier) is modelled with
  its wrap-around written out. The registers of the DMA engine are machine words.
\<close>

record Dimensions =
  width :: nat
  height :: nat
  depth :: nat

definition SectorWidth :: nat where "SectorWidth = 16"
definition SectorHeight :: nat where "SectorHeight = 2"
definition GobWidth :: nat where "GobWidth = 64"
definition GobHeight :: nat where "GobHeight = 8"
definition SectorLinesInGob :: nat where
  "SectorLinesInGob = (GobWidth div SectorWidth) * GobHeight"

text \<open>
  Modelled from the spec: \<^verbatim>\<open>util::DivideCeil\<close> (common utilities, not among the sources);
  the spec writes it \<open>ceil(a / b)\<close>.
\<close>

definition DivideCeil :: "nat \<Rightarrow> nat \<Rightarrow> nat" where
  "DivideCeil dividend divisor = (dividend + divisor - 1) div divisor"

text \<open>
  Modelled from the spec: \<^verbatim>\<open>util::AlignUp\<close> (common utilities, not among the sources);
  the spec writes it \<open>align_up(value, multiple)\<close>, the value rounded up to a multiple.
\<close>

definition AlignUp :: "nat \<Rightarrow> nat \<Rightarrow> nat" where
  "AlignUp val multiple = ((val + multiple - 1) div multiple) * multiple"

text \<open>
  Modelled from the spec: \<^verbatim>\<open>util::AlignDown\<close> (common utilities, not among the sources);
  the spec writes it \<open>align_down(value, multiple)\<close>, the value rounded down to a multiple.
\<close>

definition AlignDown :: "nat \<Rightarrow> nat \<Rightarrow> nat" where
  "AlignDown val multiple = (val div multiple) * multiple"

text \<open>
  Modelled from the spec: \<^verbatim>\<open>util::IsAligned\<close> (common utilities, not among the sources);
  the spec reads the test as "is a multiple of".
\<close>

definition IsAligned :: "nat \<Rightarrow> nat \<Rightarrow> bool" where
  "IsAligned val multiple = (multiple dvd val)"

section \<open>Layout calculator\<close>

subsection \<open>Single-layer size\<close>

text \<open>
  The value a \<^verbatim>\<open>size_t\<close> (64 bits, unsigned) holds after an operation whose mathematical
  result is \<open>n\<close>.
\<close>

definition size_t :: "nat \<Rightarrow> nat" where
  "size_t n = n mod 2 ^ 64"

text \<open>
  Modelled from the spec: \<^verbatim>\<open>util::DivideCeil\<close> and \<^verbatim>\<open>util::AlignUp\<close> as above, evaluated
  in \<^verbatim>\<open>size_t\<close>: the sum \<open>dividend + divisor - 1\<close> and the product with the multiple
  wrap at \<open>2 ^ 64\<close> (the \<open>- 1\<close> is written \<open>+ (2 ^ 64 - 1)\<close>, which is the same modulo
  \<open>2 ^ 64\<close>).
\<close>

definition DivideCeil_size_t :: "nat \<Rightarrow> nat \<Rightarrow> nat" where
  "DivideCeil_size_t dividend divisor = size_t (dividend + divisor + (2 ^ 64 - 1)) div divisor"

definition AlignUp_size_t :: "nat \<Rightarrow> nat \<Rightarrow> nat" where
  "AlignUp_size_t val multiple =
    size_t ((size_t (val + multiple + (2 ^ 64 - 1)) div multiple) * multiple)"

text \<open>
  The single-layer \<^verbatim>\<open>GetBlockLinearLayerSize\<close>. Every local is a \<^verbatim>\<open>size_t\<close>, and every
  product wraps.
\<close>

definition GetBlockLinearLayerSize ::
  "Dimensions \<Rightarrow> nat \<Rightarrow> nat \<Rightarrow> nat \<Rightarrow> nat \<Rightarrow> nat \<Rightarrow> nat" where
  "GetBlockLinearLayerSize dimensions formatBlockWidth formatBlockHeight formatBpb
      gobBlockHeight gobBlockDepth =
    (let robLineWidth = DivideCeil_size_t (width dimensions) formatBlockWidth;
         robLineBytes = AlignUp_size_t (size_t (robLineWidth * formatBpb)) GobWidth;
         robHeight = size_t (GobHeight * gobBlockHeight);
         surfaceHeightLines = DivideCeil_size_t (height dimensions) formatBlockHeight;
         surfaceHeightRobs = DivideCeil_size_t surfaceHeightLines robHeight;
         robDepth = AlignUp_size_t (depth dimensions) gobBlockDepth
     in size_t (size_t (size_t (robLineBytes * robHeight) * surfaceHeightRobs) * robDepth))"

text \<open>
  The size formula as section 4.A of the spec words it, with the spec's own rounding
  operators: \<open>ceil(a / b)\<close> is the quotient, plus one when the division leaves a
  remainder; \<open>align_up(v, m)\<close> is \<open>v\<close> when \<open>m\<close> divides it and the next multiple
  of \<open>m\<close> otherwise.
\<close>

definition spec_ceil_div :: "nat \<Rightarrow> nat \<Rightarrow> nat" where
  "spec_ceil_div a b = (if a mod b = 0 then a div b else a div b + 1)"

definition spec_align_up :: "nat \<Rightarrow> nat \<Rightarrow> nat" where
  "spec_align_up v m = (if v mod m = 0 then v else v + (m - v mod m))"

definition spec_blockLinearLayerSize ::
  "nat \<Rightarrow> nat \<Rightarrow> nat \<Rightarrow> nat \<Rightarrow> nat \<Rightarrow> nat \<Rightarrow> nat \<Rightarrow> nat \<Rightarrow> nat" where
  "spec_blockLinearLayerSize w h d fmtBw fmtBh bpb gbh gbd =
    (let robLineBytes = spec_align_up (spec_ceil_div w fmtBw * bpb) 64;
         robHeight = 8 * gbh;
         surfaceRobs = spec_ceil_div (spec_ceil_div h fmtBh) robHeight;
         robDepth = spec_align_up d gbd
     in robLineBytes * robHeight * surfaceRobs * robDepth)"

subsection \<open>Multi-mip size and the per-mip descriptors\<close>






record MipLevelLayout =
  dimensions :: Dimensions
  linearSize :: nat
  targetLinearSize :: nat
  blockLinearSize :: nat
  blockHeight :: nat
  blockDepth :: nat




section \<open>Swizzle copier\<close>

text \<open>
  A buffer is a map from byte offsets (relative to the pointer the caller passes) to
  bytes. The copier works on two buffers, the block-linear one and the pitch one, and
  writes one of them; the pair \<open>(blockLinear, pitch)\<close> is threaded through the loops.
\<close>

type_synonym byte = "8 word"
type_synonym buffer = "nat \<Rightarrow> byte"

text \<open>
  The assignment \<^verbatim>\<open>*reinterpret_cast<T *>(dst) = *reinterpret_cast<T *>(src)\<close> for an
  element type of \<open>n\<close> bytes: the \<open>n\<close> bytes at \<open>dstOffset\<close> become those at
  \<open>srcOffset\<close> of the other buffer.
\<close>

definition copyElement :: "nat \<Rightarrow> buffer \<Rightarrow> nat \<Rightarrow> buffer \<Rightarrow> nat \<Rightarrow> buffer" where
  "copyElement n src srcOffset dst dstOffset =
    (\<lambda>a. if dstOffset \<le> a \<and> a < dstOffset + n then src (srcOffset + (a - dstOffset)) else dst a)"

definition moveElement :: "bool \<Rightarrow> nat \<Rightarrow> nat \<Rightarrow> nat \<Rightarrow> buffer \<times> buffer \<Rightarrow> buffer \<times> buffer" where
  "moveElement BlockLinearToPitch n swizzledOffset deSwizzledOffset =
    (\<lambda>(blockLinear, pitch).
      if BlockLinearToPitch
      then (blockLinear, copyElement n blockLinear swizzledOffset pitch deSwizzledOffset)
      else (copyElement n pitch deSwizzledOffset blockLinear swizzledOffset, pitch))"

text \<open>
  The size in bytes of the element type \<^verbatim>\<open>FORMATBPB\<close> that the switch on \<open>formatBpb\<close>
  instantiates \<^verbatim>\<open>copyTexture\<close> with: \<^verbatim>\<open>u8\<close>, \<^verbatim>\<open>u16\<close>, \<^verbatim>\<open>u32\<close>, \<^verbatim>\<open>u64\<close> and \<^verbatim>\<open>u128\<close>
  have \<open>formatBpb\<close> bytes. The type of the 12-byte arm is
  \<^verbatim>\<open>struct u96 { u64 high; u32 low; }\<close>, declared under \<^verbatim>\<open>#pragma pack(push, 0)\<close>, which
  leaves the default packing in force: the struct has the alignment of \<^verbatim>\<open>u64\<close> and is
  padded to 16 bytes, so an assignment of a \<^verbatim>\<open>u96\<close> moves 16 bytes, while the loops
  advance by \<open>formatBpb = 12\<close>.
\<close>

definition sizeof_FORMATBPB :: "nat \<Rightarrow> nat" where
  "sizeof_FORMATBPB formatBpb = (if formatBpb = 12 then 16 else formatBpb)"

definition GobXOffset :: "nat \<Rightarrow> nat" where
  "GobXOffset xBytes =
    push_bit 8 (drop_bit 5 (xBytes AND 0x3F)) + (xBytes AND 0xF)
      + push_bit 5 (drop_bit 4 (xBytes AND 0x1F))"

definition GobYOffset :: "nat \<Rightarrow> nat \<Rightarrow> nat" where
  "GobYOffset robHeight line =
    (let blockHeight = (line AND (robHeight - 1)) div GobHeight;
         GobYOffset = blockHeight * GobWidth * GobHeight
     in GobYOffset + (push_bit 6 (drop_bit 1 (line AND 0x07)) + push_bit 4 (line AND 0x01)))"

subsection \<open>Full-surface copy\<close>

text \<open>
  The body of the pixel loop; the state is \<open>(deSwizzledOffset, (blockLinear, pitch))\<close>.
\<close>

definition copyPixel ::
  "bool \<Rightarrow> nat \<Rightarrow> nat \<Rightarrow> nat \<Rightarrow> nat \<Rightarrow> nat \<times> buffer \<times> buffer \<Rightarrow> nat \<times> buffer \<times> buffer" where
  "copyPixel BlockLinearToPitch formatBpb blockSize swizzledYZOffset pixel =
    (\<lambda>(deSwizzledOffset, mem).
      (let xBytes = pixel * formatBpb;
           blockOffset = (xBytes div GobWidth) * blockSize;
           swizzledOffset = swizzledYZOffset + blockOffset + GobXOffset xBytes
       in (deSwizzledOffset + formatBpb,
           moveElement BlockLinearToPitch (sizeof_FORMATBPB formatBpb)
             swizzledOffset deSwizzledOffset mem)))"

text \<open>
  The body of the line loop; the state is \<open>(pitchOffset, (blockLinear, pitch))\<close> and
  \<open>blockLinear\<close> is the offset the slice loop has advanced the block-linear pointer to.
\<close>

definition copyLine ::
  "bool \<Rightarrow> nat \<Rightarrow> nat \<Rightarrow> nat \<Rightarrow> nat \<Rightarrow> nat \<Rightarrow> nat \<Rightarrow> nat \<Rightarrow> nat \<Rightarrow> nat
    \<Rightarrow> nat \<times> buffer \<times> buffer \<Rightarrow> nat \<times> buffer \<times> buffer" where
  "copyLine BlockLinearToPitch textureWidth formatBpb textureWidthAlignedBytes robHeight
      alignedDepth blockSize pitchBytes blockLinear line =
    (\<lambda>(pitchOffset, mem).
      (let robOffset = textureWidthAlignedBytes * AlignDown line robHeight * alignedDepth;
           deSwizzledOffset = pitchOffset;
           swizzledYZOffset = blockLinear + robOffset + GobYOffset robHeight line;
           mem = snd (fold (copyPixel BlockLinearToPitch formatBpb blockSize swizzledYZOffset)
                        [0..<textureWidth] (deSwizzledOffset, mem))
       in (pitchOffset + pitchBytes, mem)))"

text \<open>
  The body of the slice loop; the state is \<open>(blockLinear, pitchOffset, (blockLinear buffer, pitch buffer))\<close>.
\<close>

definition copySlice ::
  "bool \<Rightarrow> nat \<Rightarrow> nat \<Rightarrow> nat \<Rightarrow> nat \<Rightarrow> nat \<Rightarrow> nat \<Rightarrow> nat \<Rightarrow> nat \<Rightarrow> nat \<Rightarrow> nat
    \<Rightarrow> nat \<times> nat \<times> buffer \<times> buffer \<Rightarrow> nat \<times> nat \<times> buffer \<times> buffer" where
  "copySlice BlockLinearToPitch textureWidth textureHeight formatBpb textureWidthAlignedBytes
      robHeight alignedDepth blockSize pitchBytes gobBlockHeight sliceNo =
    (\<lambda>(blockLinear, pitchOffset, mem).
      (let (pitchOffset, mem) =
             fold (copyLine BlockLinearToPitch textureWidth formatBpb textureWidthAlignedBytes
                     robHeight alignedDepth blockSize pitchBytes blockLinear)
               [0..<textureHeight] (pitchOffset, mem)
       in (blockLinear + GobHeight * GobWidth * gobBlockHeight, pitchOffset, mem)))"

text \<open>
  The generic lambda \<^verbatim>\<open>copyTexture\<close>, run from offset 0 of both buffers. Its template
  argument fixes the element type only, and the switch picks the type from \<open>formatBpb\<close>,
  so the number of bytes an element assignment moves is \<open>sizeof_FORMATBPB formatBpb\<close>.
\<close>

definition copyTexture ::
  "bool \<Rightarrow> nat \<Rightarrow> nat \<Rightarrow> nat \<Rightarrow> nat \<Rightarrow> nat \<Rightarrow> nat \<Rightarrow> nat \<Rightarrow> nat \<Rightarrow> nat \<Rightarrow> nat
    \<Rightarrow> buffer \<times> buffer \<Rightarrow> buffer \<times> buffer" where
  "copyTexture BlockLinearToPitch surfaceDepth textureWidth textureHeight formatBpb
      textureWidthAlignedBytes robHeight alignedDepth blockSize pitchBytes gobBlockHeight mem =
    snd (snd (fold (copySlice BlockLinearToPitch textureWidth textureHeight formatBpb
                      textureWidthAlignedBytes robHeight alignedDepth blockSize pitchBytes
                      gobBlockHeight)
                [0..<surfaceDepth] (0, 0, mem)))"

text \<open>
  \<^verbatim>\<open>CopyBlockLinearInternal\<close> from the point where the coalescing loop has left
  \<open>textureWidth\<close> and \<open>formatBpb\<close>: the remaining locals, and the switch on \<open>formatBpb\<close>
  (which has no default arm).
\<close>

definition copyBlockLinearCoalesced ::
  "bool \<Rightarrow> Dimensions \<Rightarrow> nat \<Rightarrow> nat \<Rightarrow> nat \<Rightarrow> nat \<Rightarrow> nat \<Rightarrow> nat \<Rightarrow> nat \<Rightarrow> nat
    \<Rightarrow> buffer \<times> buffer \<Rightarrow> buffer \<times> buffer" where
  "copyBlockLinearCoalesced BlockLinearToPitch dims formatBlockHeight pitchAmount
      gobBlockHeight gobBlockDepth textureWidthBytes textureWidthAlignedBytes
      textureWidth formatBpb mem =
    (let textureHeight = DivideCeil (height dims) formatBlockHeight;
         robHeight = gobBlockHeight * GobHeight;
         alignedDepth = AlignUp (depth dims) gobBlockDepth;
         pitchBytes = (if pitchAmount \<noteq> 0 then pitchAmount else textureWidthBytes);
         blockSize = robHeight * GobWidth * alignedDepth
     in if formatBpb = 1 \<or> formatBpb = 2 \<or> formatBpb = 4 \<or> formatBpb = 8
           \<or> formatBpb = 12 \<or> formatBpb = 16
        then copyTexture BlockLinearToPitch (depth dims) textureWidth textureHeight formatBpb
               textureWidthAlignedBytes robHeight alignedDepth blockSize pitchBytes
               gobBlockHeight mem
        else mem)"

text \<open>
  The width-coalescing loop of \<^verbatim>\<open>layout.cpp\<close>. It returns the final
  \<open>(textureWidth, formatBpb)\<close>; it need not end for a \<open>formatBpb\<close> that never reaches 16.
\<close>

partial_function (option) coalesce :: "nat \<Rightarrow> nat \<Rightarrow> nat \<Rightarrow> (nat \<times> nat) option" where
  "coalesce textureWidthBytes textureWidth formatBpb =
    (if formatBpb \<noteq> 16 then
       (if IsAligned textureWidthBytes (push_bit 1 formatBpb)
        then coalesce textureWidthBytes (textureWidth div 2) (push_bit 1 formatBpb)
        else Some (textureWidth, formatBpb))
     else Some (textureWidth, formatBpb))"

text \<open>
  The same loop in the older copy of the file (\<^verbatim>\<open>part_001\<close>), which tests the
  alignment of \<open>textureWidth\<close> instead of \<open>textureWidthBytes\<close>.
\<close>

partial_function (option) coalesce_v1 :: "nat \<Rightarrow> nat \<Rightarrow> (nat \<times> nat) option" where
  "coalesce_v1 textureWidth formatBpb =
    (if formatBpb \<noteq> 16 then
       (if IsAligned textureWidth (push_bit 1 formatBpb)
        then coalesce_v1 (textureWidth div 2) (push_bit 1 formatBpb)
        else Some (textureWidth, formatBpb))
     else Some (textureWidth, formatBpb))"

definition CopyBlockLinearInternal ::
  "bool \<Rightarrow> Dimensions \<Rightarrow> nat \<Rightarrow> nat \<Rightarrow> nat \<Rightarrow> nat \<Rightarrow> nat \<Rightarrow> nat
    \<Rightarrow> buffer \<times> buffer \<Rightarrow> (buffer \<times> buffer) option" where
  "CopyBlockLinearInternal BlockLinearToPitch dims formatBlockWidth formatBlockHeight formatBpb
      pitchAmount gobBlockHeight gobBlockDepth mem =
    (let textureWidth = DivideCeil (width dims) formatBlockWidth;
         textureWidthBytes = textureWidth * formatBpb;
         textureWidthAlignedBytes = AlignUp textureWidthBytes GobWidth
     in map_option
          (\<lambda>(textureWidth, formatBpb).
             copyBlockLinearCoalesced BlockLinearToPitch dims formatBlockHeight pitchAmount
               gobBlockHeight gobBlockDepth textureWidthBytes textureWidthAlignedBytes
               textureWidth formatBpb mem)
          (if formatBpb \<noteq> 12 then coalesce textureWidthBytes textureWidth formatBpb
           else Some (textureWidth, formatBpb)))"

definition CopyBlockLinearInternal_v1 ::
  "bool \<Rightarrow> Dimensions \<Rightarrow> nat \<Rightarrow> nat \<Rightarrow> nat \<Rightarrow> nat \<Rightarrow> nat \<Rightarrow> nat
    \<Rightarrow> buffer \<times> buffer \<Rightarrow> (buffer \<times> buffer) option" where
  "CopyBlockLinearInternal_v1 BlockLinearToPitch dims formatBlockWidth formatBlockHeight formatBpb
      pitchAmount gobBlockHeight gobBlockDepth mem =
    (let textureWidth = DivideCeil (width dims) formatBlockWidth;
         textureWidthBytes = textureWidth * formatBpb;
         textureWidthAlignedBytes = AlignUp textureWidthBytes GobWidth
     in map_option
          (\<lambda>(textureWidth, formatBpb).
             copyBlockLinearCoalesced BlockLinearToPitch dims formatBlockHeight pitchAmount
               gobBlockHeight gobBlockDepth textureWidthBytes textureWidthAlignedBytes
               textureWidth formatBpb mem)
          (if formatBpb \<noteq> 12 then coalesce_v1 textureWidth formatBpb
           else Some (textureWidth, formatBpb)))"

text \<open>
  The two public entry points with a pitch; each returns the buffer it has written.
\<close>

definition CopyBlockLinearToPitch ::
  "Dimensions \<Rightarrow> nat \<Rightarrow> nat \<Rightarrow> nat \<Rightarrow> nat \<Rightarrow> nat \<Rightarrow> nat \<Rightarrow> buffer \<Rightarrow> buffer \<Rightarrow> buffer option" where
  "CopyBlockLinearToPitch dims formatBlockWidth formatBlockHeight formatBpb pitchAmount
      gobBlockHeight gobBlockDepth blockLinear pitch =
    map_option snd
      (CopyBlockLinearInternal True dims formatBlockWidth formatBlockHeight formatBpb pitchAmount
         gobBlockHeight gobBlockDepth (blockLinear, pitch))"

definition CopyPitchToBlockLinear ::
  "Dimensions \<Rightarrow> nat \<Rightarrow> nat \<Rightarrow> nat \<Rightarrow> nat \<Rightarrow> nat \<Rightarrow> nat \<Rightarrow> buffer \<Rightarrow> buffer \<Rightarrow> buffer option" where
  "CopyPitchToBlockLinear dims formatBlockWidth formatBlockHeight formatBpb pitchAmount
      gobBlockHeight gobBlockDepth pitch blockLinear =
    map_option fst
      (CopyBlockLinearInternal False dims formatBlockWidth formatBlockHeight formatBpb pitchAmount
         gobBlockHeight gobBlockDepth (blockLinear, pitch))"

text \<open>
  The copier without the coalescing loop: one element per texel block, of the type the
  switch picks for the \<open>formatBpb\<close> of the format (\<open>formatBpb\<close> bytes for 1, 2, 4, 8 and
  16). This is the reference the coalesced copier is compared with.
\<close>

definition CopyBlockLinearReference ::
  "bool \<Rightarrow> Dimensions \<Rightarrow> nat \<Rightarrow> nat \<Rightarrow> nat \<Rightarrow> nat \<Rightarrow> nat \<Rightarrow> nat
    \<Rightarrow> buffer \<times> buffer \<Rightarrow> buffer \<times> buffer" where
  "CopyBlockLinearReference BlockLinearToPitch dims formatBlockWidth formatBlockHeight formatBpb
      pitchAmount gobBlockHeight gobBlockDepth mem =
    (let textureWidth = DivideCeil (width dims) formatBlockWidth;
         textureWidthBytes = textureWidth * formatBpb;
         textureWidthAlignedBytes = AlignUp textureWidthBytes GobWidth
     in copyBlockLinearCoalesced BlockLinearToPitch dims formatBlockHeight pitchAmount
          gobBlockHeight gobBlockDepth textureWidthBytes textureWidthAlignedBytes
          textureWidth formatBpb mem)"

subsection \<open>Sub-rectangle copy\<close>

text \<open>
  The \<^verbatim>\<open>size_t\<close> subtraction of the coalescing test, which passes below zero when the
  pitch row is shorter than the distance to the next GOB boundary.
\<close>

definition size_t_sub :: "nat \<Rightarrow> nat \<Rightarrow> nat" where
  "size_t_sub a b = (a + 2 ^ 64 - b) mod 2 ^ 64"

definition copyPixelSubrect ::
  "bool \<Rightarrow> nat \<Rightarrow> nat \<Rightarrow> nat \<Rightarrow> nat \<Rightarrow> nat \<Rightarrow> nat \<times> buffer \<times> buffer \<Rightarrow> nat \<times> buffer \<times> buffer" where
  "copyPixelSubrect BlockLinearToPitch formatBpb blockSize originXBytes swizzledYZOffset pixel =
    (\<lambda>(deSwizzledOffset, mem).
      (let xBytes = originXBytes + (pixel * formatBpb);
           blockOffset = (xBytes div GobWidth) * blockSize;
           swizzledOffset = swizzledYZOffset + blockOffset + GobXOffset xBytes
       in (deSwizzledOffset + formatBpb,
           moveElement BlockLinearToPitch (sizeof_FORMATBPB formatBpb)
             swizzledOffset deSwizzledOffset mem)))"

definition copyLineSubrect ::
  "bool \<Rightarrow> nat \<Rightarrow> nat \<Rightarrow> nat \<Rightarrow> nat \<Rightarrow> nat \<Rightarrow> nat \<Rightarrow> nat \<Rightarrow> nat \<Rightarrow> nat \<Rightarrow> nat \<Rightarrow> nat
    \<Rightarrow> nat \<times> buffer \<times> buffer \<Rightarrow> nat \<times> buffer \<times> buffer" where
  "copyLineSubrect BlockLinearToPitch pitchTextureWidth formatBpb blockLinearTextureWidthAlignedBytes
      robHeight alignedDepth blockSize pitchBytes originXBytes originYOffset blockLinear line =
    (\<lambda>(pitchOffset, mem).
      (let robOffset = blockLinearTextureWidthAlignedBytes
                         * AlignDown (originYOffset + line) robHeight * alignedDepth;
           deSwizzledOffset = pitchOffset;
           swizzledYZOffset = blockLinear + robOffset + GobYOffset robHeight (originYOffset + line);
           mem = snd (fold (copyPixelSubrect BlockLinearToPitch formatBpb blockSize originXBytes
                              swizzledYZOffset)
                        [0..<pitchTextureWidth] (deSwizzledOffset, mem))
       in (pitchOffset + pitchBytes, mem)))"

definition copySliceSubrect ::
  "bool \<Rightarrow> nat \<Rightarrow> nat \<Rightarrow> nat \<Rightarrow> nat \<Rightarrow> nat \<Rightarrow> nat \<Rightarrow> nat \<Rightarrow> nat \<Rightarrow> nat \<Rightarrow> nat \<Rightarrow> nat \<Rightarrow> nat
    \<Rightarrow> nat \<times> nat \<times> buffer \<times> buffer \<Rightarrow> nat \<times> nat \<times> buffer \<times> buffer" where
  "copySliceSubrect BlockLinearToPitch pitchTextureWidth pitchTextureHeight formatBpb
      blockLinearTextureWidthAlignedBytes robHeight alignedDepth blockSize pitchBytes
      originXBytes originYOffset gobBlockHeight sliceNo =
    (\<lambda>(blockLinear, pitchOffset, mem).
      (let (pitchOffset, mem) =
             fold (copyLineSubrect BlockLinearToPitch pitchTextureWidth formatBpb
                     blockLinearTextureWidthAlignedBytes robHeight alignedDepth blockSize
                     pitchBytes originXBytes originYOffset blockLinear)
               [0..<pitchTextureHeight] (pitchOffset, mem)
       in (blockLinear + GobHeight * GobWidth * gobBlockHeight, pitchOffset, mem)))"

definition copyTextureSubrect ::
  "bool \<Rightarrow> nat \<Rightarrow> nat \<Rightarrow> nat \<Rightarrow> nat \<Rightarrow> nat \<Rightarrow> nat \<Rightarrow> nat \<Rightarrow> nat \<Rightarrow> nat \<Rightarrow> nat \<Rightarrow> nat \<Rightarrow> nat
    \<Rightarrow> buffer \<times> buffer \<Rightarrow> buffer \<times> buffer" where
  "copyTextureSubrect BlockLinearToPitch surfaceDepth pitchTextureWidth pitchTextureHeight formatBpb
      blockLinearTextureWidthAlignedBytes robHeight alignedDepth blockSize pitchBytes
      originXBytes originYOffset gobBlockHeight mem =
    snd (snd (fold (copySliceSubrect BlockLinearToPitch pitchTextureWidth pitchTextureHeight
                      formatBpb blockLinearTextureWidthAlignedBytes robHeight alignedDepth
                      blockSize pitchBytes originXBytes originYOffset gobBlockHeight)
                [0..<surfaceDepth] (0, 0, mem)))"

partial_function (option) coalesceSubrect ::
  "nat \<Rightarrow> nat \<Rightarrow> nat \<Rightarrow> nat \<Rightarrow> (nat \<times> nat) option" where
  "coalesceSubrect pitchTextureWidthBytes startingBlockXBytes pitchTextureWidth formatBpb =
    (if formatBpb \<noteq> 16 then
       (if IsAligned (size_t_sub pitchTextureWidthBytes startingBlockXBytes) (push_bit 1 formatBpb)
           \<and> IsAligned startingBlockXBytes (push_bit 1 formatBpb)
        then coalesceSubrect pitchTextureWidthBytes startingBlockXBytes
               (pitchTextureWidth div 2) (push_bit 1 formatBpb)
        else Some (pitchTextureWidth, formatBpb))
     else Some (pitchTextureWidth, formatBpb))"

text \<open>
  \<^verbatim>\<open>CopyBlockLinearSubrectInternal\<close> of \<^verbatim>\<open>layout.cpp\<close>. The origin is a pair of
  \<^verbatim>\<open>u32\<close>; \<open>originX\<close> is divided in \<^verbatim>\<open>u32\<close> by the format block width cast to
  \<^verbatim>\<open>u32\<close>.
\<close>

definition CopyBlockLinearSubrectInternal ::
  "bool \<Rightarrow> Dimensions \<Rightarrow> Dimensions \<Rightarrow> nat \<Rightarrow> nat \<Rightarrow> nat \<Rightarrow> nat \<Rightarrow> nat \<Rightarrow> nat
    \<Rightarrow> buffer \<times> buffer \<Rightarrow> nat \<Rightarrow> nat \<Rightarrow> (buffer \<times> buffer) option" where
  "CopyBlockLinearSubrectInternal BlockLinearToPitch pitchDimensions blockLinearDimensions
      formatBlockWidth formatBlockHeight formatBpb pitchAmount gobBlockHeight gobBlockDepth
      mem originX originY =
    (let pitchTextureWidth = DivideCeil (width pitchDimensions) formatBlockWidth;
         pitchTextureWidthBytes = pitchTextureWidth * formatBpb;
         blockLinearTextureWidthAlignedBytes =
           AlignUp (DivideCeil (width blockLinearDimensions) formatBlockWidth * formatBpb) GobWidth;
         originX = DivideCeil originX (formatBlockWidth mod 2 ^ 32);
         originXBytes = originX * formatBpb
     in map_option
          (\<lambda>(pitchTextureWidth, formatBpb).
            (let pitchTextureHeight = DivideCeil (height pitchDimensions) formatBlockHeight;
                 robHeight = gobBlockHeight * GobHeight;
                 originYOffset = DivideCeil originY formatBlockHeight;
                 alignedDepth = AlignUp (depth blockLinearDimensions) gobBlockDepth;
                 pitchBytes = (if pitchAmount \<noteq> 0 then pitchAmount else pitchTextureWidthBytes);
                 blockSize = robHeight * GobWidth * alignedDepth
             in if formatBpb = 1 \<or> formatBpb = 2 \<or> formatBpb = 4 \<or> formatBpb = 8
                   \<or> formatBpb = 12 \<or> formatBpb = 16
                then copyTextureSubrect BlockLinearToPitch (depth blockLinearDimensions)
                       pitchTextureWidth pitchTextureHeight formatBpb
                       blockLinearTextureWidthAlignedBytes robHeight alignedDepth blockSize
                       pitchBytes originXBytes originYOffset gobBlockHeight mem
                else mem))
          (if formatBpb \<noteq> 12
           then coalesceSubrect pitchTextureWidthBytes
                  (AlignUp originXBytes GobWidth - originXBytes) pitchTextureWidth formatBpb
           else Some (pitchTextureWidth, formatBpb)))"

definition CopyBlockLinearToPitchSubrect ::
  "Dimensions \<Rightarrow> Dimensions \<Rightarrow> nat \<Rightarrow> nat \<Rightarrow> nat \<Rightarrow> nat \<Rightarrow> nat \<Rightarrow> nat
    \<Rightarrow> buffer \<Rightarrow> buffer \<Rightarrow> nat \<Rightarrow> nat \<Rightarrow> buffer option" where
  "CopyBlockLinearToPitchSubrect pitchDimensions blockLinearDimensions
      formatBlockWidth formatBlockHeight formatBpb pitchAmount gobBlockHeight gobBlockDepth
      blockLinear pitch originX originY =
    map_option snd
      (CopyBlockLinearSubrectInternal True pitchDimensions blockLinearDimensions
         formatBlockWidth formatBlockHeight formatBpb pitchAmount gobBlockHeight gobBlockDepth
         (blockLinear, pitch) originX originY)"

definition CopyPitchToBlockLinearSubrect ::
  "Dimensions \<Rightarrow> Dimensions \<Rightarrow> nat \<Rightarrow> nat \<Rightarrow> nat \<Rightarrow> nat \<Rightarrow> nat \<Rightarrow> nat
    \<Rightarrow> buffer \<Rightarrow> buffer \<Rightarrow> nat \<Rightarrow> nat \<Rightarrow> buffer option" where
  "CopyPitchToBlockLinearSubrect pitchDimensions blockLinearDimensions
      formatBlockWidth formatBlockHeight formatBpb pitchAmount gobBlockHeight gobBlockDepth
      pitch blockLinear originX originY =
    map_option fst
      (CopyBlockLinearSubrectInternal False pitchDimensions blockLinearDimensions
         formatBlockWidth formatBlockHeight formatBpb pitchAmount gobBlockHeight gobBlockDepth
         (blockLinear, pitch) originX originY)"

subsection \<open>The copy as a list of element moves\<close>

text \<open>
  One row of element moves with the offsets in closed form: element \<open>pixel\<close> of a row
  that starts \<open>x0\<close> bytes into the surface row lies at \<open>de + pixel * b\<close> in the pitch
  buffer and at the swizzled offset of byte \<open>x0 + pixel * b\<close> in the block-linear one;
  \<open>sizeof_FORMATBPB b\<close> bytes move.
\<close>

definition moveRow ::
  "bool \<Rightarrow> nat \<Rightarrow> nat \<Rightarrow> nat \<Rightarrow> nat \<Rightarrow> nat \<Rightarrow> nat \<Rightarrow> buffer \<times> buffer \<Rightarrow> buffer \<times> buffer" where
  "moveRow b2p w b blockSize swizzledYZOffset x0 de mem =
    fold (\<lambda>pixel. moveElement b2p (sizeof_FORMATBPB b)
            (swizzledYZOffset + ((x0 + pixel * b) div GobWidth) * blockSize + GobXOffset (x0 + pixel * b))
            (de + pixel * b))
      [0..<w] mem"

definition moveRows ::
  "bool \<Rightarrow> nat \<Rightarrow> nat \<Rightarrow> nat \<Rightarrow> nat \<Rightarrow> nat \<Rightarrow> nat \<Rightarrow> nat \<Rightarrow> nat \<Rightarrow> nat \<Rightarrow> nat \<Rightarrow> nat \<Rightarrow> nat
    \<Rightarrow> buffer \<times> buffer \<Rightarrow> buffer \<times> buffer" where
  "moveRows b2p d w h b widthAlignedBytes robHeight alignedDepth blockSize pitchBytes x0 y0
      gobBlockHeight mem =
    fold (\<lambda>z. fold (\<lambda>line. moveRow b2p w b blockSize
                      (z * (GobHeight * GobWidth * gobBlockHeight)
                         + widthAlignedBytes * AlignDown (y0 + line) robHeight * alignedDepth
                         + GobYOffset robHeight (y0 + line))
                      x0 ((z * h + line) * pitchBytes))
                [0..<h])
      [0..<d] mem"

subsection \<open>The copier as the spec describes it\<close>

text \<open>
  The byte offset of a texel block inside the block-linear buffer, transcribed from the
  formula of section 4.B of the spec (\<open>|\<close> is bitwise or, \<open>align_down\<close> rounds down to
  a multiple). \<open>robLineBytesAligned\<close> and \<open>alignedDepth\<close> are parameters of the formula.
\<close>

definition spec_align_down :: "nat \<Rightarrow> nat \<Rightarrow> nat" where
  "spec_align_down v m = v - v mod m"

definition spec_blockLinearOffset :: "nat \<Rightarrow> nat \<Rightarrow> nat \<Rightarrow> nat \<Rightarrow> nat \<Rightarrow> nat \<Rightarrow> nat \<Rightarrow> nat \<Rightarrow> nat" where
  "spec_blockLinearOffset bpb gbh gbd robLineBytesAligned alignedDepth x y z =
    (let xb = x * bpb;
         robHeight = 8 * gbh;
         blockX = xb div 64;
         robY = spec_align_down y robHeight div robHeight;
         blockZ = z div gbd;
         robBase = robY * (robLineBytesAligned * robHeight * alignedDepth);
         blockBase = robBase + blockX * (robHeight * 64 * alignedDepth)
                       + blockZ * (robHeight * 64 * gbd);
         gobY_block = (y mod robHeight) div 8;
         gobZ_block = z mod gbd;
         gobBase = blockBase + (gobZ_block * gbh + gobY_block) * 512;
         intraGobY = push_bit 6 (drop_bit 1 (y AND 7)) OR push_bit 4 (y AND 1);
         intraGobX = push_bit 8 (drop_bit 5 (xb AND 0x3F)) OR push_bit 5 (drop_bit 4 (xb AND 0x1F))
                       OR (xb AND 0x0F)
     in gobBase + intraGobY + intraGobX)"

text \<open>The element sizes the coalescing loop can reach: the powers of two up to 16.\<close>

definition pow2_bpb :: "nat \<Rightarrow> bool" where
  "pow2_bpb b = (b = 1 \<or> b = 2 \<or> b = 4 \<or> b = 8 \<or> b = 16)"

text \<open>
  Round trip: \<^verbatim>\<open>CopyPitchToBlockLinear\<close> from \<open>B\<close> into \<open>dst\<close>, then
  \<^verbatim>\<open>CopyBlockLinearToPitch\<close> from the result into a fresh pitch buffer.
\<close>

definition roundTrip ::
  "Dimensions \<Rightarrow> nat \<Rightarrow> nat \<Rightarrow> nat \<Rightarrow> nat \<Rightarrow> nat \<Rightarrow> nat \<Rightarrow> buffer \<Rightarrow> buffer \<Rightarrow> buffer \<Rightarrow> buffer option" where
  "roundTrip dims formatBlockWidth formatBlockHeight formatBpb pitchAmount gobBlockHeight gobBlockDepth
      B dst fresh =
    Option.bind
      (CopyPitchToBlockLinear dims formatBlockWidth formatBlockHeight formatBpb pitchAmount
         gobBlockHeight gobBlockDepth B dst)
      (\<lambda>dst'. CopyBlockLinearToPitch dims formatBlockWidth formatBlockHeight formatBpb pitchAmount
         gobBlockHeight gobBlockDepth dst' fresh)"

subsection \<open>The copy as a list of byte moves\<close>

text \<open>
  The block-linear offset and the pitch offset of byte \<open>xb\<close> of line \<open>line\<close> of slice
  \<open>z\<close>, as the loops compute them (\<open>x0\<close> and \<open>y0\<close> are the origin of a sub-rectangle, in
  bytes and lines; both are 0 for a full-surface copy).
\<close>

definition swizzledByte ::
  "nat \<Rightarrow> nat \<Rightarrow> nat \<Rightarrow> nat \<Rightarrow> nat \<Rightarrow> nat \<Rightarrow> nat \<Rightarrow> nat \<times> nat \<times> nat \<Rightarrow> nat" where
  "swizzledByte wa rh ad bs gbh x0 y0 =
    (\<lambda>(z, line, xb).
       z * (GobHeight * GobWidth * gbh) + wa * AlignDown (y0 + line) rh * ad
         + GobYOffset rh (y0 + line)
         + ((x0 + xb) div GobWidth) * bs + GobXOffset (x0 + xb))"

definition pitchByte :: "nat \<Rightarrow> nat \<Rightarrow> nat \<times> nat \<times> nat \<Rightarrow> nat" where
  "pitchByte h pb = (\<lambda>(z, line, xb). (z * h + line) * pb + xb)"

definition byteIndices :: "nat \<Rightarrow> nat \<Rightarrow> nat \<Rightarrow> (nat \<times> nat \<times> nat) list" where
  "byteIndices d h wb = List.product [0..<d] (List.product [0..<h] [0..<wb])"

definition moveBytes ::
  "bool \<Rightarrow> (nat \<times> nat) list \<Rightarrow> buffer \<times> buffer \<Rightarrow> buffer \<times> buffer" where
  "moveBytes b2p ms mem = fold (\<lambda>(s, d). moveElement b2p 1 s d) ms mem"

text \<open>
  The byte moves of a copy of \<open>wb\<close> bytes by \<open>h\<close> lines by \<open>d\<close> slices, in the order
  the loops make them: each entry is the block-linear offset and the pitch offset of one
  byte.
\<close>

definition byteMoves ::
  "nat \<Rightarrow> nat \<Rightarrow> nat \<Rightarrow> nat \<Rightarrow> nat \<Rightarrow> nat \<Rightarrow> nat \<Rightarrow> nat \<Rightarrow> nat \<Rightarrow> nat \<Rightarrow> nat \<Rightarrow> (nat \<times> nat) list" where
  "byteMoves d wb h wa rh ad bs pb x0 y0 gbh =
    map (\<lambda>i. (swizzledByte wa rh ad bs gbh x0 y0 i, pitchByte h pb i)) (byteIndices d h wb)"

text \<open>The byte moves of a full-surface copy, with the geometry \<^verbatim>\<open>CopyBlockLinearInternal\<close> derives.\<close>

definition fullCopyMoves ::
  "Dimensions \<Rightarrow> nat \<Rightarrow> nat \<Rightarrow> nat \<Rightarrow> nat \<Rightarrow> nat \<Rightarrow> nat \<Rightarrow> (nat \<times> nat) list" where
  "fullCopyMoves dims fbw fbh b pa gbh gbd =
    byteMoves (depth dims) (DivideCeil (width dims) fbw * b) (DivideCeil (height dims) fbh)
      (AlignUp (DivideCeil (width dims) fbw * b) GobWidth) (gbh * GobHeight)
      (AlignUp (depth dims) gbd) (gbh * GobHeight * GobWidth * AlignUp (depth dims) gbd)
      (if pa \<noteq> 0 then pa else DivideCeil (width dims) fbw * b) 0 0 gbh"

text \<open>
  The byte moves of a sub-rectangle copy, with the geometry
  \<^verbatim>\<open>CopyBlockLinearSubrectInternal\<close> derives: the rows start \<open>originX\<close> blocks into
  the surface row and \<open>originY\<close> lines into the surface.
\<close>

definition subrectMoves ::
  "Dimensions \<Rightarrow> Dimensions \<Rightarrow> nat \<Rightarrow> nat \<Rightarrow> nat \<Rightarrow> nat \<Rightarrow> nat \<Rightarrow> nat \<Rightarrow> nat \<Rightarrow> nat
    \<Rightarrow> (nat \<times> nat) list" where
  "subrectMoves pitchDimensions blockLinearDimensions fbw fbh b pa gbh gbd originX originY =
    byteMoves (depth blockLinearDimensions) (DivideCeil (width pitchDimensions) fbw * b)
      (DivideCeil (height pitchDimensions) fbh)
      (AlignUp (DivideCeil (width blockLinearDimensions) fbw * b) GobWidth) (gbh * GobHeight)
      (AlignUp (depth blockLinearDimensions) gbd)
      (gbh * GobHeight * GobWidth * AlignUp (depth blockLinearDimensions) gbd)
      (if pa \<noteq> 0 then pa else DivideCeil (width pitchDimensions) fbw * b)
      (DivideCeil originX (fbw mod 2 ^ 32) * b) (DivideCeil originY fbh) gbh"

text \<open>
  Sub-rectangle round trip: \<^verbatim>\<open>CopyPitchToBlockLinearSubrect\<close> from \<open>B\<close> into \<open>dst\<close>,
  then \<^verbatim>\<open>CopyBlockLinearToPitchSubrect\<close> from the result into a fresh pitch buffer, with
  the same geometry and origin.
\<close>

definition roundTripSubrect ::
  "Dimensions \<Rightarrow> Dimensions \<Rightarrow> nat \<Rightarrow> nat \<Rightarrow> nat \<Rightarrow> nat \<Rightarrow> nat \<Rightarrow> nat
    \<Rightarrow> buffer \<Rightarrow> buffer \<Rightarrow> buffer \<Rightarrow> nat \<Rightarrow> nat \<Rightarrow> buffer option" where
  "roundTripSubrect pitchDimensions blockLinearDimensions formatBlockWidth formatBlockHeight formatBpb
      pitchAmount gobBlockHeight gobBlockDepth B dst fresh originX originY =
    Option.bind
      (CopyPitchToBlockLinearSubrect pitchDimensions blockLinearDimensions formatBlockWidth
         formatBlockHeight formatBpb pitchAmount gobBlockHeight gobBlockDepth B dst originX originY)
      (\<lambda>dst'. CopyBlockLinearToPitchSubrect pitchDimensions blockLinearDimensions formatBlockWidth
         formatBlockHeight formatBpb pitchAmount gobBlockHeight gobBlockDepth dst' fresh originX originY)"

text \<open>
  The pitch buffer of scenario S1 of the spec: texel \<open>i\<close> holds the value \<open>i\<close>, a
  little-endian 32-bit word at linear offset \<open>i * 4\<close>.
\<close>

definition identityTexels :: buffer where
  "identityTexels a = of_nat ((a div 4) div 256 ^ (a mod 4))"

section \<open>Maxwell DMA engine front-end\<close>

type_synonym u32 = "32 word"
type_synonym u64 = "64 word"

text \<open>
  Modelled from the spec: the register file (\<^verbatim>\<open>maxwell_dma.h\<close> is not among the sources).
  Section 6 of the spec names the typed views and their fields; the records below hold
  the fields the engine reads. The fields of a surface that share a name with a field of
  \<^typ>\<open>Dimensions\<close>, and the two coordinates of the origin, carry a prefix.
\<close>

datatype MemoryLayout = BlockLinear | Pitch

datatype SemaphoreType =
  NoSemaphore | ReleaseOneWordSemaphore | ReleaseFourWordSemaphore | ReservedSemaphore

record LaunchDma =
  multiLineEnable :: bool
  remapEnable :: bool
  srcMemoryLayout :: MemoryLayout
  dstMemoryLayout :: MemoryLayout
  reductionEnable :: bool
  semaphoreType :: SemaphoreType

record BlockSize =
  widthLog2 :: "4 word"
  heightLog2 :: "4 word"
  depthLog2 :: "4 word"

text \<open>
  Modelled from the spec: the accessors of the block size, whose three fields are
  "each 4-bit log2".
\<close>

definition Width :: "BlockSize \<Rightarrow> nat" where
  "Width bs = 2 ^ unat (widthLog2 bs)"

definition Height :: "BlockSize \<Rightarrow> nat" where
  "Height bs = 2 ^ unat (heightLog2 bs)"

definition Depth :: "BlockSize \<Rightarrow> nat" where
  "Depth bs = 2 ^ unat (depthLog2 bs)"

record Surface =
  blockSize :: BlockSize
  surface_width :: u32
  surface_height :: u32
  surface_depth :: u32
  layer :: u32
  origin_x :: u32
  origin_y :: u32

record Semaphore =
  address :: u64
  payload :: u32

record Registers =
  launchDma :: LaunchDma
  offsetIn :: u64
  offsetOut :: u64
  pitchIn :: u32
  pitchOut :: u32
  lineLengthIn :: u32
  lineCount :: u32
  srcSurface :: Surface
  dstSurface :: Surface
  semaphore :: Semaphore

text \<open>
  The engine's collaborators are outside the sources. Every call the engine makes to one
  of them is recorded, in order, as an event; a host mapping returned by the MMU is the
  pair of its host address and its size.
\<close>

type_synonym mapping = "nat \<times> nat"

datatype LogLevel = LogDebug | LogWarn | LogError

datatype TextureCall =
  CallCopyBlockLinearToPitch Dimensions nat nat nat nat nat nat nat nat
| CallCopyBlockLinearToPitchSubrect Dimensions Dimensions nat nat nat nat nat nat nat nat nat nat
| CallCopyPitchToBlockLinear Dimensions nat nat nat nat nat nat nat nat
| CallCopyPitchToBlockLinearSubrect Dimensions Dimensions nat nat nat nat nat nat nat nat nat nat

datatype Event =
  Logger LogLevel string "nat list"
| ExecutorSubmit
| InterconnectCopy u64 u64 u64
| GmmuTranslateRange u64 nat
| GmmuWrite u64 u64
| GpuTimeTicks
| Texture TextureCall

fun is_GmmuWrite :: "Event \<Rightarrow> bool" where
  "is_GmmuWrite (GmmuWrite a v) = True"
| "is_GmmuWrite e = False"

fun is_Logger :: "Event \<Rightarrow> bool" where
  "is_Logger (Logger l m args) = True"
| "is_Logger e = False"

fun is_Copy :: "Event \<Rightarrow> bool" where
  "is_Copy (InterconnectCopy d s n) = True"
| "is_Copy (Texture c) = True"
| "is_Copy e = False"

text \<open>
  What the collaborators answer: the mappings \<^verbatim>\<open>gmmu.TranslateRange\<close> returns for an
  address and a size, the value of \<^verbatim>\<open>GetGpuTimeTicks\<close> at the launch, and (the register
  layout being outside the sources) the effect of a raw register write on the typed
  views together with the method number of \<open>launchDma\<close>.
\<close>

record Env =
  TranslateRange :: "u64 \<Rightarrow> nat \<Rightarrow> mapping list"
  GetGpuTimeTicks :: u64
  rawWrite :: "nat \<Rightarrow> u32 \<Rightarrow> Registers \<Rightarrow> Registers"
  launchDmaOffset :: nat

record MaxwellDma =
  registers :: Registers
  trace :: "Event list"

definition emit :: "Event \<Rightarrow> MaxwellDma \<Rightarrow> MaxwellDma" where
  "emit e s = s\<lparr>trace := trace s @ [e]\<rparr>"

definition ReleaseSemaphore :: "Env \<Rightarrow> MaxwellDma \<Rightarrow> MaxwellDma" where
  "ReleaseSemaphore env s =
    (let r = registers s;
         s = (if reductionEnable (launchDma r)
              then emit (Logger LogWarn ''Semaphore reduction is unimplemented!'' []) s else s);
         addr = address (semaphore r);
         pay = (ucast (payload (semaphore r)) :: u64)
     in case semaphoreType (launchDma r) of
          ReleaseOneWordSemaphore \<Rightarrow>
            emit (Logger LogDebug ''address: 0x{:X} payload: {}'' [unat addr, unat pay])
              (emit (GmmuWrite addr pay) s)
        | ReleaseFourWordSemaphore \<Rightarrow>
            (let s = emit GpuTimeTicks s;
                 timestamp = GetGpuTimeTicks env;
                 s = emit (GmmuWrite (addr + 8) timestamp) s;
                 s = emit (GmmuWrite addr pay) s
             in emit (Logger LogDebug ''address: 0x{:X} payload: {} timestamp: {}''
                        [unat addr, unat pay, unat timestamp]) s)
        | _ \<Rightarrow> s)"

text \<open>
  The row-by-row pitch to pitch copy: the loop counts \<open>linesToCopy\<close> down to zero and
  advances the two 32-bit offsets by the pitches.
\<close>

function copyLines :: "Registers \<Rightarrow> u32 \<Rightarrow> u32 \<Rightarrow> u32 \<Rightarrow> MaxwellDma \<Rightarrow> MaxwellDma" where
  "copyLines r linesToCopy srcCopyOffset dstCopyOffset s =
    (if linesToCopy \<noteq> 0 then
       copyLines r (linesToCopy - 1) (srcCopyOffset + pitchIn r) (dstCopyOffset + pitchOut r)
         (emit (InterconnectCopy (offsetOut r + ucast dstCopyOffset) (offsetIn r + ucast srcCopyOffset)
                  (ucast (lineLengthIn r))) s)
     else s)"
  by pat_completeness auto
termination
  by (relation "measure (\<lambda>(r, linesToCopy, srcCopyOffset, dstCopyOffset, s). unat linesToCopy)")
     (auto simp: unat_minus_one unat_gt_0 intro!: diff_less)

declare copyLines.simps [simp del]

definition srcLayerStride :: "Registers \<Rightarrow> nat" where
  "srcLayerStride r =
    GetBlockLinearLayerSize
      \<lparr>width = unat (surface_width (srcSurface r)), height = unat (surface_height (srcSurface r)),
       depth = unat (surface_depth (srcSurface r))\<rparr>
      1 1 1 (Height (blockSize (srcSurface r))) (Depth (blockSize (srcSurface r)))"

definition dstLayerStride :: "Registers \<Rightarrow> nat" where
  "dstLayerStride r =
    GetBlockLinearLayerSize
      \<lparr>width = unat (surface_width (dstSurface r)), height = unat (surface_height (dstSurface r)),
       depth = unat (surface_depth (dstSurface r))\<rparr>
      1 1 1 (Height (blockSize (dstSurface r))) (Depth (blockSize (dstSurface r)))"

definition CopyBlockLinearToPitch_engine :: "Env \<Rightarrow> MaxwellDma \<Rightarrow> MaxwellDma" where
  "CopyBlockLinearToPitch_engine env s =
    (let r = registers s in
     if Width (blockSize (srcSurface r)) \<noteq> 1 then
       emit (Logger LogError
          ''Blocklinear surfaces with a non-one block width are unsupported on the Tegra X1: {}''
          [Width (blockSize (srcSurface r))]) s
     else
      (let srcDimensions = \<lparr>width = unat (surface_width (srcSurface r)),
                             height = unat (surface_height (srcSurface r)),
                             depth = unat (surface_depth (srcSurface r))\<rparr>;
           srcLayerAddress = (unat (offsetIn r) + unat (layer (srcSurface r)) * srcLayerStride r) mod 2 ^ 64;
           s = emit (GmmuTranslateRange (offsetIn r) (srcLayerStride r)) s;
           srcMappings = TranslateRange env (offsetIn r) (srcLayerStride r);
           dstDimensions = \<lparr>width = unat (lineLengthIn r), height = unat (lineCount r),
                             depth = unat (surface_depth (srcSurface r))\<rparr>;
           dstSize = pitchOut r * lineCount r * surface_depth (srcSurface r);
           s = emit (GmmuTranslateRange (offsetOut r) (unat dstSize)) s;
           dstMappings = TranslateRange env (offsetOut r) (unat dstSize)
       in if length srcMappings \<noteq> 1 \<or> length dstMappings \<noteq> 1 then
            emit (Logger LogWarn ''DMA copies for split textures are unimplemented!'' []) s
          else
           (let s = emit (Logger LogDebug ''{}x{}@0x{:X} -> {}x{}@0x{:X}''
                      [width srcDimensions, height srcDimensions, srcLayerAddress,
                       width dstDimensions, height dstDimensions, unat (offsetOut r)]) s
            in if AlignDown (width srcDimensions) 64 \<noteq> AlignDown (width dstDimensions) 64
                  \<or> origin_x (srcSurface r) \<noteq> 0 \<or> origin_y (srcSurface r) \<noteq> 0 then
                 emit (Texture (CallCopyBlockLinearToPitchSubrect dstDimensions srcDimensions
                         1 1 1 (unat (pitchOut r))
                         (Height (blockSize (srcSurface r))) (Depth (blockSize (srcSurface r)))
                         (fst (hd srcMappings)) (fst (hd dstMappings))
                         (unat (origin_x (srcSurface r))) (unat (origin_y (srcSurface r))))) s
               else
                 emit (Texture (CallCopyBlockLinearToPitch dstDimensions
                         1 1 1 (unat (pitchOut r))
                         (Height (blockSize (srcSurface r))) (Depth (blockSize (srcSurface r)))
                         (fst (hd srcMappings)) (fst (hd dstMappings)))) s)))"

definition CopyPitchToBlockLinear_engine :: "Env \<Rightarrow> MaxwellDma \<Rightarrow> MaxwellDma" where
  "CopyPitchToBlockLinear_engine env s =
    (let r = registers s in
     if Width (blockSize (dstSurface r)) \<noteq> 1 then
       emit (Logger LogError
          ''Blocklinear surfaces with a non-one block width are unsupported on the Tegra X1: {}''
          [Width (blockSize (srcSurface r))]) s
     else
      (let srcDimensions = \<lparr>width = unat (lineLengthIn r), height = unat (lineCount r),
                             depth = unat (surface_depth (dstSurface r))\<rparr>;
           srcSize = pitchIn r * lineCount r * surface_depth (dstSurface r);
           s = emit (GmmuTranslateRange (offsetIn r) (unat srcSize)) s;
           srcMappings = TranslateRange env (offsetIn r) (unat srcSize);
           dstDimensions = \<lparr>width = unat (surface_width (dstSurface r)),
                             height = unat (surface_height (dstSurface r)),
                             depth = unat (surface_depth (dstSurface r))\<rparr>;
           dstLayerAddress = (unat (offsetOut r) + unat (layer (dstSurface r)) * dstLayerStride r) mod 2 ^ 64;
           s = emit (GmmuTranslateRange (offsetOut r) (dstLayerStride r)) s;
           dstMappings = TranslateRange env (offsetOut r) (dstLayerStride r)
       in if length srcMappings \<noteq> 1 \<or> length dstMappings \<noteq> 1 then
            emit (Logger LogWarn ''DMA copies for split textures are unimplemented!'' []) s
          else
           (let s = emit (Logger LogDebug ''{}x{}@0x{:X} -> {}x{}@0x{:X}''
                      [width srcDimensions, height srcDimensions, unat (offsetIn r),
                       width dstDimensions, height dstDimensions, dstLayerAddress]) s
            in if AlignDown (width srcDimensions) 64 \<noteq> AlignDown (width dstDimensions) 64
                  \<or> origin_x (dstSurface r) \<noteq> 0 \<or> origin_y (dstSurface r) \<noteq> 0 then
                 emit (Texture (CallCopyPitchToBlockLinearSubrect srcDimensions dstDimensions
                         1 1 1 (unat (pitchIn r))
                         (Height (blockSize (dstSurface r))) (Depth (blockSize (dstSurface r)))
                         (fst (hd srcMappings)) (fst (hd dstMappings))
                         (unat (origin_x (dstSurface r))) (unat (origin_y (dstSurface r))))) s
               else
                 emit (Texture (CallCopyPitchToBlockLinear srcDimensions
                         1 1 1 (unat (pitchIn r))
                         (Height (blockSize (dstSurface r))) (Depth (blockSize (dstSurface r)))
                         (fst (hd srcMappings)) (fst (hd dstMappings)))) s)))"

definition DmaCopy :: "Env \<Rightarrow> MaxwellDma \<Rightarrow> MaxwellDma" where
  "DmaCopy env s =
    (let r = registers s in
     if multiLineEnable (launchDma r) then
      (let s = emit ExecutorSubmit s in
       if srcMemoryLayout (launchDma r) = dstMemoryLayout (launchDma r) then
         (if srcMemoryLayout (launchDma r) = Pitch then
            (if pitchIn r = pitchOut r \<and> pitchIn r = lineLengthIn r then
               emit (InterconnectCopy (offsetOut r) (offsetIn r)
                       (ucast (lineLengthIn r * lineCount r))) s
             else copyLines r (lineCount r) 0 0 s)
          else emit (Logger LogWarn ''BlockLinear to BlockLinear DMA copies are unimplemented!'' []) s)
       else if srcMemoryLayout (launchDma r) = BlockLinear then CopyBlockLinearToPitch_engine env s
       else CopyPitchToBlockLinear_engine env s)
     else
       emit (InterconnectCopy (offsetOut r) (offsetIn r) (ucast (lineLengthIn r)))
         (emit (Logger LogDebug ''src: 0x{:X} dst: 0x{:X} size: 0x{:X}''
                  [unat (offsetIn r), unat (offsetOut r), unat (lineLengthIn r)]) s))"

definition LaunchDma_engine :: "Env \<Rightarrow> MaxwellDma \<Rightarrow> MaxwellDma" where
  "LaunchDma_engine env s =
    ReleaseSemaphore env
      (if remapEnable (launchDma (registers s))
       then emit (Logger LogWarn ''Remapped DMA copies are unimplemented!'' []) s
       else DmaCopy env s)"

definition HandleMethod :: "Env \<Rightarrow> nat \<Rightarrow> u32 \<Rightarrow> MaxwellDma \<Rightarrow> MaxwellDma" where
  "HandleMethod env method argument s =
    (let s = s\<lparr>registers := rawWrite env method argument (registers s)\<rparr>
     in if method = launchDmaOffset env then LaunchDma_engine env s else s)"

definition CallMethodBatchNonInc :: "Env \<Rightarrow> nat \<Rightarrow> u32 list \<Rightarrow> MaxwellDma \<Rightarrow> MaxwellDma" where
  "CallMethodBatchNonInc env method arguments s = fold (HandleMethod env method) arguments s"

text \<open>
  The events a function of the engine adds to an empty trace, from a given register
  state; and the part of \<^verbatim>\<open>LaunchDma\<close> that runs before \<^verbatim>\<open>ReleaseSemaphore\<close>.
\<close>

definition emitted :: "(MaxwellDma \<Rightarrow> MaxwellDma) \<Rightarrow> Registers \<Rightarrow> Event list" where
  "emitted f r = trace (f \<lparr>registers = r, trace = []\<rparr>)"

definition launchBody :: "Env \<Rightarrow> MaxwellDma \<Rightarrow> MaxwellDma" where
  "launchBody env s =
    (if remapEnable (launchDma (registers s))
     then emit (Logger LogWarn ''Remapped DMA copies are unimplemented!'' []) s
     else DmaCopy env s)"

text \<open>A concrete environment and register state, for the examples.\<close>

definition example_env :: Env where
  "example_env = \<lparr>TranslateRange = (\<lambda>a n. [(unat a, n)]), GetGpuTimeTicks = 42,
                   rawWrite = (\<lambda>method argument r. r), launchDmaOffset = 192\<rparr>"

definition example_registers :: Registers where
  "example_registers =
    \<lparr>launchDma = \<lparr>multiLineEnable = True, remapEnable = True, srcMemoryLayout = BlockLinear,
                   dstMemoryLayout = Pitch, reductionEnable = False,
                   semaphoreType = ReleaseFourWordSemaphore\<rparr>,
     offsetIn = 0x10000, offsetOut = 0x20000, pitchIn = 64, pitchOut = 64,
     lineLengthIn = 64, lineCount = 8,
     srcSurface = \<lparr>blockSize = \<lparr>widthLog2 = 0, heightLog2 = 0, depthLog2 = 0\<rparr>,
                    surface_width = 64, surface_height = 8, surface_depth = 1, layer = 0,
                    origin_x = 0, origin_y = 0\<rparr>,
     dstSurface = \<lparr>blockSize = \<lparr>widthLog2 = 0, heightLog2 = 0, depthLog2 = 0\<rparr>,
                    surface_width = 64, surface_height = 8, surface_depth = 1, layer = 0,
                    origin_x = 0, origin_y = 0\<rparr>,
     semaphore = \<lparr>address = 0x1000, payload = 7\<rparr>\<rparr>"

text \<open>
  The mappings the two block-linear paths ask the MMU for, and the register states on
  which a launch is unsupported: \<open>remapEnable\<close> set; a multi-line copy with both layouts
  block-linear; a multi-line copy between the two layouts whose block-linear surface has
  a block width other than 1, or one of whose sides translates to more than one mapping.
\<close>

definition srcMappings_BlockLinearToPitch :: "Env \<Rightarrow> Registers \<Rightarrow> mapping list" where
  "srcMappings_BlockLinearToPitch env r = TranslateRange env (offsetIn r) (srcLayerStride r)"

definition dstMappings_BlockLinearToPitch :: "Env \<Rightarrow> Registers \<Rightarrow> mapping list" where
  "dstMappings_BlockLinearToPitch env r =
     TranslateRange env (offsetOut r) (unat (pitchOut r * lineCount r * surface_depth (srcSurface r)))"

definition srcMappings_PitchToBlockLinear :: "Env \<Rightarrow> Registers \<Rightarrow> mapping list" where
  "srcMappings_PitchToBlockLinear env r =
     TranslateRange env (offsetIn r) (unat (pitchIn r * lineCount r * surface_depth (dstSurface r)))"

definition dstMappings_PitchToBlockLinear :: "Env \<Rightarrow> Registers \<Rightarrow> mapping list" where
  "dstMappings_PitchToBlockLinear env r = TranslateRange env (offsetOut r) (dstLayerStride r)"

definition unsupported :: "Env \<Rightarrow> Registers \<Rightarrow> bool" where
  "unsupported env r =
    (remapEnable (launchDma r)
     \<or> (multiLineEnable (launchDma r) \<and> srcMemoryLayout (launchDma r) = BlockLinear
          \<and> dstMemoryLayout (launchDma r) = BlockLinear)
     \<or> (multiLineEnable (launchDma r) \<and> srcMemoryLayout (launchDma r) = BlockLinear
          \<and> dstMemoryLayout (launchDma r) = Pitch
          \<and> (Width (blockSize (srcSurface r)) \<noteq> 1
               \<or> 1 < length (srcMappings_BlockLinearToPitch env r)
               \<or> 1 < length (dstMappings_BlockLinearToPitch env r)))
     \<or> (multiLineEnable (launchDma r) \<and> srcMemoryLayout (launchDma r) = Pitch
          \<and> dstMemoryLayout (launchDma r) = BlockLinear
          \<and> (Width (blockSize (dstSurface r)) \<noteq> 1
               \<or> 1 < length (srcMappings_PitchToBlockLinear env r)
               \<or> 1 < length (dstMappings_PitchToBlockLinear env r))))"

text \<open>
  Registers that differ from \<open>r\<close> in the layer fields of the two surfaces only; and
  the events of a trace that are calls to a collaborator other than the logger.
\<close>

definition setLayers :: "u32 \<Rightarrow> u32 \<Rightarrow> Registers \<Rightarrow> Registers" where
  "setLayers srcLayer dstLayer r =
     r\<lparr>srcSurface := (srcSurface r)\<lparr>layer := srcLayer\<rparr>,
       dstSurface := (dstSurface r)\<lparr>layer := dstLayer\<rparr>\<rparr>"

definition effects :: "Event list \<Rightarrow> Event list" where
  "effects es = filter (\<lambda>e. \<not> is_Logger e) es"

fun is_TranslateRange :: "Event \<Rightarrow> bool" where
  "is_TranslateRange (GmmuTranslateRange a n) = True"
| "is_TranslateRange e = False"

definition example_registers2 :: Registers where
  "example_registers2 = example_registers\<lparr>launchDma := (launchDma example_registers)\<lparr>remapEnable := False\<rparr>\<rparr>"

section \<open>Properties of the layout calculator\<close>

lemma div_step: "r < b \<Longrightarrow> (b * q + r) div b = (q::nat)"
  by simp

lemma DivideCeil_spec: "0 < b \<Longrightarrow> DivideCeil a b = spec_ceil_div a b"
proof -
  assume b: "0 < b"
  define r where "r = a mod b"
  define q where "q = a div b"
  have r: "r < b" using b by (simp add: r_def)
  have a': "a = b * q + r" by (simp add: r_def q_def)
  show ?thesis
  proof (cases "r = 0")
    case True
    have "a + b - 1 = b * q + (b - 1)" using b a' True by simp
    moreover have "(b * q + (b - 1)) div b = q" using b by (intro div_step) simp
    ultimately show ?thesis
      using True by (simp add: DivideCeil_def spec_ceil_div_def r_def q_def)
  next
    case False
    have "a + b - 1 = b * (q + 1) + (r - 1)" using False a' by simp
    moreover have "(b * (q + 1) + (r - 1)) div b = q + 1" using r by (intro div_step) simp
    ultimately show ?thesis
      using False by (simp add: DivideCeil_def spec_ceil_div_def r_def q_def)
  qed
qed

lemma AlignUp_spec: "0 < m \<Longrightarrow> AlignUp v m = spec_align_up v m"
proof -
  assume m: "0 < m"
  have "AlignUp v m = DivideCeil v m * m" by (simp add: AlignUp_def DivideCeil_def)
  also have "\<dots> = spec_ceil_div v m * m" using m by (simp add: DivideCeil_spec)
  also have "\<dots> = spec_align_up v m"
  proof (cases "v mod m = 0")
    case True
    then show ?thesis by (auto simp: spec_ceil_div_def spec_align_up_def)
  next
    case False
    define q where "q = v div m"
    define r where "r = v mod m"
    have 1: "v = q * m + r" by (simp add: q_def r_def)
    have 2: "r < m" using m by (simp add: r_def)
    have "(q + 1) * m = q * m + r + (m - r)"
      using 2 by (simp add: algebra_simps)
    then have "(q + 1) * m = v + (m - r)" by (simp only: 1)
    then have "(v div m + 1) * m = v + (m - v mod m)" by (simp only: q_def r_def)
    then show ?thesis using False by (simp add: spec_ceil_div_def spec_align_up_def)
  qed
  finally show ?thesis .
qed

lemma size_t_id: "n < 2 ^ 64 \<Longrightarrow> size_t n = n"
  by (simp add: size_t_def)

lemma size_t_mult_left: "size_t (size_t a * b) = size_t (a * b)"
  by (simp add: size_t_def mod_mult_left_eq)

lemma DivideCeil_size_t_eq:
  assumes "1 \<le> b" and "a + b \<le> 2 ^ 64"
  shows "DivideCeil_size_t a b = DivideCeil a b"
proof -
  have "a + b + (2 ^ 64 - 1) = (a + b - 1) + 2 ^ 64" using assms(1) by simp
  then have "size_t (a + b + (2 ^ 64 - 1)) = (a + b - 1) mod 2 ^ 64"
    by (simp only: size_t_def mod_add_self2)
  also have "\<dots> = a + b - 1" using assms by simp
  finally show ?thesis by (simp only: DivideCeil_size_t_def DivideCeil_def)
qed

lemma AlignUp_size_t_eq:
  assumes "1 \<le> m" and "v + m \<le> 2 ^ 64"
  shows "AlignUp_size_t v m = AlignUp v m"
proof -
  have "v + m + (2 ^ 64 - 1) = (v + m - 1) + 2 ^ 64" using assms(1) by simp
  then have "size_t (v + m + (2 ^ 64 - 1)) = (v + m - 1) mod 2 ^ 64"
    by (simp only: size_t_def mod_add_self2)
  also have "\<dots> = v + m - 1" using assms by simp
  finally have s: "size_t (v + m + (2 ^ 64 - 1)) = v + m - 1" .
  have "(v + m - 1) div m * m \<le> v + m - 1" by simp
  then have "(v + m - 1) div m * m < 2 ^ 64" using assms by linarith
  then show ?thesis by (simp only: AlignUp_size_t_def AlignUp_def s size_t_id)
qed

lemma DivideCeil_le: "1 \<le> b \<Longrightarrow> DivideCeil a b \<le> a"
proof (cases "a = 0")
  case True
  assume "1 \<le> b"
  then have "(b - 1) div b = 0" by simp
  then show ?thesis using True by (simp add: DivideCeil_def)
next
  case False
  assume b: "1 \<le> b"
  obtain a' where a: "a = Suc a'" using False by (cases a) auto
  obtain b' where b': "b = Suc b'" using b by (cases b) auto
  have "a + b - 1 \<le> a * b" by (simp add: a b')
  then have "(a + b - 1) div b \<le> (a * b) div b" by (rule div_le_mono)
  then show ?thesis using b by (simp add: DivideCeil_def)
qed

lemma square_bound:
  assumes "a < 2 ^ 32" and "b < (2::nat) ^ 32"
  shows "a * b + 64 \<le> 2 ^ 64"
proof -
  have "a * b \<le> (2 ^ 32 - 1) * (2 ^ 32 - 1)"
    using assms by (intro mult_le_mono) simp_all
  then show ?thesis by simp
qed

lemma GetBlockLinearLayerSize_nat:
  assumes fmt: "1 \<le> fmtBw" "1 \<le> fmtBh" and gob: "1 \<le> gbh" "1 \<le> gbd"
    and dims: "width dims < 2 ^ 32" "height dims < 2 ^ 32" "depth dims < 2 ^ 32"
    and par: "fmtBw < 2 ^ 32" "fmtBh < 2 ^ 32" "bpb < 2 ^ 32" "gbh < 2 ^ 32" "gbd < 2 ^ 32"
  shows "GetBlockLinearLayerSize dims fmtBw fmtBh bpb gbh gbd =
           size_t (AlignUp (DivideCeil (width dims) fmtBw * bpb) GobWidth * (GobHeight * gbh)
                     * DivideCeil (DivideCeil (height dims) fmtBh) (GobHeight * gbh)
                     * AlignUp (depth dims) gbd)"
proof -
  have w: "DivideCeil_size_t (width dims) fmtBw = DivideCeil (width dims) fmtBw"
    using fmt(1) dims(1) par(1) by (intro DivideCeil_size_t_eq) simp_all
  have h: "DivideCeil_size_t (height dims) fmtBh = DivideCeil (height dims) fmtBh"
    using fmt(2) dims(2) par(2) by (intro DivideCeil_size_t_eq) simp_all
  have wle: "DivideCeil (width dims) fmtBw < 2 ^ 32"
    using DivideCeil_le [OF fmt(1), of "width dims"] dims(1) by simp
  have hle: "DivideCeil (height dims) fmtBh < 2 ^ 32"
    using DivideCeil_le [OF fmt(2), of "height dims"] dims(2) by simp
  have wb: "DivideCeil (width dims) fmtBw * bpb + 64 \<le> 2 ^ 64"
    by (rule square_bound [OF wle par(3)])
  have wb': "size_t (DivideCeil (width dims) fmtBw * bpb) = DivideCeil (width dims) fmtBw * bpb"
    using wb by (intro size_t_id) simp
  have rb: "AlignUp_size_t (DivideCeil (width dims) fmtBw * bpb) GobWidth
              = AlignUp (DivideCeil (width dims) fmtBw * bpb) GobWidth"
    using wb by (intro AlignUp_size_t_eq) (simp_all add: GobWidth_def)
  have rh: "size_t (GobHeight * gbh) = GobHeight * gbh"
    using par(4) by (intro size_t_id) (simp add: GobHeight_def)
  have rh1: "1 \<le> GobHeight * gbh" using gob(1) by (simp add: GobHeight_def)
  have hr: "DivideCeil_size_t (DivideCeil (height dims) fmtBh) (GobHeight * gbh)
              = DivideCeil (DivideCeil (height dims) fmtBh) (GobHeight * gbh)"
    using hle par(4) rh1 by (intro DivideCeil_size_t_eq) (simp_all add: GobHeight_def)
  have rd: "AlignUp_size_t (depth dims) gbd = AlignUp (depth dims) gbd"
    using gob(2) dims(3) par(5) by (intro AlignUp_size_t_eq) simp_all
  show ?thesis
    by (simp only: GetBlockLinearLayerSize_def Let_def w h wb' rb rh hr rd size_t_mult_left)
qed

text \<open>
  C3, within the range of \<^verbatim>\<open>size_t\<close>. With surface dimensions and format block dimensions
  of at least 1, any \<open>bpb\<close>, power-of-two GOB block height and depth, all of them below
  \<open>2 ^ 32\<close>, and a size by the formula below \<open>2 ^ 64\<close>, the single-layer
  \<^verbatim>\<open>GetBlockLinearLayerSize\<close> returns \<open>robLineBytes * robHeight * surfaceRobs * robDepth\<close>
  with \<open>robLineBytes = align_up(ceil(w / fmtBw) * bpb, 64)\<close>, \<open>robHeight = 8 * gobBlockHeight\<close>,
  \<open>surfaceRobs = ceil(ceil(h / fmtBh) / robHeight)\<close> and \<open>robDepth = align_up(d, gobBlockDepth)\<close>.
\<close>

theorem C3_layer_size_formula:
  assumes "1 \<le> width dims" and "1 \<le> height dims" and "1 \<le> depth dims"
    and "1 \<le> fmtBw" and "1 \<le> fmtBh"
    and "width dims < 2 ^ 32" and "height dims < 2 ^ 32" and "depth dims < 2 ^ 32"
    and "fmtBw < 2 ^ 32" and "fmtBh < 2 ^ 32" and "bpb < 2 ^ 32" and "i < 32" and "j < 32"
    and "spec_blockLinearLayerSize (width dims) (height dims) (depth dims) fmtBw fmtBh bpb (2 ^ i) (2 ^ j)
           < 2 ^ 64"
  shows "GetBlockLinearLayerSize dims fmtBw fmtBh bpb (2 ^ i) (2 ^ j) =
         spec_blockLinearLayerSize (width dims) (height dims) (depth dims) fmtBw fmtBh bpb (2 ^ i) (2 ^ j)"
proof -
  have g: "1 \<le> (2::nat) ^ i" "1 \<le> (2::nat) ^ j" by simp_all
  have g': "(2::nat) ^ i < 2 ^ 32" "(2::nat) ^ j < 2 ^ 32"
    using assms(12,13) by (simp_all only: power_strict_increasing_iff one_less_numeral_iff semiring_norm)
  have e: "AlignUp (DivideCeil (width dims) fmtBw * bpb) GobWidth * (GobHeight * 2 ^ i)
             * DivideCeil (DivideCeil (height dims) fmtBh) (GobHeight * 2 ^ i)
             * AlignUp (depth dims) (2 ^ j)
         = spec_blockLinearLayerSize (width dims) (height dims) (depth dims) fmtBw fmtBh bpb (2 ^ i) (2 ^ j)"
    using assms(4,5)
    by (simp add: spec_blockLinearLayerSize_def Let_def GobWidth_def GobHeight_def
        DivideCeil_spec AlignUp_spec)
  show ?thesis
    by (simp only: GetBlockLinearLayerSize_nat [OF assms(4,5) g assms(6,7,8,9,10,11) g'] e
        size_t_id [OF assms(14)])
qed

theorem C3_layer_size_formula_witness:
  "GetBlockLinearLayerSize \<lparr>width = 128, height = 16, depth = 1\<rparr> 1 1 4 (2 ^ 1) (2 ^ 0) =
     spec_blockLinearLayerSize 128 16 1 1 1 4 (2 ^ 1) (2 ^ 0)
   \<and> spec_blockLinearLayerSize 128 16 1 1 1 4 (2 ^ 1) (2 ^ 0) = 8192"
proof -
  have v: "spec_blockLinearLayerSize 128 16 1 1 1 4 (2 ^ 1) (2 ^ 0) = 8192"
    by (simp add: spec_blockLinearLayerSize_def spec_ceil_div_def spec_align_up_def)
  show ?thesis
    using C3_layer_size_formula [of "\<lparr>width = 128, height = 16, depth = 1\<rparr>" 1 1 4 1 0] v
    by simp
qed

text \<open>
  Without the bound the products wrap: for a surface of \<open>0xFFFFFFFF\<close> by \<open>0xFFFFFFFF\<close>
  texels of 16 bytes and a GOB block height of 32 the formula gives \<open>2 ^ 68\<close> and the code
  returns 0.
\<close>

theorem C3_layer_size_wraps:
  "GetBlockLinearLayerSize \<lparr>width = 0xFFFFFFFF, height = 0xFFFFFFFF, depth = 1\<rparr> 1 1 16 32 1 = 0
   \<and> spec_blockLinearLayerSize 0xFFFFFFFF 0xFFFFFFFF 1 1 1 16 32 1 = 2 ^ 68"
  by (simp add: GetBlockLinearLayerSize_def DivideCeil_size_t_def AlignUp_size_t_def size_t_def
      spec_blockLinearLayerSize_def spec_ceil_div_def spec_align_up_def GobWidth_def GobHeight_def)









section \<open>Properties of the swizzle copier\<close>

lemma and_pow2_minus_1: "(x::nat) AND (2 ^ n - 1) = x mod 2 ^ n"
proof -
  have "x AND mask n = take_bit n x" by (simp add: take_bit_eq_mask)
  also have "\<dots> = x mod 2 ^ n" by (simp add: take_bit_eq_mod)
  finally show ?thesis by (simp only: mask_eq_exp_minus_1)
qed

lemma and_63: "(x::nat) AND 0x3F = x mod 64"
  using and_pow2_minus_1 [of x 6] by simp

lemma and_31: "(x::nat) AND 0x1F = x mod 32"
  using and_pow2_minus_1 [of x 5] by simp

lemma and_15: "(x::nat) AND 0xF = x mod 16"
  using and_pow2_minus_1 [of x 4] by simp

lemma and_7: "(x::nat) AND 0x07 = x mod 8"
  using and_pow2_minus_1 [of x 3] by simp

lemma and_1: "(x::nat) AND 0x01 = x mod 2"
  using and_pow2_minus_1 [of x 1] by simp

lemma GobXOffset_arith:
  "GobXOffset xb = ((xb mod 64) div 32) * 256 + xb mod 16 + ((xb mod 32) div 16) * 32"
  by (simp add: GobXOffset_def and_63 and_31 and_15 drop_bit_eq_div push_bit_eq_mult)

lemma GobYOffset_arith:
  "GobYOffset (2 ^ i * GobHeight) line =
     ((line mod (2 ^ i * 8)) div 8) * 512 + ((line mod 8) div 2) * 64 + (line mod 2) * 16"
proof -
  have "2 ^ i * (8::nat) = 2 ^ (i + 3)" by (simp add: power_add)
  then have "line AND (2 ^ i * 8 - 1) = line mod (2 ^ i * 8)"
    using and_pow2_minus_1 [of line "i + 3"] by simp
  then show ?thesis
    by (simp add: GobYOffset_def Let_def GobHeight_def GobWidth_def and_7 and_1
        drop_bit_eq_div push_bit_eq_mult)
qed


lemma fold_upt_Suc: "fold f [0..<Suc n] s = f n (fold f [0..<n] s)"
  by simp

lemma copyPixelSubrect_fold:
  "fold (copyPixelSubrect b2p b bs x0 sw) [0..<n] (de, mem) = (de + n * b, moveRow b2p n b bs sw x0 de mem)"
proof (induction n)
  case 0
  show ?case by (simp add: moveRow_def)
next
  case (Suc n)
  show ?case
    by (simp only: fold_upt_Suc Suc.IH moveRow_def)
       (simp add: copyPixelSubrect_def Let_def add.commute)
qed

lemma copyPixel_eq: "copyPixel b2p b bs sw = copyPixelSubrect b2p b bs 0 sw"
  by (rule ext) (simp add: copyPixel_def copyPixelSubrect_def)

lemma copyLineSubrect_eq:
  "copyLineSubrect b2p w b wa rh ad bs pb x0 y0 bl line (po, mem) =
    (po + pb, moveRow b2p w b bs (bl + wa * AlignDown (y0 + line) rh * ad + GobYOffset rh (y0 + line)) x0 po mem)"
  by (simp add: copyLineSubrect_def Let_def copyPixelSubrect_fold)

lemma copyLine_eq: "copyLine b2p w b wa rh ad bs pb bl = copyLineSubrect b2p w b wa rh ad bs pb 0 0 bl"
  by (rule ext) (simp add: copyLine_def copyLineSubrect_def copyPixel_eq)

lemma copyLineSubrect_fold:
  "fold (copyLineSubrect b2p w b wa rh ad bs pb x0 y0 bl) [0..<n] (po, mem) =
    (po + n * pb,
     fold (\<lambda>line. moveRow b2p w b bs (bl + wa * AlignDown (y0 + line) rh * ad + GobYOffset rh (y0 + line)) x0
                    (po + line * pb)) [0..<n] mem)"
proof (induction n)
  case 0
  show ?case by simp
next
  case (Suc n)
  show ?case
    by (simp only: fold_upt_Suc Suc.IH copyLineSubrect_eq) (simp add: add.commute)
qed

lemma copySliceSubrect_eq:
  "copySliceSubrect b2p w h b wa rh ad bs pb x0 y0 gbh z (bl, po, mem) =
    (bl + GobHeight * GobWidth * gbh, po + h * pb,
     fold (\<lambda>line. moveRow b2p w b bs (bl + wa * AlignDown (y0 + line) rh * ad + GobYOffset rh (y0 + line)) x0
                    (po + line * pb)) [0..<h] mem)"
  by (simp add: copySliceSubrect_def copyLineSubrect_fold)

lemma copySlice_eq: "copySlice b2p w h b wa rh ad bs pb gbh = copySliceSubrect b2p w h b wa rh ad bs pb 0 0 gbh"
  by (intro ext) (simp add: copySlice_def copySliceSubrect_def copyLine_eq)

lemma copySliceSubrect_fold:
  "fold (copySliceSubrect b2p w h b wa rh ad bs pb x0 y0 gbh) [0..<n] (0, 0, mem) =
    (n * (GobHeight * GobWidth * gbh), n * (h * pb), moveRows b2p n w h b wa rh ad bs pb x0 y0 gbh mem)"
proof (induction n)
  case 0
  show ?case by (simp add: moveRows_def)
next
  case (Suc n)
  have "fold (\<lambda>line. moveRow b2p w b bs
                (n * (GobHeight * GobWidth * gbh) + wa * AlignDown (y0 + line) rh * ad + GobYOffset rh (y0 + line))
                x0 (n * (h * pb) + line * pb)) [0..<h]
      = fold (\<lambda>line. moveRow b2p w b bs
                (n * (GobHeight * GobWidth * gbh) + wa * AlignDown (y0 + line) rh * ad + GobYOffset rh (y0 + line))
                x0 ((n * h + line) * pb)) [0..<h]"
    by (simp add: algebra_simps)
  then show ?case
    by (simp only: fold_upt_Suc Suc.IH copySliceSubrect_eq moveRows_def) (simp add: algebra_simps)
qed

lemma copyTextureSubrect_moveRows:
  "copyTextureSubrect b2p d w h b wa rh ad bs pb x0 y0 gbh mem = moveRows b2p d w h b wa rh ad bs pb x0 y0 gbh mem"
  by (simp add: copyTextureSubrect_def copySliceSubrect_fold)

lemma copyTexture_moveRows:
  "copyTexture b2p d w h b wa rh ad bs pb gbh mem = moveRows b2p d w h b wa rh ad bs pb 0 0 gbh mem"
  by (simp add: copyTexture_def copySlice_eq copySliceSubrect_fold)



lemma div_mod_digit: "0 < n \<Longrightarrow> (x mod (n * q)) div n = (x div n) mod (q::nat)"
proof -
  assume n: "0 < n"
  have "x mod (n * q) = n * (x div n mod q) + x mod n" by (rule mod_mult2_eq)
  moreover have "x mod n < n" using n by simp
  ultimately show ?thesis using n by simp
qed

lemma d1: "((xb::nat) mod 64) div 32 = (xb div 16) div 2 mod 2"
proof -
  have "xb div 16 div 2 = xb div (16 * 2)" by (rule div_mult2_eq [symmetric])
  then show ?thesis using div_mod_digit [of 32 xb 2] by simp
qed

lemma d2: "((xb::nat) mod 32) div 16 = (xb div 16) mod 2"
  using div_mod_digit [of 16 xb 2] by simp

lemma small_sum:
  assumes "b = 1 \<or> b = 2 \<or> b = 4 \<or> b = 8 \<or> b = (16::nat)" and "b dvd xb" and "k < b"
  shows "xb mod 16 + k < 16"
proof -
  from assms(1) have b16: "b dvd 16" by auto
  then have "b dvd xb mod 16" using assms(2) by (simp add: dvd_mod)
  then obtain q where q: "xb mod 16 = b * q" by auto
  from b16 obtain c where c: "16 = b * c" by (elim dvdE)
  have "b * q < b * c" using q c by (metis mod_less_divisor zero_less_numeral)
  then have "q < c" by simp
  then have "q + 1 \<le> c" by simp
  then have "b * (q + 1) \<le> b * c" by (rule mult_le_mono2)
  then have "b * q + b \<le> 16" using c by simp
  then show ?thesis using q assms(3) by simp
qed

lemma sector_div: "r < 16 \<Longrightarrow> (16 * q + r) div 16 = (q::nat)" by simp
lemma sector_mod: "r < 16 \<Longrightarrow> (16 * q + r) mod 16 = (r::nat)" by simp

lemma aligned_sector_raw:
  assumes "b = 1 \<or> b = 2 \<or> b = 4 \<or> b = 8 \<or> b = (16::nat)" and "b dvd xb" and "k < b"
  shows "(xb + k) div 16 = xb div 16 \<and> (xb + k) mod 16 = xb mod 16 + k"
proof -
  have lt: "xb mod 16 + k < 16" by (rule small_sum [OF assms])
  have eq: "xb + k = 16 * (xb div 16) + (xb mod 16 + k)" by simp
  show ?thesis
    using sector_div [OF lt, of "xb div 16"] sector_mod [OF lt, of "xb div 16"]
    by (simp only: eq [symmetric])
qed


lemma GobXOffset_sector:
  "GobXOffset xb = ((xb div 16) div 2 mod 2) * 256 + ((xb div 16) mod 2) * 32 + xb mod 16"
  by (simp add: GobXOffset_arith d1 d2)

lemma GobXOffset_aligned:
  assumes "pow2_bpb b" and "b dvd xb" and "k < b"
  shows "GobXOffset (xb + k) = GobXOffset xb + k" and "(xb + k) div GobWidth = xb div GobWidth"
proof -
  have s: "(xb + k) div 16 = xb div 16" "(xb + k) mod 16 = xb mod 16 + k"
    using aligned_sector_raw [OF assms(1) [unfolded pow2_bpb_def] assms(2,3)] by simp_all
  show "GobXOffset (xb + k) = GobXOffset xb + k"
    by (simp add: GobXOffset_sector s)
  have "(xb + k) div 64 = ((xb + k) div 16) div 4" "xb div 64 = (xb div 16) div 4"
    by (simp_all add: div_mult2_eq)
  then show "(xb + k) div GobWidth = xb div GobWidth"
    by (simp add: GobWidth_def s)
qed

lemma copyElement_Suc:
  "copyElement (Suc n) src s dst d = copyElement 1 src (s + n) (copyElement n src s dst d) (d + n)"
proof (rule ext)
  fix a
  show "copyElement (Suc n) src s dst d a = copyElement 1 src (s + n) (copyElement n src s dst d) (d + n) a"
    by (cases "a = d + n") (auto simp: copyElement_def)
qed

lemma moveElement_Suc:
  "moveElement b2p (Suc n) s d mem = moveElement b2p 1 (s + n) (d + n) (moveElement b2p n s d mem)"
  by (cases mem; cases b2p) (simp_all only: moveElement_def prod.case if_True if_False copyElement_Suc)

lemma copyElement_0: "copyElement 0 src s dst d = dst"
  by (rule ext) (auto simp: copyElement_def)

lemma moveElement_0: "moveElement b2p 0 s d mem = mem"
  by (cases mem; cases b2p) (simp_all add: moveElement_def copyElement_0)

lemma moveElement_bytes:
  "moveElement b2p n s d mem = fold (\<lambda>k. moveElement b2p 1 (s + k) (d + k)) [0..<n] mem"
proof (induction n)
  case 0
  show ?case by (simp add: moveElement_0)
next
  case (Suc n)
  show ?case
    by (simp only: fold_upt_Suc Suc.IH [symmetric] moveElement_Suc)
qed

lemma fold_upt_add:
  "fold f [0..<m + n] s = fold (\<lambda>k. f (m + k)) [0..<n] (fold f [0..<m] s)"
proof (induction n)
  case 0
  show ?case by simp
next
  case (Suc n)
  have "fold f [0..<m + Suc n] s = f (m + n) (fold f [0..<m + n] s)"
    by (simp only: add_Suc_right fold_upt_Suc)
  then show ?case by (simp only: Suc.IH fold_upt_Suc)
qed

lemma sizeof_FORMATBPB_pow2: "pow2_bpb b \<Longrightarrow> sizeof_FORMATBPB b = b"
  by (auto simp: sizeof_FORMATBPB_def pow2_bpb_def)

lemma sizeof_FORMATBPB_1: "sizeof_FORMATBPB 1 = 1"
  by (simp add: sizeof_FORMATBPB_def)

lemma moveRow_Suc:
  "moveRow b2p (Suc w) b bs sw x0 de mem =
     moveElement b2p (sizeof_FORMATBPB b)
       (sw + ((x0 + w * b) div GobWidth) * bs + GobXOffset (x0 + w * b)) (de + w * b)
       (moveRow b2p w b bs sw x0 de mem)"
  by (simp add: moveRow_def)

lemma moveRow_bytes:
  assumes "pow2_bpb b" and "b dvd x0"
  shows "moveRow b2p w b bs sw x0 de mem = moveRow b2p (w * b) 1 bs sw x0 de mem"
proof (induction w)
  case 0
  show ?case by (simp add: moveRow_def)
next
  case (Suc w)
  let ?F = "\<lambda>pixel. moveElement b2p 1
               (sw + ((x0 + pixel * 1) div GobWidth) * bs + GobXOffset (x0 + pixel * 1)) (de + pixel * 1)"
  let ?m = "moveRow b2p (w * b) 1 bs sw x0 de mem"
  have al: "b dvd x0 + w * b" using assms(2) by simp
  have step: "\<And>k. k < b \<Longrightarrow>
      moveElement b2p 1 (sw + ((x0 + w * b) div GobWidth) * bs + GobXOffset (x0 + w * b) + k) (de + w * b + k)
        = ?F (w * b + k)"
  proof -
    fix k assume k: "k < b"
    have e: "x0 + (w * b + k) * 1 = (x0 + w * b) + k" "de + (w * b + k) * 1 = de + w * b + k" by simp_all
    note a = GobXOffset_aligned [OF assms(1) al k]
    show "moveElement b2p 1 (sw + ((x0 + w * b) div GobWidth) * bs + GobXOffset (x0 + w * b) + k) (de + w * b + k)
        = ?F (w * b + k)"
      unfolding e a by (simp only: add.assoc)
  qed
  have idx: "Suc w * b = w * b + b" by simp
  have "moveRow b2p (Suc w) b bs sw x0 de mem
      = moveElement b2p b (sw + ((x0 + w * b) div GobWidth) * bs + GobXOffset (x0 + w * b)) (de + w * b) ?m"
    by (simp only: moveRow_Suc Suc.IH sizeof_FORMATBPB_pow2 [OF assms(1)])
  also have "\<dots>
      = fold (\<lambda>k. moveElement b2p 1
               (sw + ((x0 + w * b) div GobWidth) * bs + GobXOffset (x0 + w * b) + k) (de + w * b + k)) [0..<b] ?m"
    by (rule moveElement_bytes)
  also have "\<dots> = fold (\<lambda>k. ?F (w * b + k)) [0..<b] ?m"
    by (rule fold_cong [OF refl refl]) (simp only: step atLeastLessThan_iff set_upt)
  also have "\<dots> = fold ?F [0..<w * b + b] mem"
    by (simp only: fold_upt_add moveRow_def sizeof_FORMATBPB_1)
  also have "\<dots> = moveRow b2p (Suc w * b) 1 bs sw x0 de mem"
    by (simp only: moveRow_def idx sizeof_FORMATBPB_1)
  finally show ?case .
qed


subsection \<open>Coalescing\<close>

lemma coalesce_16: "coalesce wb w 16 = Some (w, 16)"
  by (subst coalesce.simps) simp

lemma coalesce_step:
  "b \<noteq> 16 \<Longrightarrow>
   coalesce wb w b = (if 2 * b dvd wb then coalesce wb (w div 2) (2 * b) else Some (w, b))"
  by (subst coalesce.simps) (simp add: IsAligned_def push_bit_eq_mult mult.commute)

lemma half_width: "0 < b \<Longrightarrow> 2 * b dvd w * b \<Longrightarrow> (w div 2) * (2 * b) = w * (b::nat)"
proof -
  assume b: "0 < b" and d: "2 * b dvd w * b"
  then obtain k where k: "w * b = 2 * b * k" by (elim dvdE)
  then have "b * w = b * (2 * k)" by (simp add: mult_ac)
  then have "w = 2 * k" using b by simp
  then show ?thesis by simp
qed

lemma coalesce_double:
  assumes b: "0 < b" "b \<noteq> 16"
    and IH: "\<And>w. \<exists>w' b'. coalesce (w * (2 * b)) w (2 * b) = Some (w', b') \<and> pow2_bpb b' \<and> w' * b' = w * (2 * b)"
    and pb: "pow2_bpb b"
  shows "\<exists>w' b'. coalesce (w * b) w b = Some (w', b') \<and> pow2_bpb b' \<and> w' * b' = w * b"
proof (cases "2 * b dvd w * b")
  case True
  have h: "(w div 2) * (2 * b) = w * b" by (rule half_width [OF b(1) True])
  from IH [of "w div 2"] obtain w' b' where
    "coalesce (w * b) (w div 2) (2 * b) = Some (w', b')" "pow2_bpb b'" "w' * b' = w * b"
    unfolding h by blast
  then show ?thesis using True by (simp add: coalesce_step [OF b(2)])
next
  case False
  then show ?thesis using pb by (simp add: coalesce_step [OF b(2)])
qed

lemma coalesce_pow2:
  assumes "pow2_bpb b"
  shows "\<exists>w' b'. coalesce (w * b) w b = Some (w', b') \<and> pow2_bpb b' \<and> w' * b' = w * b"
proof -
  have p16: "\<And>w. \<exists>w' b'. coalesce (w * 16) w 16 = Some (w', b') \<and> pow2_bpb b' \<and> w' * b' = w * 16"
    by (simp add: coalesce_16 pow2_bpb_def)
  have p8: "\<And>w. \<exists>w' b'. coalesce (w * 8) w 8 = Some (w', b') \<and> pow2_bpb b' \<and> w' * b' = w * 8"
    using coalesce_double [of 8] p16 by (simp add: pow2_bpb_def)
  have p4: "\<And>w. \<exists>w' b'. coalesce (w * 4) w 4 = Some (w', b') \<and> pow2_bpb b' \<and> w' * b' = w * 4"
    using coalesce_double [of 4] p8 by (simp add: pow2_bpb_def)
  have p2: "\<And>w. \<exists>w' b'. coalesce (w * 2) w 2 = Some (w', b') \<and> pow2_bpb b' \<and> w' * b' = w * 2"
    using coalesce_double [of 2] p4 by (simp add: pow2_bpb_def)
  have p1: "\<And>w. \<exists>w' b'. coalesce (w * 1) w 1 = Some (w', b') \<and> pow2_bpb b' \<and> w' * b' = w * 1"
    using coalesce_double [of 1] p2 by (simp add: pow2_bpb_def)
  from assms consider "b = 1" | "b = 2" | "b = 4" | "b = 8" | "b = 16"
    unfolding pow2_bpb_def by blast
  then show ?thesis
  proof cases
    case 1 then show ?thesis using p1 [of w] by simp
  next
    case 2 then show ?thesis using p2 [of w] by simp
  next
    case 3 then show ?thesis using p4 [of w] by simp
  next
    case 4 then show ?thesis using p8 [of w] by simp
  next
    case 5 then show ?thesis using p16 [of w] by simp
  qed
qed


lemma coalesce_v1_16: "coalesce_v1 w 16 = Some (w, 16)"
  by (subst coalesce_v1.simps) simp

lemma coalesce_v1_step:
  "b \<noteq> 16 \<Longrightarrow>
   coalesce_v1 w b = (if 2 * b dvd w then coalesce_v1 (w div 2) (2 * b) else Some (w, b))"
  by (subst coalesce_v1.simps) (simp add: IsAligned_def push_bit_eq_mult mult.commute)

lemma coalesce_v1_double:
  assumes b: "b \<noteq> 16"
    and IH: "\<And>w. \<exists>w' b'. coalesce_v1 w (2 * b) = Some (w', b') \<and> pow2_bpb b' \<and> w' * b' = w * (2 * b)"
    and pb: "pow2_bpb b"
  shows "\<exists>w' b'. coalesce_v1 w b = Some (w', b') \<and> pow2_bpb b' \<and> w' * b' = w * b"
proof (cases "2 * b dvd w")
  case True
  then obtain k where k: "w = 2 * b * k" by (elim dvdE)
  then have h: "(w div 2) * (2 * b) = w * b" by simp
  from IH [of "w div 2"] obtain w' b' where
    "coalesce_v1 (w div 2) (2 * b) = Some (w', b')" "pow2_bpb b'" "w' * b' = w * b"
    unfolding h by blast
  then show ?thesis using True by (simp add: coalesce_v1_step [OF b])
next
  case False
  then show ?thesis using pb by (simp add: coalesce_v1_step [OF b])
qed

lemma coalesce_v1_pow2:
  assumes "pow2_bpb b"
  shows "\<exists>w' b'. coalesce_v1 w b = Some (w', b') \<and> pow2_bpb b' \<and> w' * b' = w * b"
proof -
  have p16: "\<And>w. \<exists>w' b'. coalesce_v1 w 16 = Some (w', b') \<and> pow2_bpb b' \<and> w' * b' = w * 16"
    by (simp add: coalesce_v1_16 pow2_bpb_def)
  have p8: "\<And>w. \<exists>w' b'. coalesce_v1 w 8 = Some (w', b') \<and> pow2_bpb b' \<and> w' * b' = w * 8"
    using coalesce_v1_double [of 8] p16 by (simp add: pow2_bpb_def)
  have p4: "\<And>w. \<exists>w' b'. coalesce_v1 w 4 = Some (w', b') \<and> pow2_bpb b' \<and> w' * b' = w * 4"
    using coalesce_v1_double [of 4] p8 by (simp add: pow2_bpb_def)
  have p2: "\<And>w. \<exists>w' b'. coalesce_v1 w 2 = Some (w', b') \<and> pow2_bpb b' \<and> w' * b' = w * 2"
    using coalesce_v1_double [of 2] p4 by (simp add: pow2_bpb_def)
  have p1: "\<And>w. \<exists>w' b'. coalesce_v1 w 1 = Some (w', b') \<and> pow2_bpb b' \<and> w' * b' = w * 1"
    using coalesce_v1_double [of 1] p2 by (simp add: pow2_bpb_def)
  from assms consider "b = 1" | "b = 2" | "b = 4" | "b = 8" | "b = 16"
    unfolding pow2_bpb_def by blast
  then show ?thesis
  proof cases
    case 1 then show ?thesis using p1 [of w] by simp
  next
    case 2 then show ?thesis using p2 [of w] by simp
  next
    case 3 then show ?thesis using p4 [of w] by simp
  next
    case 4 then show ?thesis using p8 [of w] by simp
  next
    case 5 then show ?thesis using p16 [of w] by simp
  qed
qed

lemma moveRow_bytes_fun:
  assumes "pow2_bpb b" and "b dvd x0"
  shows "moveRow b2p w b bs sw x0 de = moveRow b2p (w * b) 1 bs sw x0 de"
  by (rule ext) (rule moveRow_bytes [OF assms])

lemma moveRows_bytes:
  assumes "pow2_bpb b" and "b dvd x0"
  shows "moveRows b2p d w h b wa rh ad bs pb x0 y0 gbh mem
       = moveRows b2p d (w * b) h 1 wa rh ad bs pb x0 y0 gbh mem"
  by (simp only: moveRows_def moveRow_bytes_fun [OF assms])

lemma copyBlockLinearCoalesced_switch:
  "b = 1 \<or> b = 2 \<or> b = 4 \<or> b = 8 \<or> b = 12 \<or> b = 16 \<Longrightarrow>
   copyBlockLinearCoalesced b2p dims fbh pa gbh gbd wb wa w b mem =
     moveRows b2p (depth dims) w (DivideCeil (height dims) fbh) b wa (gbh * GobHeight)
       (AlignUp (depth dims) gbd) (gbh * GobHeight * GobWidth * AlignUp (depth dims) gbd)
       (if pa \<noteq> 0 then pa else wb) 0 0 gbh mem"
  by (simp only: copyBlockLinearCoalesced_def Let_def copyTexture_moveRows if_True)

lemma copyBlockLinearCoalesced_bytes:
  assumes "pow2_bpb b"
  shows "copyBlockLinearCoalesced b2p dims fbh pa gbh gbd wb wa w b mem =
     moveRows b2p (depth dims) (w * b) (DivideCeil (height dims) fbh) 1 wa (gbh * GobHeight)
       (AlignUp (depth dims) gbd) (gbh * GobHeight * GobWidth * AlignUp (depth dims) gbd)
       (if pa \<noteq> 0 then pa else wb) 0 0 gbh mem"
proof -
  have sw: "b = 1 \<or> b = 2 \<or> b = 4 \<or> b = 8 \<or> b = 12 \<or> b = 16"
    using assms unfolding pow2_bpb_def by blast
  have z: "b dvd 0" by simp
  show ?thesis
    by (simp only: copyBlockLinearCoalesced_switch [OF sw] moveRows_bytes [OF assms z])
qed

lemma copyBlockLinearCoalesced_same:
  assumes "pow2_bpb b" and "pow2_bpb b'" and "w' * b' = w * b"
  shows "copyBlockLinearCoalesced b2p dims fbh pa gbh gbd wb wa w' b' mem =
         copyBlockLinearCoalesced b2p dims fbh pa gbh gbd wb wa w b mem"
  by (simp only: copyBlockLinearCoalesced_bytes [OF assms(1)] copyBlockLinearCoalesced_bytes [OF assms(2)] assms(3))

lemma CopyBlockLinearInternal_reference:
  assumes "pow2_bpb b"
  shows "CopyBlockLinearInternal b2p dims fbw fbh b pa gbh gbd mem =
           Some (CopyBlockLinearReference b2p dims fbw fbh b pa gbh gbd mem)"
proof -
  let ?w = "DivideCeil (width dims) fbw"
  from coalesce_pow2 [OF assms, of ?w] obtain w' b' where
    c: "coalesce (?w * b) ?w b = Some (w', b')" and p: "pow2_bpb b'" and e: "w' * b' = ?w * b"
    by blast
  have ne: "b \<noteq> 12" using assms unfolding pow2_bpb_def by auto
  show ?thesis
    unfolding CopyBlockLinearInternal_def CopyBlockLinearReference_def Let_def
    by (simp add: ne c copyBlockLinearCoalesced_same [OF assms p e])
qed

lemma CopyBlockLinearInternal_v1_reference:
  assumes "pow2_bpb b"
  shows "CopyBlockLinearInternal_v1 b2p dims fbw fbh b pa gbh gbd mem =
           Some (CopyBlockLinearReference b2p dims fbw fbh b pa gbh gbd mem)"
proof -
  let ?w = "DivideCeil (width dims) fbw"
  from coalesce_v1_pow2 [OF assms, of ?w] obtain w' b' where
    c: "coalesce_v1 ?w b = Some (w', b')" and p: "pow2_bpb b'" and e: "w' * b' = ?w * b"
    by blast
  have ne: "b \<noteq> 12" using assms unfolding pow2_bpb_def by auto
  show ?thesis
    unfolding CopyBlockLinearInternal_v1_def CopyBlockLinearReference_def Let_def
    by (simp add: ne c copyBlockLinearCoalesced_same [OF assms p e])
qed

text \<open>
  C4. For every \<open>bpb\<close> in \<open>{1, 2, 4, 8, 16}\<close> (and every width, height, depth, format
  block size, pitch and GOB block configuration; the width need not be a multiple of 16),
  the full-surface copier with its width-coalescing loop gives, in both directions, the
  buffers of the reference copier that moves \<open>bpb\<close> bytes per element with no
  coalescing. This holds for the coalescing test of \<^verbatim>\<open>layout.cpp\<close> and for that of
  the older copy of the file.
\<close>

theorem C4_coalescing_equivalence:
  assumes "bpb = 1 \<or> bpb = 2 \<or> bpb = 4 \<or> bpb = 8 \<or> bpb = 16"
  shows "CopyBlockLinearInternal blockLinearToPitch dims fmtBw fmtBh bpb pitchAmount gbh gbd mem
           = Some (CopyBlockLinearReference blockLinearToPitch dims fmtBw fmtBh bpb pitchAmount gbh gbd mem)
       \<and> CopyBlockLinearInternal_v1 blockLinearToPitch dims fmtBw fmtBh bpb pitchAmount gbh gbd mem
           = Some (CopyBlockLinearReference blockLinearToPitch dims fmtBw fmtBh bpb pitchAmount gbh gbd mem)"
proof -
  have p: "pow2_bpb bpb" using assms by (simp add: pow2_bpb_def)
  show ?thesis
    using CopyBlockLinearInternal_reference [OF p] CopyBlockLinearInternal_v1_reference [OF p]
    by blast
qed

theorem C4_coalescing_equivalence_witness:
  "CopyBlockLinearInternal False \<lparr>width = 48, height = 8, depth = 1\<rparr> 1 1 4 0 1 1 (\<lambda>a. 0, \<lambda>a. of_nat a)
     = Some (CopyBlockLinearReference False \<lparr>width = 48, height = 8, depth = 1\<rparr> 1 1 4 0 1 1 (\<lambda>a. 0, \<lambda>a. of_nat a))
   \<and> CopyBlockLinearInternal_v1 True \<lparr>width = 48, height = 8, depth = 1\<rparr> 1 1 4 0 1 1 (\<lambda>a. of_nat a, \<lambda>a. 0)
     = Some (CopyBlockLinearReference True \<lparr>width = 48, height = 8, depth = 1\<rparr> 1 1 4 0 1 1 (\<lambda>a. of_nat a, \<lambda>a. 0))"
  using C4_coalescing_equivalence [of 4 False "\<lparr>width = 48, height = 8, depth = 1\<rparr>" 1 1 0 1 1 "(\<lambda>a. 0, \<lambda>a. of_nat a)"]
    C4_coalescing_equivalence [of 4 True "\<lparr>width = 48, height = 8, depth = 1\<rparr>" 1 1 0 1 1 "(\<lambda>a. of_nat a, \<lambda>a. 0)"]
  by simp

subsection \<open>The copier and the address formula of the spec\<close>

lemma or_field: "a < 2 ^ n \<Longrightarrow> push_bit n b OR a = push_bit n b + (a::nat)"
proof -
  assume a: "a < 2 ^ n"
  have "push_bit n b AND a = 0"
  proof (rule bit_eqI)
    fix k
    have "bit a k \<Longrightarrow> k < n"
      using a by (metis bit_iff_odd div_less even_zero leI order_less_le_trans power_increasing_iff numeral_One one_less_numeral_iff semiring_norm(76))
    then show "bit (push_bit n b AND a) k = bit (0::nat) k"
      by (auto simp: bit_simps)
  qed
  then show ?thesis by (simp add: disjunctive_add_eq_or)
qed

lemma spec_intraGobY:
  "push_bit 6 (drop_bit 1 ((y::nat) AND 7)) OR push_bit 4 (y AND 1)
     = ((y mod 8) div 2) * 64 + (y mod 2) * 16"
proof -
  have "y mod 2 < 2" by simp
  then have "(y mod 2) * 16 < 2 ^ 6" by simp
  then have "push_bit 6 ((y mod 8) div 2) OR (y mod 2) * 16 = push_bit 6 ((y mod 8) div 2) + (y mod 2) * 16"
    by (rule or_field)
  then show ?thesis by (simp add: and_7 and_1 drop_bit_eq_div push_bit_eq_mult)
qed

lemma spec_intraGobX:
  "push_bit 8 (drop_bit 5 ((xb::nat) AND 0x3F)) OR push_bit 5 (drop_bit 4 (xb AND 0x1F)) OR (xb AND 0x0F)
     = GobXOffset xb"
proof -
  let ?a = "(xb mod 64) div 32" and ?b = "(xb mod 32) div 16" and ?c = "xb mod 16"
  have c: "?c < 2 ^ 5" by simp
  have "?b < 2" by simp
  then have "?b * 32 + ?c < 2 ^ 8" by simp
  then have 1: "push_bit 8 ?a OR (?b * 32 + ?c) = push_bit 8 ?a + (?b * 32 + ?c)"
    by (rule or_field)
  have 2: "push_bit 5 ?b OR ?c = push_bit 5 ?b + ?c"
    using c by (rule or_field)
  have e: "push_bit 5 ?b + ?c = ?b * 32 + ?c" by (simp add: push_bit_eq_mult)
  have "push_bit 8 ?a OR push_bit 5 ?b OR ?c = push_bit 8 ?a OR (?b * 32 + ?c)"
    by (simp only: 2 e)
  also have "\<dots> = push_bit 8 ?a + (?b * 32 + ?c)"
    by (rule 1)
  finally show ?thesis
    by (simp add: GobXOffset_arith and_63 and_31 and_15 drop_bit_eq_div push_bit_eq_mult)
qed

lemma z_split: "0 < gbd \<Longrightarrow> (z div gbd) * (r * gbd) + (z mod gbd) * r = z * (r::nat)"
proof -
  define q where "q = z div gbd"
  define m where "m = z mod gbd"
  have z: "z = q * gbd + m" by (simp add: q_def m_def)
  have "(q * gbd + m) * r = q * (r * gbd) + m * r" by (simp add: algebra_simps)
  then have "q * (r * gbd) + m * r = z * r" by (simp only: z)
  then show ?thesis by (simp only: q_def m_def)
qed

lemma AlignDown_rob: "0 < m \<Longrightarrow> spec_align_down y m div m = y div m"
proof -
  assume m: "0 < m"
  have "y - y mod m = (y div m) * m" by (simp add: minus_mod_eq_div_mult)
  then show ?thesis using m by (simp add: spec_align_down_def)
qed

lemma offset_eq:
  assumes "0 < gbd"
  shows "z * (GobHeight * GobWidth * 2 ^ i)
           + wa * AlignDown y (2 ^ i * GobHeight) * ad
           + GobYOffset (2 ^ i * GobHeight) y
           + ((x * b) div GobWidth) * (2 ^ i * GobHeight * GobWidth * ad)
           + GobXOffset (x * b)
         = spec_blockLinearOffset b (2 ^ i) gbd wa ad x y z"
proof -
  let ?rh = "8 * (2::nat) ^ i"
  have rh: "0 < ?rh" by simp
  have zs: "(z div gbd) * (?rh * 64 * gbd) + ((z mod gbd) * 2 ^ i + (y mod ?rh) div 8) * 512
      = z * (512 * 2 ^ i) + ((y mod ?rh) div 8) * 512"
    using z_split [OF assms, of z "512 * 2 ^ i"] by (simp add: algebra_simps)
  have rob: "spec_align_down y ?rh div ?rh * (wa * ?rh * ad) = wa * ((y div ?rh) * ?rh) * ad"
    by (simp only: AlignDown_rob [OF rh]) (simp add: algebra_simps)
  have spec: "spec_blockLinearOffset b (2 ^ i) gbd wa ad x y z =
      spec_align_down y ?rh div ?rh * (wa * ?rh * ad) + ((x * b) div 64) * (?rh * 64 * ad)
      + ((z div gbd) * (?rh * 64 * gbd) + ((z mod gbd) * 2 ^ i + (y mod ?rh) div 8) * 512)
      + (((y mod 8) div 2) * 64 + (y mod 2) * 16) + GobXOffset (x * b)"
    by (simp only: spec_blockLinearOffset_def Let_def spec_intraGobY spec_intraGobX)
  have code: "GobYOffset (2 ^ i * GobHeight) y = ((y mod ?rh) div 8) * 512 + ((y mod 8) div 2) * 64 + (y mod 2) * 16"
    by (simp only: GobYOffset_arith mult.commute [of "2 ^ i" 8])
  show ?thesis
    by (simp only: spec zs rob code) (simp add: AlignDown_def GobHeight_def GobWidth_def algebra_simps)
qed


section \<open>End state of the copy\<close>

subsection \<open>A copy as a list of byte moves\<close>

lemma fold_product:
  "fold (\<lambda>(a, b). f a b) (List.product xs ys) = fold (\<lambda>a. fold (f a) ys) xs"
proof (induction xs)
  case Nil
  show ?case by simp
next
  case (Cons x xs)
  have "fold (\<lambda>(a, b). f a b) (map (Pair x) ys) = fold (f x) ys"
    by (simp add: fold_map comp_def)
  then show ?case by (simp add: Cons.IH)
qed

lemma moveRows_moveBytes:
  "moveRows b2p d wb h 1 wa rh ad bs pb x0 y0 gbh mem =
     moveBytes b2p (map (\<lambda>i. (swizzledByte wa rh ad bs gbh x0 y0 i, pitchByte h pb i)) (byteIndices d h wb)) mem"
proof -
  let ?f = "\<lambda>z line xb. moveElement b2p 1 (swizzledByte wa rh ad bs gbh x0 y0 (z, line, xb)) (pitchByte h pb (z, line, xb))"
  have "moveRows b2p d wb h 1 wa rh ad bs pb x0 y0 gbh = fold (\<lambda>z. fold (\<lambda>line. fold (?f z line) [0..<wb]) [0..<h]) [0..<d]"
    by (rule ext)
       (simp add: moveRows_def moveRow_def [abs_def] swizzledByte_def pitchByte_def sizeof_FORMATBPB_def)
  also have "\<dots> = fold (\<lambda>z. fold (\<lambda>(line, xb). ?f z line xb) (List.product [0..<h] [0..<wb])) [0..<d]"
    by (simp only: fold_product)
  also have "\<dots> = fold (\<lambda>(z, line, xb). ?f z line xb) (byteIndices d h wb)"
    by (simp only: byteIndices_def fold_product [where f = "\<lambda>z (line, xb). ?f z line xb"])
  finally show ?thesis
    by (simp add: moveBytes_def fold_map comp_def split_def)
qed

lemma moveRows_byteMoves:
  "moveRows b2p d wb h 1 wa rh ad bs pb x0 y0 gbh mem =
     moveBytes b2p (byteMoves d wb h wa rh ad bs pb x0 y0 gbh) mem"
  by (simp only: moveRows_moveBytes byteMoves_def)

lemma copyElement_1: "copyElement (Suc 0) src s dst d = dst(d := src s)"
  by (rule ext) (auto simp: copyElement_def)

lemma moveBytes_snoc:
  "moveBytes b2p (ms @ [(s, d)]) mem = moveElement b2p (Suc 0) s d (moveBytes b2p ms mem)"
  by (simp add: moveBytes_def)

lemma moveBytes_Nil: "moveBytes b2p [] mem = mem"
  by (simp add: moveBytes_def)

lemma moveElement_to_blockLinear:
  "moveElement False (Suc 0) s d (bl, p) = (bl(s := p d), p)"
  by (simp only: moveElement_def copyElement_1 split_conv if_False)

lemma moveElement_to_pitch:
  "moveElement True (Suc 0) s d (bl, p) = (bl, p(d := bl s))"
  by (simp only: moveElement_def copyElement_1 split_conv if_True)

text \<open>
  Pitch to block-linear: the pitch buffer is not written; a block-linear byte that no move
  targets keeps its value; when no two moves target the same block-linear byte, each
  targeted byte ends with the pitch byte of its move.
\<close>

lemma toBlockLinear_pitch: "snd (moveBytes False ms (bl, p)) = p"
proof (induction ms rule: rev_induct)
  case Nil
  show ?case by (simp add: moveBytes_Nil)
next
  case (snoc m ms)
  obtain s d where m: "m = (s, d)" by (cases m)
  obtain bl' where e: "moveBytes False ms (bl, p) = (bl', p)"
    using snoc.IH by (cases "moveBytes False ms (bl, p)") simp
  show ?case by (simp only: m moveBytes_snoc e moveElement_to_blockLinear snd_conv)
qed

lemma toBlockLinear_miss:
  "a \<notin> fst ` set ms \<Longrightarrow> fst (moveBytes False ms (bl, p)) a = bl a"
proof (induction ms rule: rev_induct)
  case Nil
  show ?case by (simp add: moveBytes_Nil)
next
  case (snoc m ms)
  obtain s d where m: "m = (s, d)" by (cases m)
  obtain bl' where e: "moveBytes False ms (bl, p) = (bl', p)"
    using toBlockLinear_pitch [of ms bl p] by (cases "moveBytes False ms (bl, p)") simp
  have "a \<noteq> s" "a \<notin> fst ` set ms" using snoc.prems m by auto
  then show ?case using snoc.IH e by (simp add: m moveBytes_snoc moveElement_to_blockLinear)
qed

lemma toBlockLinear_hit:
  "distinct (map fst ms) \<Longrightarrow> (s, d) \<in> set ms \<Longrightarrow> fst (moveBytes False ms (bl, p)) s = p d"
proof (induction ms rule: rev_induct)
  case Nil
  then show ?case by simp
next
  case (snoc m ms)
  obtain s' d' where m: "m = (s', d')" by (cases m)
  obtain bl' where e: "moveBytes False ms (bl, p) = (bl', p)"
    using toBlockLinear_pitch [of ms bl p] by (cases "moveBytes False ms (bl, p)") simp
  have dist: "distinct (map fst ms)" "s' \<notin> fst ` set ms" using snoc.prems(1) m by auto
  show ?case
  proof (cases "(s, d) = (s', d')")
    case True
    then show ?thesis by (simp add: m moveBytes_snoc e moveElement_to_blockLinear)
  next
    case False
    then have mem: "(s, d) \<in> set ms" using snoc.prems(2) m by auto
    then have "s \<noteq> s'" using dist(2) by force
    then show ?thesis
      using snoc.IH [OF dist(1) mem] e by (simp add: m moveBytes_snoc moveElement_to_blockLinear)
  qed
qed

text \<open>Block-linear to pitch: each written pitch byte holds the block-linear byte of some move to it.\<close>

lemma toPitch_blockLinear: "fst (moveBytes True ms (bl, p)) = bl"
proof (induction ms rule: rev_induct)
  case Nil
  show ?case by (simp add: moveBytes_Nil)
next
  case (snoc m ms)
  obtain s d where m: "m = (s, d)" by (cases m)
  obtain p' where e: "moveBytes True ms (bl, p) = (bl, p')"
    using snoc.IH by (cases "moveBytes True ms (bl, p)") simp
  show ?case by (simp only: m moveBytes_snoc e moveElement_to_pitch fst_conv)
qed

lemma toPitch_miss:
  "a \<notin> snd ` set ms \<Longrightarrow> snd (moveBytes True ms (bl, p)) a = p a"
proof (induction ms rule: rev_induct)
  case Nil
  show ?case by (simp add: moveBytes_Nil)
next
  case (snoc m ms)
  obtain s d where m: "m = (s, d)" by (cases m)
  obtain p' where e: "moveBytes True ms (bl, p) = (bl, p')"
    using toPitch_blockLinear [of ms bl p] by (cases "moveBytes True ms (bl, p)") simp
  have "a \<noteq> d" "a \<notin> snd ` set ms" using snoc.prems m by auto
  then show ?case using snoc.IH e by (simp add: m moveBytes_snoc moveElement_to_pitch)
qed

lemma toPitch_hit:
  "a \<in> snd ` set ms \<Longrightarrow> \<exists>s. (s, a) \<in> set ms \<and> snd (moveBytes True ms (bl, p)) a = bl s"
proof (induction ms rule: rev_induct)
  case Nil
  then show ?case by simp
next
  case (snoc m ms)
  obtain s d where m: "m = (s, d)" by (cases m)
  obtain p' where e: "moveBytes True ms (bl, p) = (bl, p')"
    using toPitch_blockLinear [of ms bl p] by (cases "moveBytes True ms (bl, p)") simp
  show ?case
  proof (cases "a = d")
    case True
    then show ?thesis by (auto simp: m moveBytes_snoc e moveElement_to_pitch)
  next
    case False
    then have "a \<in> snd ` set ms" using snoc.prems m by auto
    from snoc.IH [OF this] obtain s0 where "(s0, a) \<in> set ms" "snd (moveBytes True ms (bl, p)) a = bl s0"
      by blast
    then show ?thesis using False e by (auto simp: m moveBytes_snoc moveElement_to_pitch)
  qed
qed

lemma toPitch_hit_distinct:
  "distinct (map snd ms) \<Longrightarrow> (s, d) \<in> set ms \<Longrightarrow> snd (moveBytes True ms (bl, p)) d = bl s"
proof (induction ms rule: rev_induct)
  case Nil
  then show ?case by simp
next
  case (snoc m ms)
  obtain s' d' where m: "m = (s', d')" by (cases m)
  obtain p' where e: "moveBytes True ms (bl, p) = (bl, p')"
    using toPitch_blockLinear [of ms bl p] by (cases "moveBytes True ms (bl, p)") simp
  have dist: "distinct (map snd ms)" "d' \<notin> snd ` set ms" using snoc.prems(1) m by auto
  show ?case
  proof (cases "(s, d) = (s', d')")
    case True
    then show ?thesis by (simp add: m moveBytes_snoc e moveElement_to_pitch)
  next
    case False
    then have mem: "(s, d) \<in> set ms" using snoc.prems(2) m by auto
    then have "d \<noteq> d'" using dist(2) by force
    then show ?thesis
      using snoc.IH [OF dist(1) mem] e by (simp add: m moveBytes_snoc moveElement_to_pitch)
  qed
qed

lemma moveBytes_roundTrip:
  assumes "distinct (map fst ms)"
  shows "snd (moveBytes True ms (fst (moveBytes False ms (bl, B)), fresh)) =
           (\<lambda>a. if a \<in> snd ` set ms then B a else fresh a)"
proof (rule ext)
  fix a
  let ?bl = "fst (moveBytes False ms (bl, B))"
  show "snd (moveBytes True ms (?bl, fresh)) a = (if a \<in> snd ` set ms then B a else fresh a)"
  proof (cases "a \<in> snd ` set ms")
    case True
    from toPitch_hit [OF True, where bl = ?bl and p = fresh] obtain s where
      s: "(s, a) \<in> set ms" "snd (moveBytes True ms (?bl, fresh)) a = ?bl s" by blast
    have "?bl s = B a" using toBlockLinear_hit [OF assms s(1)] .
    then show ?thesis using True s(2) by simp
  next
    case False
    then show ?thesis using toPitch_miss [OF False, where bl = ?bl and p = fresh] by simp
  qed
qed

subsection \<open>The swizzled offset is injective\<close>

text \<open>
  The swizzled offset of a byte interleaves the digits of its column \<open>X\<close> and line \<open>Y\<close>
  in a mixed-radix number: \<open>X mod 16\<close>, \<open>Y mod 2\<close>, \<open>X div 16 mod 2\<close>, \<open>Y div 2 mod 4\<close>,
  \<open>X div 32 mod 2\<close>, the GOB row inside the block, the slice, the block column and the
  row of blocks. Two bytes with the same offset therefore have the same digits.
\<close>

lemma digit_unique:
  fixes a a' r q q' :: nat
  assumes "a < r" and "a' < r" and "a + r * q = a' + r * q'"
  shows "a = a' \<and> q = q'"
proof -
  have "(a + r * q) mod r = a" "(a + r * q) div r = q" using assms(1) by simp_all
  moreover have "(a' + r * q') mod r = a'" "(a' + r * q') div r = q'" using assms(2) by simp_all
  ultimately show ?thesis using assms(3) by metis
qed

lemma horner_unique:
  fixes g ad nbx :: nat
  assumes b: "d0 < 16" "e0 < 16" "d1 < 2" "e1 < 2" "d2 < 2" "e2 < 2" "d3 < 4" "e3 < 4"
             "d4 < 2" "e4 < 2" "d5 < g" "e5 < g" "d6 < ad" "e6 < ad" "d7 < nbx" "e7 < nbx"
    and eq: "d0 + 16 * (d1 + 2 * (d2 + 2 * (d3 + 4 * (d4 + 2 * (d5 + g * (d6 + ad * (d7 + nbx * d8)))))))
           = e0 + 16 * (e1 + 2 * (e2 + 2 * (e3 + 4 * (e4 + 2 * (e5 + g * (e6 + ad * (e7 + nbx * (e8::nat))))))))"
  shows "d0 = e0 \<and> d1 = e1 \<and> d2 = e2 \<and> d3 = e3 \<and> d4 = e4 \<and> d5 = e5 \<and> d6 = e6 \<and> d7 = e7 \<and> d8 = e8"
proof -
  note s0 = digit_unique [OF b(1,2) eq]
  note s1 = digit_unique [OF b(3,4) conjunct2 [OF s0]]
  note s2 = digit_unique [OF b(5,6) conjunct2 [OF s1]]
  note s3 = digit_unique [OF b(7,8) conjunct2 [OF s2]]
  note s4 = digit_unique [OF b(9,10) conjunct2 [OF s3]]
  note s5 = digit_unique [OF b(11,12) conjunct2 [OF s4]]
  note s6 = digit_unique [OF b(13,14) conjunct2 [OF s5]]
  note s7 = digit_unique [OF b(15,16) conjunct2 [OF s6]]
  show ?thesis using s0 s1 s2 s3 s4 s5 s6 s7 by blast
qed

lemma x_digits:
  "(X::nat) = X mod 16 + 16 * ((X div 16) mod 2 + 2 * ((X div 32) mod 2 + 2 * (X div 64)))"
proof -
  have a: "X div 32 = (X div 16) div 2" "X div 64 = ((X div 16) div 2) div 2"
    by (simp_all add: div_mult2_eq)
  have "X mod 16 + 16 * ((X div 16) mod 2 + 2 * (((X div 16) div 2) mod 2 + 2 * (((X div 16) div 2) div 2))) = X"
    by (simp only: mod_mult_div_eq)
  then show ?thesis by (simp only: a)
qed

lemma y_digits:
  "(Y::nat) = Y mod 2 + 2 * ((Y div 2) mod 4 + 4 * ((Y div 8) mod g + g * (Y div (g * 8))))"
proof -
  have a: "Y div 8 = (Y div 2) div 4" by (simp add: div_mult2_eq)
  have "Y div (8 * g) = (Y div 8) div g" by (rule div_mult2_eq)
  then have b: "Y div (g * 8) = ((Y div 2) div 4) div g" by (simp only: a mult.commute [of g 8])
  have "Y mod 2 + 2 * ((Y div 2) mod 4 + 4 * (((Y div 2) div 4) mod g + g * (((Y div 2) div 4) div g))) = Y"
    by (simp only: mod_mult_div_eq)
  then show ?thesis by (simp only: a b)
qed

lemma swizzledByte_horner:
  "swizzledByte (64 * nbx) (2 ^ i * GobHeight) ad (2 ^ i * GobHeight * GobWidth * ad) (2 ^ i) x0 y0 (z, line, xb) =
     (x0 + xb) mod 16 + 16 * ((y0 + line) mod 2 + 2 * (((x0 + xb) div 16) mod 2
       + 2 * (((y0 + line) div 2) mod 4 + 4 * (((x0 + xb) div 32) mod 2
       + 2 * (((y0 + line) div 8) mod 2 ^ i + 2 ^ i * (z + ad * ((x0 + xb) div 64
       + nbx * ((y0 + line) div (2 ^ i * 8)))))))))"
proof -
  define X where "X = x0 + xb"
  define Y where "Y = y0 + line"
  define g :: nat where "g = 2 ^ i"
  have dx: "(X mod 64) div 32 = (X div 32) mod 2" "(X mod 32) div 16 = (X div 16) mod 2"
    using div_mod_digit [of 32 X 2] div_mod_digit [of 16 X 2] by simp_all
  have dy: "(Y mod (g * 8)) div 8 = (Y div 8) mod g" "(Y mod 8) div 2 = (Y div 2) mod 4"
    using div_mod_digit [of 8 Y g] div_mod_digit [of 2 Y 4] by (simp_all add: mult.commute)
  define x0d x1d x2d x3d where "x0d = X mod 16" and "x1d = (X div 16) mod 2"
    and "x2d = (X div 32) mod 2" and "x3d = X div 64"
  define y0d y1d y2d y3d where "y0d = Y mod 2" and "y1d = (Y div 2) mod 4"
    and "y2d = (Y div 8) mod g" and "y3d = Y div (g * 8)"
  have "swizzledByte (64 * nbx) (g * GobHeight) ad (g * GobHeight * GobWidth * ad) g x0 y0 (z, line, xb)
      = z * (8 * 64 * g) + 64 * nbx * (y3d * (g * 8)) * ad
          + (y2d * 512 + y1d * 64 + y0d * 16) + x3d * (g * 8 * 64 * ad)
          + (x2d * 256 + x0d + x1d * 32)"
    unfolding swizzledByte_def split_conv g_def GobYOffset_arith GobXOffset_arith AlignDown_def
      X_def [symmetric] Y_def [symmetric]
    unfolding g_def [symmetric] dx dy GobHeight_def GobWidth_def
      x0d_def x1d_def x2d_def x3d_def y0d_def y1d_def y2d_def y3d_def
    by (rule refl)
  also have "\<dots> = x0d + 16 * (y0d + 2 * (x1d + 2 * (y1d + 4 * (x2d + 2 * (y2d + g * (z + ad * (x3d + nbx * y3d)))))))"
    by (simp add: algebra_simps)
  finally show ?thesis
    unfolding x0d_def x1d_def x2d_def x3d_def y0d_def y1d_def y2d_def y3d_def X_def Y_def g_def .
qed

lemma swizzledByte_inj:
  assumes z: "z < ad" "z' < ad"
    and x: "x0 + xb < 64 * nbx" "x0 + xb' < 64 * nbx"
    and eq: "swizzledByte (64 * nbx) (2 ^ i * GobHeight) ad (2 ^ i * GobHeight * GobWidth * ad) (2 ^ i) x0 y0 (z, line, xb)
           = swizzledByte (64 * nbx) (2 ^ i * GobHeight) ad (2 ^ i * GobHeight * GobWidth * ad) (2 ^ i) x0 y0 (z', line', xb')"
  shows "z = z' \<and> line = line' \<and> xb = xb'"
proof -
  define X X' where "X = x0 + xb" and "X' = x0 + xb'"
  define Y Y' where "Y = y0 + line" and "Y' = y0 + line'"
  define g :: nat where "g = 2 ^ i"
  have g: "0 < g" by (simp add: g_def)
  have b: "X mod 16 < 16" "X' mod 16 < 16" "Y mod 2 < 2" "Y' mod 2 < 2"
    "(X div 16) mod 2 < 2" "(X' div 16) mod 2 < 2" "(Y div 2) mod 4 < 4" "(Y' div 2) mod 4 < 4"
    "(X div 32) mod 2 < 2" "(X' div 32) mod 2 < 2" "(Y div 8) mod g < g" "(Y' div 8) mod g < g"
    using g by simp_all
  have bx: "X div 64 < nbx" "X' div 64 < nbx"
    using x by (simp_all add: X_def X'_def less_mult_imp_div_less mult.commute)
  note h = horner_unique [OF b z bx eq [unfolded swizzledByte_horner,
        folded X_def X'_def Y_def Y'_def g_def]]
  have "X = X'"
    using x_digits [of X] x_digits [of X'] h by simp
  moreover have "Y = Y'"
    using y_digits [of Y g] y_digits [of Y' g] h by simp
  ultimately show ?thesis using h by (simp add: X_def X'_def Y_def Y'_def)
qed

lemma digit_bound:
  fixes a r q m :: nat
  assumes "a < r" and "q < m"
  shows "a + r * q < r * m"
proof -
  have "a + r * q < r + r * q" using assms(1) by simp
  also have "\<dots> = r * Suc q" by simp
  also have "\<dots> \<le> r * m" using assms(2) by (intro mult_le_mono2) simp
  finally show ?thesis .
qed

lemma swizzledByte_bound:
  assumes z: "z < ad" and x: "x0 + xb < 64 * nbx" and y: "y0 + line < 2 ^ i * 8 * robs"
  shows "swizzledByte (64 * nbx) (2 ^ i * GobHeight) ad (2 ^ i * GobHeight * GobWidth * ad) (2 ^ i) x0 y0 (z, line, xb)
           < 64 * nbx * (2 ^ i * 8) * robs * ad"
proof -
  define X Y where "X = x0 + xb" and "Y = y0 + line"
  define g :: nat where "g = 2 ^ i"
  have g: "0 < g" by (simp add: g_def)
  have bx: "X div 64 < nbx"
    using x by (simp add: X_def less_mult_imp_div_less mult.commute)
  have byy: "Y div (g * 8) < robs"
    using y by (simp add: Y_def g_def less_mult_imp_div_less mult.commute)
  note s8 = digit_bound [OF bx byy]
  note s7 = digit_bound [OF z s8]
  have b6: "(Y div 8) mod g < g" using g by simp
  note s6 = digit_bound [OF b6 s7]
  have b5: "(X div 32) mod 2 < 2" by simp
  note s5 = digit_bound [OF b5 s6]
  have b4: "(Y div 2) mod 4 < 4" by simp
  note s4 = digit_bound [OF b4 s5]
  have b3: "(X div 16) mod 2 < 2" by simp
  note s3 = digit_bound [OF b3 s4]
  have b2: "Y mod 2 < 2" by simp
  note s2 = digit_bound [OF b2 s3]
  have b1: "X mod 16 < 16" by simp
  note s1 = digit_bound [OF b1 s2]
  have e: "16 * (2 * (2 * (4 * (2 * (g * (ad * (nbx * robs))))))) = 64 * nbx * (g * 8) * robs * ad"
    by simp
  show ?thesis
    unfolding swizzledByte_horner using s1 [unfolded e, unfolded X_def Y_def g_def] .
qed

lemma set_byteIndices:
  "set (byteIndices d h wb) = {(z, line, xb). z < d \<and> line < h \<and> xb < wb}"
  by (auto simp: byteIndices_def)

lemma distinct_byteIndices: "distinct (byteIndices d h wb)"
  by (simp add: byteIndices_def distinct_product)

lemma byteMoves_fst:
  "map fst (byteMoves d wb h wa rh ad bs pb x0 y0 gbh) =
     map (swizzledByte wa rh ad bs gbh x0 y0) (byteIndices d h wb)"
  by (simp add: byteMoves_def comp_def)

lemma byteMoves_distinct:
  assumes "d \<le> ad" and "x0 + wb \<le> 64 * nbx"
  shows "distinct (map fst (byteMoves d wb h (64 * nbx) (2 ^ i * GobHeight) ad
                     (2 ^ i * GobHeight * GobWidth * ad) pb x0 y0 (2 ^ i)))"
proof -
  let ?f = "swizzledByte (64 * nbx) (2 ^ i * GobHeight) ad (2 ^ i * GobHeight * GobWidth * ad) (2 ^ i) x0 y0"
  have "inj_on ?f (set (byteIndices d h wb))"
  proof (rule inj_onI)
    fix p q
    assume p: "p \<in> set (byteIndices d h wb)" and q: "q \<in> set (byteIndices d h wb)"
      and e: "?f p = ?f q"
    obtain z line xb where pp: "p = (z, line, xb)" by (cases p) auto
    obtain z' line' xb' where qq: "q = (z', line', xb')" by (cases q) auto
    have bz: "z < ad" "z' < ad" using p q assms(1) by (auto simp: pp qq set_byteIndices)
    have bx: "x0 + xb < 64 * nbx" "x0 + xb' < 64 * nbx"
      using p q assms(2) by (auto simp: pp qq set_byteIndices)
    from swizzledByte_inj [OF bz bx e [unfolded pp qq]] show "p = q" by (simp add: pp qq)
  qed
  then show ?thesis by (simp only: byteMoves_fst distinct_map distinct_byteIndices simp_thms)
qed

text \<open>
  The pitch offset of a byte is injective as well, when the rows do not overlap, that is,
  when the pitch is at least the row width in bytes.
\<close>

lemma pitchByte_inj:
  assumes wb: "wb \<le> pb" and x: "xb < wb" "xb' < wb" and l: "line < h" "line' < h"
    and eq: "pitchByte h pb (z, line, xb) = pitchByte h pb (z', line', xb')"
  shows "z = z' \<and> line = line' \<and> xb = xb'"
proof -
  have e: "xb + pb * (line + h * z) = xb' + pb * (line' + h * z')"
    using eq by (simp add: pitchByte_def algebra_simps)
  have b: "xb < pb" "xb' < pb" using wb x by simp_all
  note s0 = digit_unique [OF b e]
  note s1 = digit_unique [OF l conjunct2 [OF s0]]
  show ?thesis using s0 s1 by blast
qed

lemma byteMoves_snd:
  "map snd (byteMoves d wb h wa rh ad bs pb x0 y0 gbh) = map (pitchByte h pb) (byteIndices d h wb)"
  by (simp add: byteMoves_def comp_def)

lemma byteMoves_snd_distinct:
  assumes "wb \<le> pb"
  shows "distinct (map snd (byteMoves d wb h wa rh ad bs pb x0 y0 gbh))"
proof -
  have "inj_on (pitchByte h pb) (set (byteIndices d h wb))"
  proof (rule inj_onI)
    fix p q
    assume p: "p \<in> set (byteIndices d h wb)" and q: "q \<in> set (byteIndices d h wb)"
      and e: "pitchByte h pb p = pitchByte h pb q"
    obtain z line xb where pp: "p = (z, line, xb)" by (cases p) auto
    obtain z' line' xb' where qq: "q = (z', line', xb')" by (cases q) auto
    have bx: "xb < wb" "xb' < wb" using p q by (auto simp: pp qq set_byteIndices)
    have bl: "line < h" "line' < h" using p q by (auto simp: pp qq set_byteIndices)
    from pitchByte_inj [OF assms bx bl e [unfolded pp qq]] show "p = q" by (simp add: pp qq)
  qed
  then show ?thesis by (simp only: byteMoves_snd distinct_map distinct_byteIndices simp_thms)
qed

subsection \<open>Full-surface copies of power-of-two element sizes\<close>

lemma AlignUp_GobWidth: "AlignUp v GobWidth = 64 * ((v + 63) div 64)"
  by (simp add: AlignUp_def GobWidth_def)

lemma AlignUp_ge: "0 < m \<Longrightarrow> v \<le> AlignUp v m"
proof -
  assume m: "0 < m"
  have "v + m - 1 = m * ((v + m - 1) div m) + (v + m - 1) mod m" by simp
  moreover have "(v + m - 1) mod m < m" using m by simp
  ultimately have "v \<le> m * ((v + m - 1) div m)" by linarith
  then show ?thesis by (simp add: AlignUp_def mult.commute)
qed

lemma CopyBlockLinearInternal_moveBytes:
  assumes "pow2_bpb b"
  shows "CopyBlockLinearInternal b2p dims fbw fbh b pa gbh gbd mem =
           Some (moveBytes b2p (fullCopyMoves dims fbw fbh b pa gbh gbd) mem)"
  by (simp only: CopyBlockLinearInternal_reference [OF assms] CopyBlockLinearReference_def Let_def
      copyBlockLinearCoalesced_bytes [OF assms] moveRows_byteMoves fullCopyMoves_def)

lemma fullCopyMoves_distinct:
  "distinct (map fst (fullCopyMoves dims fbw fbh b pa (2 ^ i) (2 ^ j)))"
proof -
  have a: "depth dims \<le> AlignUp (depth dims) (2 ^ j)" by (rule AlignUp_ge) simp
  have b: "0 + DivideCeil (width dims) fbw * b \<le> 64 * ((DivideCeil (width dims) fbw * b + 63) div 64)"
    using AlignUp_ge [of GobWidth "DivideCeil (width dims) fbw * b"]
    by (simp add: AlignUp_GobWidth GobWidth_def)
  show ?thesis
    unfolding fullCopyMoves_def AlignUp_GobWidth
    by (rule byteMoves_distinct [OF a b])
qed

text \<open>
  For the element sizes 1, 2, 4, 8 and 16 the round trip returns the bytes of \<open>B\<close> at every
  pitch offset the copy covers and the fresh buffer elsewhere.
\<close>

lemma roundTrip_pow2:
  assumes "pow2_bpb b"
  shows "roundTrip dims fbw fbh b pa (2 ^ i) (2 ^ j) B dst fresh =
           Some (\<lambda>a. if a \<in> snd ` set (fullCopyMoves dims fbw fbh b pa (2 ^ i) (2 ^ j)) then B a else fresh a)"
  by (simp add: roundTrip_def CopyPitchToBlockLinear_def CopyBlockLinearToPitch_def
      CopyBlockLinearInternal_moveBytes [OF assms] moveBytes_roundTrip [OF fullCopyMoves_distinct])

lemma CopyPitchToBlockLinear_moveBytes:
  assumes "pow2_bpb b"
  shows "CopyPitchToBlockLinear dims fbw fbh b pa gbh gbd pitch bl =
           Some (fst (moveBytes False (fullCopyMoves dims fbw fbh b pa gbh gbd) (bl, pitch)))"
  by (simp add: CopyPitchToBlockLinear_def CopyBlockLinearInternal_moveBytes [OF assms])

lemma swizzledByte_element:
  assumes "pow2_bpb b" and "k < b" and "0 < gbd"
  shows "swizzledByte wa (2 ^ i * GobHeight) ad (2 ^ i * GobHeight * GobWidth * ad) (2 ^ i) 0 0 (z, y, x * b + k)
       = spec_blockLinearOffset b (2 ^ i) gbd wa ad x y z + k"
proof -
  have d: "b dvd x * b" by simp
  note a = GobXOffset_aligned [OF assms(1) d assms(2)]
  have "swizzledByte wa (2 ^ i * GobHeight) ad (2 ^ i * GobHeight * GobWidth * ad) (2 ^ i) 0 0 (z, y, x * b + k)
      = z * (GobHeight * GobWidth * 2 ^ i) + wa * AlignDown y (2 ^ i * GobHeight) * ad
          + GobYOffset (2 ^ i * GobHeight) y
          + ((x * b) div GobWidth) * (2 ^ i * GobHeight * GobWidth * ad) + GobXOffset (x * b) + k"
    by (simp only: swizzledByte_def split_conv add_0 a add.assoc)
  then show ?thesis by (simp only: offset_eq [OF assms(3)])
qed

lemma fullCopyMoves_element:
  assumes "pow2_bpb b" and "k < b" and "x < DivideCeil (width dims) fbw"
    and "y < DivideCeil (height dims) fbh" and "z < depth dims"
  shows "(spec_blockLinearOffset b (2 ^ i) (2 ^ j)
            (AlignUp (DivideCeil (width dims) fbw * b) GobWidth) (AlignUp (depth dims) (2 ^ j)) x y z + k,
          (z * DivideCeil (height dims) fbh + y) * (if pa \<noteq> 0 then pa else DivideCeil (width dims) fbw * b)
            + (x * b + k))
         \<in> set (fullCopyMoves dims fbw fbh b pa (2 ^ i) (2 ^ j))"
proof -
  let ?W = "DivideCeil (width dims) fbw"
  have "x * b + b \<le> ?W * b" using assms(3) by (metis Suc_leI mult_Suc mult_le_mono1 add.commute)
  then have xb: "x * b + k < ?W * b" using assms(2) by simp
  have m: "(z, y, x * b + k) \<in> set (byteIndices (depth dims) (DivideCeil (height dims) fbh) (?W * b))"
    using xb assms(4,5) by (simp add: set_byteIndices)
  have g: "0 < (2::nat) ^ j" by simp
  show ?thesis
    unfolding fullCopyMoves_def byteMoves_def set_map
    by (rule image_eqI [OF _ m])
       (simp only: swizzledByte_element [OF assms(1,2) g] pitchByte_def split_conv)
qed

lemma CopyPitchToBlockLinear_element:
  assumes "pow2_bpb b" and "k < b" and "x < DivideCeil (width dims) fbw"
    and "y < DivideCeil (height dims) fbh" and "z < depth dims"
  shows "fst (moveBytes False (fullCopyMoves dims fbw fbh b pa (2 ^ i) (2 ^ j)) (bl, pitch))
           (spec_blockLinearOffset b (2 ^ i) (2 ^ j)
              (AlignUp (DivideCeil (width dims) fbw * b) GobWidth) (AlignUp (depth dims) (2 ^ j)) x y z + k)
         = pitch ((z * DivideCeil (height dims) fbh + y) * (if pa \<noteq> 0 then pa else DivideCeil (width dims) fbw * b)
                    + (x * b + k))"
  by (rule toBlockLinear_hit [OF fullCopyMoves_distinct fullCopyMoves_element [OF assms]])

lemma fullCopyMoves_snd_distinct:
  assumes "pa = 0 \<or> DivideCeil (width dims) fbw * b \<le> pa"
  shows "distinct (map snd (fullCopyMoves dims fbw fbh b pa gbh gbd))"
proof -
  have "DivideCeil (width dims) fbw * b \<le> (if pa \<noteq> 0 then pa else DivideCeil (width dims) fbw * b)"
    using assms by auto
  then show ?thesis unfolding fullCopyMoves_def by (rule byteMoves_snd_distinct)
qed

lemma fullCopyMoves_set:
  assumes "pow2_bpb b"
  shows "set (fullCopyMoves dims fbw fbh b pa (2 ^ i) (2 ^ j)) =
    {(spec_blockLinearOffset b (2 ^ i) (2 ^ j)
        (AlignUp (DivideCeil (width dims) fbw * b) GobWidth) (AlignUp (depth dims) (2 ^ j)) x y z + k,
      (z * DivideCeil (height dims) fbh + y) * (if pa \<noteq> 0 then pa else DivideCeil (width dims) fbw * b)
        + (x * b + k))
     | x y z k. x < DivideCeil (width dims) fbw \<and> y < DivideCeil (height dims) fbh \<and> z < depth dims \<and> k < b}"
    (is "?L = ?R")
proof (rule set_eqI, rule iffI)
  fix m
  assume "m \<in> ?R"
  then show "m \<in> ?L" using fullCopyMoves_element [OF assms] by blast
next
  let ?wa = "AlignUp (DivideCeil (width dims) fbw * b) GobWidth"
  let ?ad = "AlignUp (depth dims) (2 ^ j)"
  let ?W = "DivideCeil (width dims) fbw"
  let ?H = "DivideCeil (height dims) fbh"
  let ?pb = "if pa \<noteq> 0 then pa else ?W * b"
  let ?f = "swizzledByte ?wa (2 ^ i * GobHeight) ?ad (2 ^ i * GobHeight * GobWidth * ?ad) (2 ^ i) 0 0"
  have b0: "0 < b" using assms unfolding pow2_bpb_def by auto
  have g: "0 < (2::nat) ^ j" by simp
  fix m
  assume "m \<in> ?L"
  then obtain z line xb where m: "m = (?f (z, line, xb), pitchByte ?H ?pb (z, line, xb))"
    and r: "z < depth dims" "line < ?H" "xb < ?W * b"
    unfolding fullCopyMoves_def byteMoves_def set_map set_byteIndices by blast
  have k: "xb mod b < b" using b0 by simp
  have x: "xb div b < ?W" using r(3) b0 by (simp add: less_mult_imp_div_less)
  have xb: "xb = (xb div b) * b + xb mod b" by simp
  have "?f (z, line, xb) = ?f (z, line, (xb div b) * b + xb mod b)" using xb by simp
  then have 1: "?f (z, line, xb) = spec_blockLinearOffset b (2 ^ i) (2 ^ j) ?wa ?ad (xb div b) line z + xb mod b"
    by (simp only: swizzledByte_element [OF assms k g])
  have 2: "pitchByte ?H ?pb (z, line, xb) = (z * ?H + line) * ?pb + ((xb div b) * b + xb mod b)"
    by (simp only: pitchByte_def split_conv xb [symmetric])
  show "m \<in> ?R" unfolding m 1 2 using x r(1,2) k by blast
qed

lemma CopyBlockLinearToPitch_moveBytes:
  assumes "pow2_bpb b"
  shows "CopyBlockLinearToPitch dims fbw fbh b pa gbh gbd bl pitch =
           Some (snd (moveBytes True (fullCopyMoves dims fbw fbh b pa gbh gbd) (bl, pitch)))"
  by (simp add: CopyBlockLinearToPitch_def CopyBlockLinearInternal_moveBytes [OF assms])

text \<open>
  The end state of a full-surface copy for the element sizes 1, 2, 4, 8 and 16, in the
  words of claim C1. \<^verbatim>\<open>CopyPitchToBlockLinear\<close> returns; for every in-range texel-block
  coordinate \<open>(x, y, z)\<close> the \<open>bpb\<close> bytes at the block-linear offset of the spec's formula
  are those of the pitch buffer at \<open>(z * ceil(h / fmtBh) + y) * pitchBytes + x * bpb\<close>, and
  every other block-linear byte is as before. \<^verbatim>\<open>CopyBlockLinearToPitch\<close> is the same with
  the buffers exchanged, when the pitch is 0 or at least the row width in bytes (otherwise
  the rows overlap in the pitch buffer and a later row overwrites the end of the one
  before).
\<close>

lemma CopyPitchToBlockLinear_contents:
  assumes "pow2_bpb bpb"
  shows "\<exists>dst'. CopyPitchToBlockLinear dims fmtBw fmtBh bpb pitchAmount (2 ^ i) (2 ^ j) pitch dst = Some dst'
    \<and> (\<forall>x y z k. x < DivideCeil (width dims) fmtBw \<and> y < DivideCeil (height dims) fmtBh
                    \<and> z < depth dims \<and> k < bpb \<longrightarrow>
          dst' (spec_blockLinearOffset bpb (2 ^ i) (2 ^ j)
                  (AlignUp (DivideCeil (width dims) fmtBw * bpb) GobWidth) (AlignUp (depth dims) (2 ^ j)) x y z + k)
            = pitch ((z * DivideCeil (height dims) fmtBh + y)
                       * (if pitchAmount \<noteq> 0 then pitchAmount else DivideCeil (width dims) fmtBw * bpb)
                     + (x * bpb + k)))
    \<and> (\<forall>a. (\<forall>x y z k. x < DivideCeil (width dims) fmtBw \<and> y < DivideCeil (height dims) fmtBh
                    \<and> z < depth dims \<and> k < bpb \<longrightarrow>
               a \<noteq> spec_blockLinearOffset bpb (2 ^ i) (2 ^ j)
                      (AlignUp (DivideCeil (width dims) fmtBw * bpb) GobWidth) (AlignUp (depth dims) (2 ^ j)) x y z + k)
            \<longrightarrow> dst' a = dst a)"
proof -
  let ?ms = "fullCopyMoves dims fmtBw fmtBh bpb pitchAmount (2 ^ i) (2 ^ j)"
  let ?dst = "fst (moveBytes False ?ms (dst, pitch))"
  note c = CopyPitchToBlockLinear_moveBytes [OF assms, of dims fmtBw fmtBh pitchAmount "2 ^ i" "2 ^ j" pitch dst]
  note s = fullCopyMoves_set [OF assms, of dims fmtBw fmtBh pitchAmount i j]
  have miss: "\<And>a. a \<notin> fst ` set ?ms \<Longrightarrow> ?dst a = dst a"
    by (rule toBlockLinear_miss)
  have 1: "\<forall>x y z k. x < DivideCeil (width dims) fmtBw \<and> y < DivideCeil (height dims) fmtBh
                    \<and> z < depth dims \<and> k < bpb \<longrightarrow>
          ?dst (spec_blockLinearOffset bpb (2 ^ i) (2 ^ j)
                  (AlignUp (DivideCeil (width dims) fmtBw * bpb) GobWidth) (AlignUp (depth dims) (2 ^ j)) x y z + k)
            = pitch ((z * DivideCeil (height dims) fmtBh + y)
                       * (if pitchAmount \<noteq> 0 then pitchAmount else DivideCeil (width dims) fmtBw * bpb)
                     + (x * bpb + k))"
  proof (intro allI impI)
    fix x y z k
    assume r: "x < DivideCeil (width dims) fmtBw \<and> y < DivideCeil (height dims) fmtBh
                    \<and> z < depth dims \<and> k < bpb"
    show "?dst (spec_blockLinearOffset bpb (2 ^ i) (2 ^ j)
                  (AlignUp (DivideCeil (width dims) fmtBw * bpb) GobWidth) (AlignUp (depth dims) (2 ^ j)) x y z + k)
            = pitch ((z * DivideCeil (height dims) fmtBh + y)
                       * (if pitchAmount \<noteq> 0 then pitchAmount else DivideCeil (width dims) fmtBw * bpb)
                     + (x * bpb + k))"
      using r by (intro CopyPitchToBlockLinear_element [OF assms]) simp_all
  qed
  have 2: "\<forall>a. (\<forall>x y z k. x < DivideCeil (width dims) fmtBw \<and> y < DivideCeil (height dims) fmtBh
                    \<and> z < depth dims \<and> k < bpb \<longrightarrow>
               a \<noteq> spec_blockLinearOffset bpb (2 ^ i) (2 ^ j)
                      (AlignUp (DivideCeil (width dims) fmtBw * bpb) GobWidth) (AlignUp (depth dims) (2 ^ j)) x y z + k)
            \<longrightarrow> ?dst a = dst a"
  proof (intro allI impI)
    fix a
    assume n: "\<forall>x y z k. x < DivideCeil (width dims) fmtBw \<and> y < DivideCeil (height dims) fmtBh
                    \<and> z < depth dims \<and> k < bpb \<longrightarrow>
               a \<noteq> spec_blockLinearOffset bpb (2 ^ i) (2 ^ j)
                      (AlignUp (DivideCeil (width dims) fmtBw * bpb) GobWidth) (AlignUp (depth dims) (2 ^ j)) x y z + k"
    have "a \<notin> fst ` set ?ms"
    proof
      assume "a \<in> fst ` set ?ms"
      then obtain m where m: "m \<in> set ?ms" "a = fst m" by blast
      from m(1) [unfolded s] obtain x y z k where
        "x < DivideCeil (width dims) fmtBw \<and> y < DivideCeil (height dims) fmtBh \<and> z < depth dims \<and> k < bpb"
        "fst m = spec_blockLinearOffset bpb (2 ^ i) (2 ^ j)
                      (AlignUp (DivideCeil (width dims) fmtBw * bpb) GobWidth) (AlignUp (depth dims) (2 ^ j)) x y z + k"
        by auto
      then show False using n m(2) by blast
    qed
    then show "?dst a = dst a" by (rule miss)
  qed
  show ?thesis using c 1 2 by blast
qed

lemma CopyBlockLinearToPitch_contents:
  assumes "pow2_bpb bpb"
    and "pitchAmount = 0 \<or> DivideCeil (width dims) fmtBw * bpb \<le> pitchAmount"
  shows "\<exists>pitch'. CopyBlockLinearToPitch dims fmtBw fmtBh bpb pitchAmount (2 ^ i) (2 ^ j) blockLinear pitch
                     = Some pitch'
    \<and> (\<forall>x y z k. x < DivideCeil (width dims) fmtBw \<and> y < DivideCeil (height dims) fmtBh
                    \<and> z < depth dims \<and> k < bpb \<longrightarrow>
          pitch' ((z * DivideCeil (height dims) fmtBh + y)
                       * (if pitchAmount \<noteq> 0 then pitchAmount else DivideCeil (width dims) fmtBw * bpb)
                     + (x * bpb + k))
            = blockLinear (spec_blockLinearOffset bpb (2 ^ i) (2 ^ j)
                  (AlignUp (DivideCeil (width dims) fmtBw * bpb) GobWidth) (AlignUp (depth dims) (2 ^ j)) x y z + k))
    \<and> (\<forall>a. (\<forall>x y z k. x < DivideCeil (width dims) fmtBw \<and> y < DivideCeil (height dims) fmtBh
                    \<and> z < depth dims \<and> k < bpb \<longrightarrow>
               a \<noteq> (z * DivideCeil (height dims) fmtBh + y)
                       * (if pitchAmount \<noteq> 0 then pitchAmount else DivideCeil (width dims) fmtBw * bpb)
                     + (x * bpb + k))
            \<longrightarrow> pitch' a = pitch a)"
proof -
  let ?ms = "fullCopyMoves dims fmtBw fmtBh bpb pitchAmount (2 ^ i) (2 ^ j)"
  let ?p = "snd (moveBytes True ?ms (blockLinear, pitch))"
  note c = CopyBlockLinearToPitch_moveBytes [OF assms(1), of dims fmtBw fmtBh pitchAmount "2 ^ i" "2 ^ j" blockLinear pitch]
  note s = fullCopyMoves_set [OF assms(1), of dims fmtBw fmtBh pitchAmount i j]
  note d = fullCopyMoves_snd_distinct [OF assms(2), of fmtBh "2 ^ i" "2 ^ j"]
  have 1: "\<forall>x y z k. x < DivideCeil (width dims) fmtBw \<and> y < DivideCeil (height dims) fmtBh
                    \<and> z < depth dims \<and> k < bpb \<longrightarrow>
          ?p ((z * DivideCeil (height dims) fmtBh + y)
                       * (if pitchAmount \<noteq> 0 then pitchAmount else DivideCeil (width dims) fmtBw * bpb)
                     + (x * bpb + k))
            = blockLinear (spec_blockLinearOffset bpb (2 ^ i) (2 ^ j)
                  (AlignUp (DivideCeil (width dims) fmtBw * bpb) GobWidth) (AlignUp (depth dims) (2 ^ j)) x y z + k)"
  proof (intro allI impI)
    fix x y z k
    assume r: "x < DivideCeil (width dims) fmtBw \<and> y < DivideCeil (height dims) fmtBh
                    \<and> z < depth dims \<and> k < bpb"
    have m: "(spec_blockLinearOffset bpb (2 ^ i) (2 ^ j)
                (AlignUp (DivideCeil (width dims) fmtBw * bpb) GobWidth) (AlignUp (depth dims) (2 ^ j)) x y z + k,
              (z * DivideCeil (height dims) fmtBh + y)
                 * (if pitchAmount \<noteq> 0 then pitchAmount else DivideCeil (width dims) fmtBw * bpb)
               + (x * bpb + k)) \<in> set ?ms"
      using r by (intro fullCopyMoves_element [OF assms(1)]) simp_all
    show "?p ((z * DivideCeil (height dims) fmtBh + y)
                       * (if pitchAmount \<noteq> 0 then pitchAmount else DivideCeil (width dims) fmtBw * bpb)
                     + (x * bpb + k))
            = blockLinear (spec_blockLinearOffset bpb (2 ^ i) (2 ^ j)
                  (AlignUp (DivideCeil (width dims) fmtBw * bpb) GobWidth) (AlignUp (depth dims) (2 ^ j)) x y z + k)"
      by (rule toPitch_hit_distinct [OF d m])
  qed
  have 2: "\<forall>a. (\<forall>x y z k. x < DivideCeil (width dims) fmtBw \<and> y < DivideCeil (height dims) fmtBh
                    \<and> z < depth dims \<and> k < bpb \<longrightarrow>
               a \<noteq> (z * DivideCeil (height dims) fmtBh + y)
                       * (if pitchAmount \<noteq> 0 then pitchAmount else DivideCeil (width dims) fmtBw * bpb)
                     + (x * bpb + k))
            \<longrightarrow> ?p a = pitch a"
  proof (intro allI impI)
    fix a
    assume n: "\<forall>x y z k. x < DivideCeil (width dims) fmtBw \<and> y < DivideCeil (height dims) fmtBh
                    \<and> z < depth dims \<and> k < bpb \<longrightarrow>
               a \<noteq> (z * DivideCeil (height dims) fmtBh + y)
                       * (if pitchAmount \<noteq> 0 then pitchAmount else DivideCeil (width dims) fmtBw * bpb)
                     + (x * bpb + k)"
    have "a \<notin> snd ` set ?ms"
    proof
      assume "a \<in> snd ` set ?ms"
      then obtain m where m: "m \<in> set ?ms" "a = snd m" by blast
      from m(1) [unfolded s] obtain x y z k where
        "x < DivideCeil (width dims) fmtBw \<and> y < DivideCeil (height dims) fmtBh \<and> z < depth dims \<and> k < bpb"
        "snd m = (z * DivideCeil (height dims) fmtBh + y)
                       * (if pitchAmount \<noteq> 0 then pitchAmount else DivideCeil (width dims) fmtBw * bpb)
                     + (x * bpb + k)"
        by auto
      then show False using n m(2) by blast
    qed
    then show "?p a = pitch a" by (rule toPitch_miss)
  qed
  show ?thesis using c 1 2 by blast
qed

subsection \<open>Sub-rectangle copies of power-of-two element sizes\<close>

text \<open>
  The coalescing loop of the sub-rectangle copy ends for the element sizes 1, 2, 4, 8 and 16,
  with the same row of bytes and an element size that still divides the origin in bytes.
\<close>

lemma coalesceSubrect_16: "coalesceSubrect wb sbx w 16 = Some (w, 16)"
  by (subst coalesceSubrect.simps) simp

lemma coalesceSubrect_step:
  "b \<noteq> 16 \<Longrightarrow>
   coalesceSubrect wb sbx w b =
     (if 2 * b dvd size_t_sub wb sbx \<and> 2 * b dvd sbx
      then coalesceSubrect wb sbx (w div 2) (2 * b) else Some (w, b))"
  by (subst coalesceSubrect.simps) (simp add: IsAligned_def push_bit_eq_mult mult.commute)

lemma size_t_sub_aligned:
  assumes m: "m dvd 2 ^ 64" and le: "sbx \<le> 2 ^ 64"
    and a: "m dvd size_t_sub wb sbx" and s: "m dvd sbx"
  shows "m dvd wb"
proof -
  have "m dvd (wb + 2 ^ 64 - sbx)"
    using a dvd_mod_iff [OF m, of "wb + 2 ^ 64 - sbx"] by (simp only: size_t_sub_def)
  then have "m dvd (wb + 2 ^ 64 - sbx) + sbx" using s by (rule dvd_add)
  moreover have "(wb + 2 ^ 64 - sbx) + sbx = wb + 2 ^ 64" using le by simp
  ultimately have "m dvd wb + 2 ^ 64" by simp
  then show ?thesis using m by (simp only: dvd_add_left_iff)
qed

lemma startingBlock_le: "AlignUp x0 GobWidth - x0 \<le> 2 ^ 64"
proof -
  have "(x0 + 63) div 64 * 64 \<le> x0 + 63" by simp
  then have "AlignUp x0 GobWidth - x0 \<le> 63" by (simp add: AlignUp_def GobWidth_def)
  then show ?thesis by simp
qed

lemma origin_aligned:
  assumes m: "m dvd 64" and s: "m dvd AlignUp x0 GobWidth - x0"
  shows "m dvd x0"
proof -
  have ge: "x0 \<le> AlignUp x0 GobWidth" by (rule AlignUp_ge) (simp add: GobWidth_def)
  have "m dvd AlignUp x0 GobWidth" using m by (simp add: AlignUp_GobWidth)
  then have "m dvd AlignUp x0 GobWidth - (AlignUp x0 GobWidth - x0)" using s by (rule dvd_diff_nat)
  moreover have "AlignUp x0 GobWidth - (AlignUp x0 GobWidth - x0) = x0" using ge by simp
  ultimately show ?thesis by simp
qed

lemma coalesceSubrect_double:
  assumes b: "0 < b" "b \<noteq> 16" "2 * b dvd 64"
    and IH: "\<And>w. w * (2 * b) = wb \<Longrightarrow> 2 * b dvd x0 \<Longrightarrow>
               \<exists>w' b'. coalesceSubrect wb (AlignUp x0 GobWidth - x0) w (2 * b) = Some (w', b')
                  \<and> pow2_bpb b' \<and> w' * b' = wb \<and> b' dvd x0"
    and pb: "pow2_bpb b" and inv: "w * b = wb" "b dvd x0"
  shows "\<exists>w' b'. coalesceSubrect wb (AlignUp x0 GobWidth - x0) w b = Some (w', b')
            \<and> pow2_bpb b' \<and> w' * b' = wb \<and> b' dvd x0"
proof (cases "2 * b dvd size_t_sub wb (AlignUp x0 GobWidth - x0) \<and> 2 * b dvd AlignUp x0 GobWidth - x0")
  case True
  have "(64::nat) dvd 2 ^ 64" by (simp add: le_imp_power_dvd [of 6 64 "2::nat", simplified])
  then have m: "2 * b dvd 2 ^ 64" using b(3) by (rule dvd_trans [rotated])
  have dw: "2 * b dvd w * b"
    using size_t_sub_aligned [OF m startingBlock_le conjunct1 [OF True] conjunct2 [OF True]]
    by (simp only: inv(1))
  have dx: "2 * b dvd x0" by (rule origin_aligned [OF b(3) conjunct2 [OF True]])
  have h: "(w div 2) * (2 * b) = wb" using half_width [OF b(1) dw] by (simp only: inv(1))
  have "coalesceSubrect wb (AlignUp x0 GobWidth - x0) w b
      = coalesceSubrect wb (AlignUp x0 GobWidth - x0) (w div 2) (2 * b)"
    by (subst coalesceSubrect_step [OF b(2)]) (rule if_P [OF True])
  then show ?thesis using IH [OF h dx] by (simp only:)
next
  case False
  have "coalesceSubrect wb (AlignUp x0 GobWidth - x0) w b = Some (w, b)"
    by (subst coalesceSubrect_step [OF b(2)]) (rule if_not_P [OF False])
  then show ?thesis using pb inv by blast
qed

lemma coalesceSubrect_pow2:
  assumes "pow2_bpb b" and "w * b = wb" and "b dvd x0"
  shows "\<exists>w' b'. coalesceSubrect wb (AlignUp x0 GobWidth - x0) w b = Some (w', b')
            \<and> pow2_bpb b' \<and> w' * b' = wb \<and> b' dvd x0"
proof -
  have p16: "\<And>w. w * 16 = wb \<Longrightarrow> 16 dvd x0 \<Longrightarrow>
      \<exists>w' b'. coalesceSubrect wb (AlignUp x0 GobWidth - x0) w 16 = Some (w', b')
         \<and> pow2_bpb b' \<and> w' * b' = wb \<and> b' dvd x0"
    by (simp add: coalesceSubrect_16 pow2_bpb_def)
  have p8: "\<And>w. w * 8 = wb \<Longrightarrow> 8 dvd x0 \<Longrightarrow>
      \<exists>w' b'. coalesceSubrect wb (AlignUp x0 GobWidth - x0) w 8 = Some (w', b')
         \<and> pow2_bpb b' \<and> w' * b' = wb \<and> b' dvd x0"
    using coalesceSubrect_double [of 8 wb x0] p16 by (simp add: pow2_bpb_def)
  have p4: "\<And>w. w * 4 = wb \<Longrightarrow> 4 dvd x0 \<Longrightarrow>
      \<exists>w' b'. coalesceSubrect wb (AlignUp x0 GobWidth - x0) w 4 = Some (w', b')
         \<and> pow2_bpb b' \<and> w' * b' = wb \<and> b' dvd x0"
    using coalesceSubrect_double [of 4 wb x0] p8 by (simp add: pow2_bpb_def)
  have p2: "\<And>w. w * 2 = wb \<Longrightarrow> 2 dvd x0 \<Longrightarrow>
      \<exists>w' b'. coalesceSubrect wb (AlignUp x0 GobWidth - x0) w 2 = Some (w', b')
         \<and> pow2_bpb b' \<and> w' * b' = wb \<and> b' dvd x0"
    using coalesceSubrect_double [of 2 wb x0] p4 by (simp add: pow2_bpb_def)
  have p1: "\<And>w. w * 1 = wb \<Longrightarrow> 1 dvd x0 \<Longrightarrow>
      \<exists>w' b'. coalesceSubrect wb (AlignUp x0 GobWidth - x0) w 1 = Some (w', b')
         \<and> pow2_bpb b' \<and> w' * b' = wb \<and> b' dvd x0"
    using coalesceSubrect_double [of 1 wb x0] p2 by (simp add: pow2_bpb_def)
  from assms(1) consider "b = 1" | "b = 2" | "b = 4" | "b = 8" | "b = 16"
    unfolding pow2_bpb_def by blast
  then show ?thesis
  proof cases
    case 1 then show ?thesis using p1 [of w] assms(2,3) by simp
  next
    case 2 then show ?thesis using p2 [of w] assms(2,3) by simp
  next
    case 3 then show ?thesis using p4 [of w] assms(2,3) by simp
  next
    case 4 then show ?thesis using p8 [of w] assms(2,3) by simp
  next
    case 5 then show ?thesis using p16 [of w] assms(2,3) by simp
  qed
qed

lemma CopyBlockLinearSubrectInternal_moveBytes:
  assumes "pow2_bpb b"
  shows "CopyBlockLinearSubrectInternal b2p pd bd fbw fbh b pa gbh gbd mem ox oy =
           Some (moveBytes b2p (subrectMoves pd bd fbw fbh b pa gbh gbd ox oy) mem)"
proof -
  let ?w = "DivideCeil (width pd) fbw"
  let ?x0 = "DivideCeil ox (fbw mod 2 ^ 32) * b"
  have dx: "b dvd ?x0" by simp
  from coalesceSubrect_pow2 [OF assms refl dx, of ?w] obtain w' b' where
    c: "coalesceSubrect (?w * b) (AlignUp ?x0 GobWidth - ?x0) ?w b = Some (w', b')"
    and p: "pow2_bpb b'" and e: "w' * b' = ?w * b" and d: "b' dvd ?x0"
    by blast
  have ne: "b \<noteq> 12" using assms unfolding pow2_bpb_def by auto
  have sw: "b' = 1 \<or> b' = 2 \<or> b' = 4 \<or> b' = 8 \<or> b' = 12 \<or> b' = 16"
    using p unfolding pow2_bpb_def by blast
  have "CopyBlockLinearSubrectInternal b2p pd bd fbw fbh b pa gbh gbd mem ox oy =
      Some (moveRows b2p (depth bd) w' (DivideCeil (height pd) fbh) b'
        (AlignUp (DivideCeil (width bd) fbw * b) GobWidth) (gbh * GobHeight)
        (AlignUp (depth bd) gbd) (gbh * GobHeight * GobWidth * AlignUp (depth bd) gbd)
        (if pa \<noteq> 0 then pa else ?w * b) ?x0 (DivideCeil oy fbh) gbh mem)"
    unfolding CopyBlockLinearSubrectInternal_def Let_def
    by (simp only: ne c if_True not_False_eq_True option.map split_conv if_P [OF sw]
        copyTextureSubrect_moveRows)
  then show ?thesis
    by (simp only: moveRows_bytes [OF p d] e moveRows_byteMoves subrectMoves_def)
qed

lemma subrectMoves_distinct:
  assumes "DivideCeil ox (fbw mod 2 ^ 32) * b + DivideCeil (width pd) fbw * b
             \<le> AlignUp (DivideCeil (width bd) fbw * b) GobWidth"
  shows "distinct (map fst (subrectMoves pd bd fbw fbh b pa (2 ^ i) (2 ^ j) ox oy))"
proof -
  have a: "depth bd \<le> AlignUp (depth bd) (2 ^ j)" by (rule AlignUp_ge) simp
  show ?thesis
    unfolding subrectMoves_def AlignUp_GobWidth
    by (rule byteMoves_distinct [OF a assms [unfolded AlignUp_GobWidth]])
qed

text \<open>
  For these element sizes, when the rows of the rectangle end inside the aligned surface row,
  the sub-rectangle round trip returns the bytes of \<open>B\<close> at every pitch offset the copy
  covers, and the write leaves every block-linear byte unchanged that is not a byte of
  a texel block of the target rectangle.
\<close>

lemma roundTripSubrect_pow2:
  assumes "pow2_bpb b"
    and "DivideCeil ox (fbw mod 2 ^ 32) * b + DivideCeil (width pd) fbw * b
             \<le> AlignUp (DivideCeil (width bd) fbw * b) GobWidth"
  shows "roundTripSubrect pd bd fbw fbh b pa (2 ^ i) (2 ^ j) B dst fresh ox oy =
           Some (\<lambda>a. if a \<in> snd ` set (subrectMoves pd bd fbw fbh b pa (2 ^ i) (2 ^ j) ox oy)
                      then B a else fresh a)"
  by (simp add: roundTripSubrect_def CopyPitchToBlockLinearSubrect_def CopyBlockLinearToPitchSubrect_def
      CopyBlockLinearSubrectInternal_moveBytes [OF assms(1)]
      moveBytes_roundTrip [OF subrectMoves_distinct [OF assms(2)]])

lemma CopyPitchToBlockLinearSubrect_frame:
  assumes "pow2_bpb b"
  shows "\<exists>dst'. CopyPitchToBlockLinearSubrect pd bd fbw fbh b pa gbh gbd B dst ox oy = Some dst'
           \<and> (\<forall>a. a \<notin> fst ` set (subrectMoves pd bd fbw fbh b pa gbh gbd ox oy) \<longrightarrow> dst' a = dst a)"
  by (simp add: CopyPitchToBlockLinearSubrect_def CopyBlockLinearSubrectInternal_moveBytes [OF assms]
      toBlockLinear_miss)

lemma swizzledByte_origin:
  "swizzledByte wa rh ad bs gbh x0 y0 (z, line, xb) = swizzledByte wa rh ad bs gbh 0 0 (z, y0 + line, x0 + xb)"
  by (simp only: swizzledByte_def split_conv add_0)

lemma swizzledByte_subrect_element:
  assumes "pow2_bpb b" and "k < b" and "0 < gbd"
  shows "swizzledByte wa (2 ^ i * GobHeight) ad (2 ^ i * GobHeight * GobWidth * ad) (2 ^ i) (ox * b) oy (z, y, x * b + k)
       = spec_blockLinearOffset b (2 ^ i) gbd wa ad (ox + x) (oy + y) z + k"
proof -
  have "ox * b + (x * b + k) = (ox + x) * b + k" by (simp add: algebra_simps)
  then show ?thesis
    by (simp only: swizzledByte_origin [of _ _ _ _ _ "ox * b"] swizzledByte_element [OF assms])
qed

lemma subrectMoves_targets:
  assumes "pow2_bpb b"
  shows "fst ` set (subrectMoves pd bd fbw fbh b pa (2 ^ i) (2 ^ j) ox oy) =
    {spec_blockLinearOffset b (2 ^ i) (2 ^ j)
        (AlignUp (DivideCeil (width bd) fbw * b) GobWidth) (AlignUp (depth bd) (2 ^ j))
        (DivideCeil ox (fbw mod 2 ^ 32) + x) (DivideCeil oy fbh + y) z + k
     | x y z k. x < DivideCeil (width pd) fbw \<and> y < DivideCeil (height pd) fbh \<and> z < depth bd \<and> k < b}"
    (is "?L = ?R")
proof -
  let ?wa = "AlignUp (DivideCeil (width bd) fbw * b) GobWidth"
  let ?ad = "AlignUp (depth bd) (2 ^ j)"
  let ?W = "DivideCeil (width pd) fbw"
  let ?H = "DivideCeil (height pd) fbh"
  let ?ox = "DivideCeil ox (fbw mod 2 ^ 32)"
  let ?oy = "DivideCeil oy fbh"
  let ?f = "swizzledByte ?wa (2 ^ i * GobHeight) ?ad (2 ^ i * GobHeight * GobWidth * ?ad) (2 ^ i) (?ox * b) ?oy"
  have b0: "0 < b" using assms unfolding pow2_bpb_def by auto
  have g: "0 < (2::nat) ^ j" by simp
  have L: "?L = ?f ` {(z, line, xb). z < depth bd \<and> line < ?H \<and> xb < ?W * b}"
    by (simp only: subrectMoves_def byteMoves_def set_map image_image fst_conv set_byteIndices)
  show ?thesis
  proof (rule set_eqI, rule iffI)
    fix a
    assume "a \<in> ?L"
    then obtain z line xb where a: "a = ?f (z, line, xb)" and r: "z < depth bd" "line < ?H" "xb < ?W * b"
      unfolding L by blast
    have k: "xb mod b < b" using b0 by simp
    have x: "xb div b < ?W" using r(3) b0 by (simp add: less_mult_imp_div_less)
    have "xb = (xb div b) * b + xb mod b" by simp
    then have "a = ?f (z, line, (xb div b) * b + xb mod b)" using a by simp
    then have "a = spec_blockLinearOffset b (2 ^ i) (2 ^ j) ?wa ?ad (?ox + xb div b) (?oy + line) z + xb mod b"
      by (simp only: swizzledByte_subrect_element [OF assms k g])
    then show "a \<in> ?R" using x r(1,2) k by blast
  next
    fix a
    assume "a \<in> ?R"
    then obtain x y z k where a: "a = spec_blockLinearOffset b (2 ^ i) (2 ^ j) ?wa ?ad (?ox + x) (?oy + y) z + k"
      and r: "x < ?W" "y < ?H" "z < depth bd" "k < b"
      by blast
    have "x * b + b \<le> ?W * b" using r(1) by (metis Suc_leI mult_Suc mult_le_mono1 add.commute)
    then have xb: "x * b + k < ?W * b" using r(4) by simp
    have "a = ?f (z, y, x * b + k)"
      by (simp only: a swizzledByte_subrect_element [OF assms r(4) g])
    moreover have "(z, y, x * b + k) \<in> {(z, line, xb). z < depth bd \<and> line < ?H \<and> xb < ?W * b}"
      using r xb by simp
    ultimately show "a \<in> ?L" unfolding L by (rule image_eqI)
  qed
qed

subsection \<open>Scenario S1\<close>

lemma S1_moves_below:
  "a \<in> fst ` set (fullCopyMoves \<lparr>width = 64, height = 8, depth = 1\<rparr> 1 1 4 0 (2 ^ 0) (2 ^ 0)) \<Longrightarrow> a < 2048"
proof -
  assume "a \<in> fst ` set (fullCopyMoves \<lparr>width = 64, height = 8, depth = 1\<rparr> 1 1 4 0 (2 ^ 0) (2 ^ 0))"
  then obtain z line xb where a: "a = swizzledByte (64 * 4) (2 ^ 0 * GobHeight) 1 (2 ^ 0 * GobHeight * GobWidth * 1) (2 ^ 0) 0 0 (z, line, xb)"
    and b: "z < 1" "line < 8" "xb < 256"
    by (auto simp: fullCopyMoves_def byteMoves_def set_byteIndices DivideCeil_def AlignUp_def GobWidth_def)
  have "a < 64 * 4 * (2 ^ 0 * 8) * 1 * 1"
    unfolding a by (rule swizzledByte_bound) (use b in simp_all)
  then show ?thesis by simp
qed

lemma S1_offsets:
  "spec_blockLinearOffset 4 1 1 256 1 16 0 0 = 0x200"
  "spec_blockLinearOffset 4 1 1 256 1 8 0 0 = 0x100"
  "spec_blockLinearOffset 4 1 1 256 1 0 1 0 = 0x10"
  "spec_blockLinearOffset 4 1 1 256 1 0 7 0 = 0xD0"
  "spec_blockLinearOffset 4 1 1 256 1 4 3 0 = 0x70"
  by (simp_all add: spec_blockLinearOffset_def spec_align_down_def Let_def and_63 and_31 and_15 and_7 and_1
        drop_bit_eq_div push_bit_eq_mult spec_intraGobY spec_intraGobX GobXOffset_arith)

lemma S1_layer_size: "GetBlockLinearLayerSize \<lparr>width = 64, height = 8, depth = 1\<rparr> 1 1 4 1 1 = 2048"
  by (simp add: GetBlockLinearLayerSize_def DivideCeil_size_t_def AlignUp_size_t_def size_t_def
      GobWidth_def GobHeight_def)

lemma S1_copy:
  "\<exists>bl'. CopyPitchToBlockLinear \<lparr>width = 64, height = 8, depth = 1\<rparr> 1 1 4 0 1 1 pitch bl = Some bl'
      \<and> (\<forall>x y k. x < 64 \<and> y < 8 \<and> k < 4 \<longrightarrow>
             bl' (spec_blockLinearOffset 4 1 1 256 1 x y 0 + k) = pitch ((y * 64 + x) * 4 + k))
      \<and> (\<forall>a. 2048 \<le> a \<longrightarrow> bl' a = bl a)"
proof -
  let ?dims = "\<lparr>width = 64, height = 8, depth = 1\<rparr>"
  let ?ms = "fullCopyMoves ?dims 1 1 4 0 (2 ^ 0) (2 ^ 0)"
  let ?bl = "fst (moveBytes False ?ms (bl, pitch))"
  have p: "pow2_bpb 4" by (simp add: pow2_bpb_def)
  have c: "CopyPitchToBlockLinear ?dims 1 1 4 0 1 1 pitch bl = Some ?bl"
    using CopyPitchToBlockLinear_moveBytes [OF p, of ?dims 1 1 0 "2 ^ 0" "2 ^ 0" pitch bl] by simp
  have e: "\<And>x y k. x < 64 \<Longrightarrow> y < 8 \<Longrightarrow> k < 4 \<Longrightarrow>
      ?bl (spec_blockLinearOffset 4 1 1 256 1 x y 0 + k) = pitch ((y * 64 + x) * 4 + k)"
  proof -
    fix x y k :: nat
    assume b: "x < 64" "y < 8" "k < 4"
    have b': "x < DivideCeil (width ?dims) 1" "y < DivideCeil (height ?dims) 1" "0 < depth ?dims"
      using b by (simp_all add: DivideCeil_def)
    have params: "AlignUp (DivideCeil (width ?dims) 1 * 4) GobWidth = 256"
      "AlignUp (depth ?dims) (2 ^ 0) = 1" "DivideCeil (height ?dims) 1 = 8"
      "(if (0::nat) \<noteq> 0 then 0 else DivideCeil (width ?dims) 1 * 4) = 256"
      by (simp_all add: DivideCeil_def AlignUp_def GobWidth_def)
    have eq: "(0 * 8 + y) * 256 + (x * 4 + k) = (y * 64 + x) * 4 + k" by simp
    have "?bl (spec_blockLinearOffset 4 (2 ^ 0) (2 ^ 0) 256 1 x y 0 + k) = pitch ((0 * 8 + y) * 256 + (x * 4 + k))"
      using CopyPitchToBlockLinear_element [OF p b(3) b', of 0 0 0 bl pitch]
      by (simp only: params)
    then show "?bl (spec_blockLinearOffset 4 1 1 256 1 x y 0 + k) = pitch ((y * 64 + x) * 4 + k)"
      by (simp only: eq power_0)
  qed
  have f: "\<And>a. 2048 \<le> a \<Longrightarrow> ?bl a = bl a"
  proof -
    fix a :: nat
    assume "2048 \<le> a"
    then have "a \<notin> fst ` set ?ms" using S1_moves_below [of a] by auto
    then show "?bl a = bl a" by (rule toBlockLinear_miss)
  qed
  show ?thesis using c e f by blast
qed

text \<open>
  Claim C5, as the code has it. For the 64 x 8 x 1 surface of scenario S1 (4 bytes per
  block, format block 1 x 1, GOB block height and depth 1) the surface row is 256 bytes,
  that is four GOBs, and the layer is 2048 bytes. \<^verbatim>\<open>CopyPitchToBlockLinear\<close> returns, puts
  byte \<open>k\<close> of texel \<open>(x, y)\<close> at the offset of the spec's formula plus \<open>k\<close>, and writes
  nothing at or beyond offset 2048. Texel (16,0) lies at 0x200, texel (0,1) at 0x10 and
  texel (0,7) at 0xD0.
\<close>

theorem C5_S1_four_gobs:
  "GetBlockLinearLayerSize \<lparr>width = 64, height = 8, depth = 1\<rparr> 1 1 4 1 1 = 2048
   \<and> (\<exists>dst'. CopyPitchToBlockLinear \<lparr>width = 64, height = 8, depth = 1\<rparr> 1 1 4 0 1 1 pitch dst = Some dst'
        \<and> (\<forall>x y k. x < 64 \<and> y < 8 \<and> k < 4 \<longrightarrow>
              dst' (spec_blockLinearOffset 4 1 1 256 1 x y 0 + k) = pitch ((y * 64 + x) * 4 + k))
        \<and> (\<forall>a. 2048 \<le> a \<longrightarrow> dst' a = dst a))
   \<and> spec_blockLinearOffset 4 1 1 256 1 16 0 0 = 0x200
   \<and> spec_blockLinearOffset 4 1 1 256 1 0 1 0 = 0x10
   \<and> spec_blockLinearOffset 4 1 1 256 1 0 7 0 = 0xD0"
  using S1_layer_size S1_copy [of pitch dst] S1_offsets(1,3,4) by blast

theorem C5_S1_four_gobs_witness:
  "\<exists>dst'. CopyPitchToBlockLinear \<lparr>width = 64, height = 8, depth = 1\<rparr> 1 1 4 0 1 1 identityTexels (\<lambda>a. 0) = Some dst'
      \<and> dst' 0x200 = 16 \<and> dst' 0x10 = 64 \<and> dst' 0xD0 = 192 \<and> dst' 0xD1 = 1 \<and> dst' 2048 = 0"
proof -
  from C5_S1_four_gobs [of identityTexels "\<lambda>a. 0"] obtain bl' where
    c: "CopyPitchToBlockLinear \<lparr>width = 64, height = 8, depth = 1\<rparr> 1 1 4 0 1 1 identityTexels (\<lambda>a. 0) = Some bl'"
    and e: "\<And>x y k. x < 64 \<Longrightarrow> y < 8 \<Longrightarrow> k < 4 \<Longrightarrow>
             bl' (spec_blockLinearOffset 4 1 1 256 1 x y 0 + k) = identityTexels ((y * 64 + x) * 4 + k)"
    and f: "\<And>a. 2048 \<le> a \<Longrightarrow> bl' a = 0"
    and o: "spec_blockLinearOffset 4 1 1 256 1 16 0 0 = 0x200"
      "spec_blockLinearOffset 4 1 1 256 1 0 1 0 = 0x10"
      "spec_blockLinearOffset 4 1 1 256 1 0 7 0 = 0xD0"
    by blast
  have "bl' 0x200 = 16" using e [of 16 0 0, unfolded o] by (simp add: identityTexels_def)
  moreover have "bl' 0x10 = 64" using e [of 0 1 0, unfolded o] by (simp add: identityTexels_def)
  moreover have "bl' 0xD0 = 192" using e [of 0 7 0, unfolded o] by (simp add: identityTexels_def)
  moreover have "bl' 0xD1 = 1" using e [of 0 7 1, unfolded o] by (simp add: identityTexels_def)
  moreover have "bl' 2048 = 0" using f [of 2048] by simp
  ultimately show ?thesis using c by blast
qed

text \<open>
  The offsets claim C5 names hold other texels: with the identity texels of S1, offset 0x100
  holds texel 8, offset 0x70 holds texel 196, that is (4,3), and texel 16 lies at 0x200,
  beyond the first 512 bytes.
\<close>

theorem C5_S1_claimed_offsets:
  "map_option (\<lambda>dst'. (dst' 0x100, dst' 0x70, dst' 0x71, dst' 0x200))
     (CopyPitchToBlockLinear \<lparr>width = 64, height = 8, depth = 1\<rparr> 1 1 4 0 1 1 identityTexels (\<lambda>a. 0))
     = Some (8, 196, 0, 16)"
proof -
  from S1_copy [of identityTexels "\<lambda>a. 0"] obtain bl' where
    c: "CopyPitchToBlockLinear \<lparr>width = 64, height = 8, depth = 1\<rparr> 1 1 4 0 1 1 identityTexels (\<lambda>a. 0) = Some bl'"
    and e: "\<And>x y k. x < 64 \<Longrightarrow> y < 8 \<Longrightarrow> k < 4 \<Longrightarrow>
             bl' (spec_blockLinearOffset 4 1 1 256 1 x y 0 + k) = identityTexels ((y * 64 + x) * 4 + k)"
    by blast
  have "bl' 0x100 = 8" using e [of 8 0 0, unfolded S1_offsets] by (simp add: identityTexels_def)
  moreover have "bl' 0x70 = 196" using e [of 4 3 0, unfolded S1_offsets] by (simp add: identityTexels_def)
  moreover have "bl' 0x71 = 0" using e [of 4 3 1, unfolded S1_offsets] by (simp add: identityTexels_def)
  moreover have "bl' 0x200 = 16" using e [of 16 0 0, unfolded S1_offsets] by (simp add: identityTexels_def)
  ultimately show ?thesis unfolding c by simp
qed

subsection \<open>Twelve-byte elements\<close>

lemma upt_0_1: "[0..<1] = [0]" by (simp add: upt_rec)

lemma upt_0_2: "[0..<2] = [0, 1]" by (simp add: upt_rec)


text \<open>
  Claim C2 fails for 12 bytes per block. A 12-byte element is moved as one \<^verbatim>\<open>u96\<close> of 16
  contiguous bytes from its swizzled offset, so it runs over the end of its 16-byte sector
  into the bytes of the next line. On a 2 x 2 x 1 surface element (1,0) is stored at
  block-linear 12..27 and element (0,1) at 16..31; the round trip returns at pitch offset 16
  the byte \<open>B 24\<close> of element (0,1). For the other element sizes the round trip holds
  (\<open>roundTrip_pow2\<close>).
\<close>

theorem C2_round_trip_12_bytes:
  "map_option (\<lambda>B'. B' 16)
     (roundTrip \<lparr>width = 2, height = 2, depth = 1\<rparr> 1 1 12 0 1 1 B dst fresh) = Some (B 24)"
  by (simp add: roundTrip_def CopyPitchToBlockLinear_def CopyBlockLinearToPitch_def
      CopyBlockLinearInternal_def copyBlockLinearCoalesced_def copyTexture_moveRows
      moveRows_def moveRow_def moveElement_def copyElement_def sizeof_FORMATBPB_def
      DivideCeil_def AlignUp_def AlignDown_def GobXOffset_arith GobYOffset_def
      GobWidth_def GobHeight_def upt_0_1 upt_0_2 Let_def and_7 and_1 drop_bit_eq_div push_bit_eq_mult)

text \<open>
  Claim C7 fails for 12 bytes per block, for the same reason. Written and read back as a
  sub-rectangle at origin (0,0), the 2 x 2 x 1 surface returns \<open>B 24\<close> at pitch offset 16.
  Writing the single element (1,0) changes block-linear byte 16, which is the first byte of
  texel (0,1), outside the rectangle. For the other element sizes both parts of the claim
  hold (\<open>roundTripSubrect_pow2\<close>, \<open>CopyPitchToBlockLinearSubrect_frame\<close>,
  \<open>subrectMoves_targets\<close>).
\<close>

theorem C7_subrect_12_bytes:
  "map_option (\<lambda>B'. B' 16)
     (roundTripSubrect \<lparr>width = 2, height = 2, depth = 1\<rparr> \<lparr>width = 2, height = 2, depth = 1\<rparr>
        1 1 12 0 1 1 B dst fresh 0 0) = Some (B 24)
   \<and> map_option (\<lambda>dst'. dst' 16)
     (CopyPitchToBlockLinearSubrect \<lparr>width = 1, height = 1, depth = 1\<rparr> \<lparr>width = 2, height = 2, depth = 1\<rparr>
        1 1 12 0 1 1 B dst 1 0) = Some (B 4)
   \<and> spec_blockLinearOffset 12 1 1 64 1 0 1 0 = 16"
proof -
  have a: "map_option (\<lambda>B'. B' 16)
     (roundTripSubrect \<lparr>width = 2, height = 2, depth = 1\<rparr> \<lparr>width = 2, height = 2, depth = 1\<rparr>
        1 1 12 0 1 1 B dst fresh 0 0) = Some (B 24)"
    by (simp add: roundTripSubrect_def CopyPitchToBlockLinearSubrect_def CopyBlockLinearToPitchSubrect_def
      CopyBlockLinearSubrectInternal_def copyTextureSubrect_moveRows
      moveRows_def moveRow_def moveElement_def copyElement_def sizeof_FORMATBPB_def
      DivideCeil_def AlignUp_def AlignDown_def GobXOffset_arith GobYOffset_def
      GobWidth_def GobHeight_def upt_0_1 upt_0_2 Let_def and_7 and_1 drop_bit_eq_div push_bit_eq_mult)
  have b: "map_option (\<lambda>dst'. dst' 16)
     (CopyPitchToBlockLinearSubrect \<lparr>width = 1, height = 1, depth = 1\<rparr> \<lparr>width = 2, height = 2, depth = 1\<rparr>
        1 1 12 0 1 1 B dst 1 0) = Some (B 4)"
    by (simp add: CopyPitchToBlockLinearSubrect_def
      CopyBlockLinearSubrectInternal_def copyTextureSubrect_moveRows
      moveRows_def moveRow_def moveElement_def copyElement_def sizeof_FORMATBPB_def
      DivideCeil_def AlignUp_def AlignDown_def GobXOffset_arith GobYOffset_def
      GobWidth_def GobHeight_def upt_0_1 upt_0_2 Let_def and_7 and_1 drop_bit_eq_div push_bit_eq_mult)
  have c: "spec_blockLinearOffset 12 1 1 64 1 0 1 0 = 16"
    by (simp add: spec_blockLinearOffset_def spec_align_down_def Let_def and_63 and_31 and_15 and_7 and_1
        drop_bit_eq_div push_bit_eq_mult spec_intraGobY spec_intraGobX GobXOffset_arith)
  show ?thesis using a b c by blast
qed

section \<open>Properties of the DMA engine front-end\<close>


lemma registers_emit [simp]: "registers (emit e s) = registers s"
  by (simp add: emit_def)

lemma trace_emit [simp]: "trace (emit e s) = trace s @ [e]"
  by (simp add: emit_def)

lemma ReleaseSemaphore_registers: "registers (ReleaseSemaphore env s) = registers s"
  by (simp add: ReleaseSemaphore_def Let_def split: SemaphoreType.splits)

lemma ReleaseSemaphore_trace:
  "trace (ReleaseSemaphore env s) = trace s @ emitted (ReleaseSemaphore env) (registers s)"
  by (simp add: emitted_def ReleaseSemaphore_def Let_def split: SemaphoreType.splits)

lemma copyLines_appends_aux:
  "trace t = [] \<Longrightarrow>
   registers (copyLines r n a b s) = registers s
   \<and> trace (copyLines r n a b s) = trace s @ trace (copyLines r n a b t)"
proof (induction "unat n" arbitrary: n a b s t)
  case 0
  then have "n = 0" by (simp add: unat_eq_0)
  then show ?case using "0.prems" by (simp add: copyLines.simps)
next
  case (Suc k)
  then have n: "n \<noteq> 0" by auto
  have k: "k = unat (n - 1)" using Suc.hyps(2) n by (simp add: unat_minus_one)
  let ?e = "InterconnectCopy (offsetOut r + ucast b) (offsetIn r + ucast a) (ucast (lineLengthIn r))"
  let ?t0 = "\<lparr>registers = registers t, trace = []\<rparr>"
  have t0: "trace ?t0 = []" by simp
  have 1: "copyLines r n a b s = copyLines r (n - 1) (a + pitchIn r) (b + pitchOut r) (emit ?e s)"
    using n by (subst copyLines.simps) simp
  have 2: "copyLines r n a b t = copyLines r (n - 1) (a + pitchIn r) (b + pitchOut r) (emit ?e t)"
    using n by (subst copyLines.simps) simp
  have 3: "registers (copyLines r (n - 1) (a + pitchIn r) (b + pitchOut r) (emit ?e s)) = registers (emit ?e s)
     \<and> trace (copyLines r (n - 1) (a + pitchIn r) (b + pitchOut r) (emit ?e s))
       = trace (emit ?e s) @ trace (copyLines r (n - 1) (a + pitchIn r) (b + pitchOut r) ?t0)"
    by (rule Suc.hyps(1) [OF k t0])
  have 4: "trace (copyLines r (n - 1) (a + pitchIn r) (b + pitchOut r) (emit ?e t))
       = trace (emit ?e t) @ trace (copyLines r (n - 1) (a + pitchIn r) (b + pitchOut r) ?t0)"
    using Suc.hyps(1) [OF k t0, of "a + pitchIn r" "b + pitchOut r" "emit ?e t"] by blast
  have 5: "registers (copyLines r n a b s) = registers s"
    using 3 by (simp only: 1 registers_emit)
  have 6: "trace (copyLines r n a b s) = trace s @ trace (copyLines r n a b t)"
    using 3 Suc.prems by (simp only: 1 2 4 trace_emit append_assoc append_Nil)
  show ?case using 5 6 by blast
qed

lemma copyLines_registers: "registers (copyLines r n a b s) = registers s"
  using copyLines_appends_aux [of "\<lparr>registers = registers s, trace = []\<rparr>" r n a b s] by simp

lemma copyLines_trace:
  "trace (copyLines r n a b s) = trace s @ emitted (copyLines r n a b) (registers s)"
  using copyLines_appends_aux [of "\<lparr>registers = registers s, trace = []\<rparr>" r n a b s]
  by (simp add: emitted_def)

lemma CopyBlockLinearToPitch_engine_registers: "registers (CopyBlockLinearToPitch_engine env s) = registers s"
  by (simp add: CopyBlockLinearToPitch_engine_def Let_def)

lemma CopyBlockLinearToPitch_engine_trace:
  "trace (CopyBlockLinearToPitch_engine env s)
     = trace s @ emitted (CopyBlockLinearToPitch_engine env) (registers s)"
  by (simp add: emitted_def CopyBlockLinearToPitch_engine_def Let_def)

lemma CopyPitchToBlockLinear_engine_registers: "registers (CopyPitchToBlockLinear_engine env s) = registers s"
  by (simp add: CopyPitchToBlockLinear_engine_def Let_def)

lemma CopyPitchToBlockLinear_engine_trace:
  "trace (CopyPitchToBlockLinear_engine env s)
     = trace s @ emitted (CopyPitchToBlockLinear_engine env) (registers s)"
  by (simp add: emitted_def CopyPitchToBlockLinear_engine_def Let_def)

lemma DmaCopy_OneD:
  "registers s = r \<Longrightarrow> \<not> multiLineEnable (launchDma r) \<Longrightarrow>
   DmaCopy env s =
     emit (InterconnectCopy (offsetOut r) (offsetIn r) (ucast (lineLengthIn r)))
       (emit (Logger LogDebug ''src: 0x{:X} dst: 0x{:X} size: 0x{:X}''
          [unat (offsetIn r), unat (offsetOut r), unat (lineLengthIn r)]) s)"
  by (simp add: DmaCopy_def Let_def)

lemma DmaCopy_Linear:
  "registers s = r \<Longrightarrow> multiLineEnable (launchDma r) \<Longrightarrow>
   srcMemoryLayout (launchDma r) = Pitch \<Longrightarrow> dstMemoryLayout (launchDma r) = Pitch \<Longrightarrow>
   pitchIn r = pitchOut r \<and> pitchIn r = lineLengthIn r \<Longrightarrow>
   DmaCopy env s =
     emit (InterconnectCopy (offsetOut r) (offsetIn r) (ucast (lineLengthIn r * lineCount r)))
       (emit ExecutorSubmit s)"
  by (auto simp: DmaCopy_def Let_def)

lemma DmaCopy_Lines:
  "registers s = r \<Longrightarrow> multiLineEnable (launchDma r) \<Longrightarrow>
   srcMemoryLayout (launchDma r) = Pitch \<Longrightarrow> dstMemoryLayout (launchDma r) = Pitch \<Longrightarrow>
   \<not> (pitchIn r = pitchOut r \<and> pitchIn r = lineLengthIn r) \<Longrightarrow>
   DmaCopy env s = copyLines r (lineCount r) 0 0 (emit ExecutorSubmit s)"
  by (auto simp: DmaCopy_def Let_def)

lemma DmaCopy_BlockToBlock:
  "registers s = r \<Longrightarrow> multiLineEnable (launchDma r) \<Longrightarrow>
   srcMemoryLayout (launchDma r) = BlockLinear \<Longrightarrow> dstMemoryLayout (launchDma r) = BlockLinear \<Longrightarrow>
   DmaCopy env s =
     emit (Logger LogWarn ''BlockLinear to BlockLinear DMA copies are unimplemented!'' [])
       (emit ExecutorSubmit s)"
  by (simp add: DmaCopy_def Let_def)

lemma DmaCopy_BlockToPitch:
  "registers s = r \<Longrightarrow> multiLineEnable (launchDma r) \<Longrightarrow>
   srcMemoryLayout (launchDma r) = BlockLinear \<Longrightarrow> dstMemoryLayout (launchDma r) = Pitch \<Longrightarrow>
   DmaCopy env s = CopyBlockLinearToPitch_engine env (emit ExecutorSubmit s)"
  by (simp add: DmaCopy_def Let_def)

lemma DmaCopy_PitchToBlock:
  "registers s = r \<Longrightarrow> multiLineEnable (launchDma r) \<Longrightarrow>
   srcMemoryLayout (launchDma r) = Pitch \<Longrightarrow> dstMemoryLayout (launchDma r) = BlockLinear \<Longrightarrow>
   DmaCopy env s = CopyPitchToBlockLinear_engine env (emit ExecutorSubmit s)"
  by (simp add: DmaCopy_def Let_def)

lemma launch_kind_cases [case_names OneD Linear Lines BlockToBlock BlockToPitch PitchToBlock]:
  obtains
    (OneD) "\<not> multiLineEnable (launchDma r)"
  | (Linear) "multiLineEnable (launchDma r)"
      "srcMemoryLayout (launchDma r) = Pitch" "dstMemoryLayout (launchDma r) = Pitch"
      "pitchIn r = pitchOut r \<and> pitchIn r = lineLengthIn r"
  | (Lines) "multiLineEnable (launchDma r)"
      "srcMemoryLayout (launchDma r) = Pitch" "dstMemoryLayout (launchDma r) = Pitch"
      "\<not> (pitchIn r = pitchOut r \<and> pitchIn r = lineLengthIn r)"
  | (BlockToBlock) "multiLineEnable (launchDma r)"
      "srcMemoryLayout (launchDma r) = BlockLinear" "dstMemoryLayout (launchDma r) = BlockLinear"
  | (BlockToPitch) "multiLineEnable (launchDma r)"
      "srcMemoryLayout (launchDma r) = BlockLinear" "dstMemoryLayout (launchDma r) = Pitch"
  | (PitchToBlock) "multiLineEnable (launchDma r)"
      "srcMemoryLayout (launchDma r) = Pitch" "dstMemoryLayout (launchDma r) = BlockLinear"
  by (cases "srcMemoryLayout (launchDma r)"; cases "dstMemoryLayout (launchDma r)") blast+

lemma DmaCopy_registers: "registers (DmaCopy env s) = registers s"
proof (cases "registers s" rule: launch_kind_cases)
  case OneD
  show ?thesis by (simp add: DmaCopy_OneD [OF refl OneD])
next
  case Linear
  show ?thesis by (simp add: DmaCopy_Linear [OF refl Linear])
next
  case Lines
  show ?thesis by (simp add: DmaCopy_Lines [OF refl Lines] copyLines_registers)
next
  case BlockToBlock
  show ?thesis by (simp add: DmaCopy_BlockToBlock [OF refl BlockToBlock])
next
  case BlockToPitch
  show ?thesis
    by (simp add: DmaCopy_BlockToPitch [OF refl BlockToPitch] CopyBlockLinearToPitch_engine_registers)
next
  case PitchToBlock
  show ?thesis
    by (simp add: DmaCopy_PitchToBlock [OF refl PitchToBlock] CopyPitchToBlockLinear_engine_registers)
qed

lemma emitted_DmaCopy: "emitted (DmaCopy env) r = trace (DmaCopy env \<lparr>registers = r, trace = []\<rparr>)"
  by (rule emitted_def)

lemma DmaCopy_trace:
  "trace (DmaCopy env s) = trace s @ emitted (DmaCopy env) (registers s)"
proof -
  let ?s0 = "\<lparr>registers = registers s, trace = []\<rparr>"
  have r0: "registers ?s0 = registers s" by simp
  show ?thesis
  proof (cases "registers s" rule: launch_kind_cases)
    case OneD
    show ?thesis
      by (simp add: emitted_DmaCopy DmaCopy_OneD [OF refl OneD] DmaCopy_OneD [OF r0 OneD])
  next
    case Linear
    show ?thesis
      by (simp add: emitted_DmaCopy DmaCopy_Linear [OF refl Linear] DmaCopy_Linear [OF r0 Linear])
  next
    case Lines
    show ?thesis
      by (simp add: emitted_DmaCopy DmaCopy_Lines [OF refl Lines] DmaCopy_Lines [OF r0 Lines]
          copyLines_trace)
  next
    case BlockToBlock
    show ?thesis
      by (simp add: emitted_DmaCopy DmaCopy_BlockToBlock [OF refl BlockToBlock]
          DmaCopy_BlockToBlock [OF r0 BlockToBlock])
  next
    case BlockToPitch
    show ?thesis
      by (simp add: emitted_DmaCopy DmaCopy_BlockToPitch [OF refl BlockToPitch]
          DmaCopy_BlockToPitch [OF r0 BlockToPitch] CopyBlockLinearToPitch_engine_trace)
  next
    case PitchToBlock
    show ?thesis
      by (simp add: emitted_DmaCopy DmaCopy_PitchToBlock [OF refl PitchToBlock]
          DmaCopy_PitchToBlock [OF r0 PitchToBlock] CopyPitchToBlockLinear_engine_trace)
  qed
qed

lemma LaunchDma_engine_eq: "LaunchDma_engine env s = ReleaseSemaphore env (launchBody env s)"
  by (simp add: LaunchDma_engine_def launchBody_def)

lemma launchBody_registers: "registers (launchBody env s) = registers s"
  by (simp add: launchBody_def DmaCopy_registers)

lemma launchBody_trace:
  "trace (launchBody env s) = trace s @ emitted (launchBody env) (registers s)"
  by (simp add: emitted_def [of "launchBody env"] launchBody_def DmaCopy_trace)

lemma LaunchDma_engine_registers: "registers (LaunchDma_engine env s) = registers s"
  by (simp add: LaunchDma_engine_eq ReleaseSemaphore_registers launchBody_registers)

lemma LaunchDma_engine_split:
  "trace (LaunchDma_engine env s) =
     trace s @ emitted (launchBody env) (registers s) @ emitted (ReleaseSemaphore env) (registers s)"
  by (simp add: LaunchDma_engine_eq ReleaseSemaphore_trace launchBody_trace launchBody_registers)

lemma LaunchDma_engine_trace:
  "trace (LaunchDma_engine env s) = trace s @ emitted (LaunchDma_engine env) (registers s)"
  by (simp add: emitted_def [of "LaunchDma_engine env"] LaunchDma_engine_split)

subsection \<open>No path of the copy writes through the MMU\<close>

lemma copyLines_no_GmmuWrite:
  "filter is_GmmuWrite (trace (copyLines r n a b s)) = filter is_GmmuWrite (trace s)"
proof (induction "unat n" arbitrary: n a b s)
  case 0
  then have "n = 0" by (simp add: unat_eq_0)
  then show ?case by (simp add: copyLines.simps)
next
  case (Suc k)
  then have n: "n \<noteq> 0" by auto
  have k: "k = unat (n - 1)" using Suc.hyps(2) n by (simp add: unat_minus_one)
  show ?case
    using n by (subst copyLines.simps) (simp add: Suc.hyps(1) [OF k])
qed

lemma CopyBlockLinearToPitch_engine_no_GmmuWrite:
  "filter is_GmmuWrite (trace (CopyBlockLinearToPitch_engine env s)) = filter is_GmmuWrite (trace s)"
  by (simp add: CopyBlockLinearToPitch_engine_def Let_def)

lemma CopyPitchToBlockLinear_engine_no_GmmuWrite:
  "filter is_GmmuWrite (trace (CopyPitchToBlockLinear_engine env s)) = filter is_GmmuWrite (trace s)"
  by (simp add: CopyPitchToBlockLinear_engine_def Let_def)

lemma DmaCopy_no_GmmuWrite:
  "filter is_GmmuWrite (trace (DmaCopy env s)) = filter is_GmmuWrite (trace s)"
proof (cases "registers s" rule: launch_kind_cases)
  case OneD
  show ?thesis by (simp add: DmaCopy_OneD [OF refl OneD])
next
  case Linear
  show ?thesis by (simp add: DmaCopy_Linear [OF refl Linear])
next
  case Lines
  show ?thesis by (simp add: DmaCopy_Lines [OF refl Lines] copyLines_no_GmmuWrite)
next
  case BlockToBlock
  show ?thesis by (simp add: DmaCopy_BlockToBlock [OF refl BlockToBlock])
next
  case BlockToPitch
  show ?thesis
    by (simp add: DmaCopy_BlockToPitch [OF refl BlockToPitch] CopyBlockLinearToPitch_engine_no_GmmuWrite)
next
  case PitchToBlock
  show ?thesis
    by (simp add: DmaCopy_PitchToBlock [OF refl PitchToBlock] CopyPitchToBlockLinear_engine_no_GmmuWrite)
qed

lemma launchBody_no_GmmuWrite:
  "filter is_GmmuWrite (trace (launchBody env s)) = filter is_GmmuWrite (trace s)"
  by (simp add: launchBody_def DmaCopy_no_GmmuWrite)

lemma ReleaseSemaphore_four_word:
  "semaphoreType (launchDma (registers s)) = ReleaseFourWordSemaphore \<Longrightarrow>
   filter is_GmmuWrite (trace (ReleaseSemaphore env s)) =
     filter is_GmmuWrite (trace s) @
       [GmmuWrite (address (semaphore (registers s)) + 8) (GetGpuTimeTicks env),
        GmmuWrite (address (semaphore (registers s))) (ucast (payload (semaphore (registers s))))]"
  by (simp add: ReleaseSemaphore_def Let_def)

text \<open>
  C8. For every register state whose \<open>semaphoreType\<close> is \<open>ReleaseFourWordSemaphore\<close>, a
  launch performs exactly two MMU writes: the 64-bit timestamp at
  \<open>semaphore.address + 8\<close> first, then the payload at \<open>semaphore.address\<close>, in that order.
\<close>

theorem C8_four_word_release_order:
  assumes "semaphoreType (launchDma (registers s)) = ReleaseFourWordSemaphore"
  shows "filter is_GmmuWrite (trace (LaunchDma_engine env s)) =
     filter is_GmmuWrite (trace s) @
       [GmmuWrite (address (semaphore (registers s)) + 8) (GetGpuTimeTicks env),
        GmmuWrite (address (semaphore (registers s))) (ucast (payload (semaphore (registers s))))]"
proof -
  note eq = LaunchDma_engine_eq [of env s]
  have ty: "semaphoreType (launchDma (registers (launchBody env s))) = ReleaseFourWordSemaphore"
    using assms by (simp add: launchBody_registers)
  show ?thesis
    unfolding eq
    by (simp only: ReleaseSemaphore_four_word [OF ty] launchBody_no_GmmuWrite launchBody_registers)
qed


theorem C8_four_word_release_order_witness:
  "filter is_GmmuWrite (trace (LaunchDma_engine example_env \<lparr>registers = example_registers, trace = []\<rparr>))
     = [GmmuWrite 0x1008 42, GmmuWrite 0x1000 7]"
  using C8_four_word_release_order [of "\<lparr>registers = example_registers, trace = []\<rparr>" example_env]
  by (simp add: example_registers_def example_env_def)

lemma ReleaseSemaphore_no_Copy:
  "filter is_Copy (emitted (ReleaseSemaphore env) r) = []"
  by (simp add: emitted_def ReleaseSemaphore_def Let_def split: SemaphoreType.splits)

lemma CopyBlockLinearToPitch_engine_unsupported:
  "Width (blockSize (srcSurface r)) \<noteq> 1
     \<or> 1 < length (srcMappings_BlockLinearToPitch env r)
     \<or> 1 < length (dstMappings_BlockLinearToPitch env r) \<Longrightarrow>
   filter is_Copy (emitted (CopyBlockLinearToPitch_engine env) r) = []"
  by (auto simp: emitted_def CopyBlockLinearToPitch_engine_def Let_def
      srcMappings_BlockLinearToPitch_def dstMappings_BlockLinearToPitch_def)

lemma CopyPitchToBlockLinear_engine_unsupported:
  "Width (blockSize (dstSurface r)) \<noteq> 1
     \<or> 1 < length (srcMappings_PitchToBlockLinear env r)
     \<or> 1 < length (dstMappings_PitchToBlockLinear env r) \<Longrightarrow>
   filter is_Copy (emitted (CopyPitchToBlockLinear_engine env) r) = []"
  by (auto simp: emitted_def CopyPitchToBlockLinear_engine_def Let_def
      srcMappings_PitchToBlockLinear_def dstMappings_PitchToBlockLinear_def)

lemma launchBody_unsupported:
  assumes "unsupported env r"
  shows "filter is_Copy (emitted (launchBody env) r) = []"
proof (cases "remapEnable (launchDma r)")
  case True
  then show ?thesis by (simp add: emitted_def launchBody_def)
next
  case False
  let ?s0 = "\<lparr>registers = r, trace = []\<rparr>"
  have r0: "registers ?s0 = r" by simp
  have body: "emitted (launchBody env) r = trace (DmaCopy env ?s0)"
    using False by (simp add: emitted_def launchBody_def)
  from assms False consider
      (BB) "multiLineEnable (launchDma r)" "srcMemoryLayout (launchDma r) = BlockLinear"
           "dstMemoryLayout (launchDma r) = BlockLinear"
    | (BP) "multiLineEnable (launchDma r)" "srcMemoryLayout (launchDma r) = BlockLinear"
           "dstMemoryLayout (launchDma r) = Pitch"
           "Width (blockSize (srcSurface r)) \<noteq> 1
             \<or> 1 < length (srcMappings_BlockLinearToPitch env r)
             \<or> 1 < length (dstMappings_BlockLinearToPitch env r)"
    | (PB) "multiLineEnable (launchDma r)" "srcMemoryLayout (launchDma r) = Pitch"
           "dstMemoryLayout (launchDma r) = BlockLinear"
           "Width (blockSize (dstSurface r)) \<noteq> 1
             \<or> 1 < length (srcMappings_PitchToBlockLinear env r)
             \<or> 1 < length (dstMappings_PitchToBlockLinear env r)"
    unfolding unsupported_def by blast
  then show ?thesis
  proof cases
    case BB
    show ?thesis by (simp add: body DmaCopy_BlockToBlock [OF r0 BB])
  next
    case BP
    show ?thesis
      using CopyBlockLinearToPitch_engine_unsupported [OF BP(4)]
      by (simp add: body DmaCopy_BlockToPitch [OF r0 BP(1,2,3)] CopyBlockLinearToPitch_engine_trace)
  next
    case PB
    show ?thesis
      using CopyPitchToBlockLinear_engine_unsupported [OF PB(4)]
      by (simp add: body DmaCopy_PitchToBlock [OF r0 PB(1,2,3)] CopyPitchToBlockLinear_engine_trace)
  qed
qed

lemma HandleMethod_registers:
  "registers (HandleMethod env method argument s) = rawWrite env method argument (registers s)"
  by (simp add: HandleMethod_def Let_def LaunchDma_engine_registers)

lemma HandleMethod_trace:
  "trace (HandleMethod env method argument s)
     = trace s @ emitted (HandleMethod env method argument) (registers s)"
  by (simp add: emitted_def [of "HandleMethod env method argument"] HandleMethod_def Let_def
      LaunchDma_engine_trace)

text \<open>
  C9. For every register state that triggers an unsupported launch (\<open>remapEnable\<close> set;
  a multi-line copy from block-linear to block-linear; a block-linear surface whose
  \<open>blockSize.width\<close> is not 1; \<^verbatim>\<open>TranslateRange\<close> returning more than one mapping for
  either side), the launch performs no copy, still runs \<^verbatim>\<open>ReleaseSemaphore\<close> last,
  and leaves the register file unchanged; the next method write is then handled as it
  would be from the same registers without the failed launch before it.
\<close>

theorem C9_unsupported_launch:
  assumes "unsupported env (registers s)"
  shows "registers (LaunchDma_engine env s) = registers s
    \<and> filter is_Copy (trace (LaunchDma_engine env s)) = filter is_Copy (trace s)
    \<and> (\<exists>pre. filter is_Copy pre = []
          \<and> trace (LaunchDma_engine env s) =
              trace s @ pre @ trace (ReleaseSemaphore env \<lparr>registers = registers s, trace = []\<rparr>))
    \<and> registers (HandleMethod env method argument (LaunchDma_engine env s)) =
        registers (HandleMethod env method argument \<lparr>registers = registers s, trace = []\<rparr>)
    \<and> trace (HandleMethod env method argument (LaunchDma_engine env s)) =
        trace (LaunchDma_engine env s)
          @ trace (HandleMethod env method argument \<lparr>registers = registers s, trace = []\<rparr>)"
proof -
  let ?pre = "emitted (launchBody env) (registers s)"
  let ?sem = "emitted (ReleaseSemaphore env) (registers s)"
  have split: "trace (LaunchDma_engine env s) = trace s @ ?pre @ ?sem"
    by (rule LaunchDma_engine_split)
  have pre: "filter is_Copy ?pre = []"
    by (rule launchBody_unsupported [OF assms])
  have sem: "filter is_Copy ?sem = []"
    by (rule ReleaseSemaphore_no_Copy)
  have 1: "registers (LaunchDma_engine env s) = registers s"
    by (rule LaunchDma_engine_registers)
  have 2: "filter is_Copy (trace (LaunchDma_engine env s)) = filter is_Copy (trace s)"
    by (simp add: split pre sem)
  have 3: "\<exists>pre. filter is_Copy pre = []
          \<and> trace (LaunchDma_engine env s) =
              trace s @ pre @ trace (ReleaseSemaphore env \<lparr>registers = registers s, trace = []\<rparr>)"
    using split pre unfolding emitted_def [of "ReleaseSemaphore env"] by blast
  have 4: "registers (HandleMethod env method argument (LaunchDma_engine env s)) =
        registers (HandleMethod env method argument \<lparr>registers = registers s, trace = []\<rparr>)"
    by (simp add: HandleMethod_registers 1)
  have 5: "trace (HandleMethod env method argument (LaunchDma_engine env s)) =
        trace (LaunchDma_engine env s)
          @ trace (HandleMethod env method argument \<lparr>registers = registers s, trace = []\<rparr>)"
    by (simp add: HandleMethod_trace [where s = "LaunchDma_engine env s"] 1
        emitted_def [of "HandleMethod env method argument"])
  show ?thesis using 1 2 3 4 5 by blast
qed


theorem C9_unsupported_launch_witness:
  "unsupported example_env example_registers
   \<and> registers (LaunchDma_engine example_env \<lparr>registers = example_registers, trace = []\<rparr>) = example_registers
   \<and> filter is_Copy (trace (LaunchDma_engine example_env \<lparr>registers = example_registers, trace = []\<rparr>)) = []"
proof -
  have u: "unsupported example_env example_registers"
    by (simp add: unsupported_def example_registers_def)
  then have "unsupported example_env (registers \<lparr>registers = example_registers, trace = []\<rparr>)"
    by simp
  from C9_unsupported_launch [OF this, of 0 0] u show ?thesis by simp
qed

lemma copyLines_cong:
  assumes "pitchIn r' = pitchIn r" "pitchOut r' = pitchOut r" "offsetIn r' = offsetIn r"
    "offsetOut r' = offsetOut r" "lineLengthIn r' = lineLengthIn r"
  shows "copyLines r' n a b s = copyLines r n a b s"
proof (induction "unat n" arbitrary: n a b s)
  case 0
  then have "n = 0" by (simp add: unat_eq_0)
  then show ?case by (simp add: copyLines.simps)
next
  case (Suc k)
  then have n: "n \<noteq> 0" by auto
  have k: "k = unat (n - 1)" using Suc.hyps(2) n by (simp add: unat_minus_one)
  show ?case
    using n by (subst copyLines.simps, subst (2) copyLines.simps) (simp add: Suc.hyps(1) [OF k] assms)
qed

lemma emitted_copyLines_state:
  "emitted (copyLines r n a b) r1 = emitted (copyLines r n a b) r2"
  using copyLines_appends_aux [of "\<lparr>registers = r2, trace = []\<rparr>" r n a b "\<lparr>registers = r1, trace = []\<rparr>"]
  by (simp add: emitted_def)

lemma srcLayerStride_setLayers [simp]: "srcLayerStride (setLayers l1 l2 r) = srcLayerStride r"
  by (simp add: srcLayerStride_def setLayers_def)

lemma dstLayerStride_setLayers [simp]: "dstLayerStride (setLayers l1 l2 r) = dstLayerStride r"
  by (simp add: dstLayerStride_def setLayers_def)

lemma CopyBlockLinearToPitch_engine_setLayers:
  "effects (emitted (CopyBlockLinearToPitch_engine env) (setLayers l1 l2 r))
     = effects (emitted (CopyBlockLinearToPitch_engine env) r)"
  by (simp add: effects_def emitted_def CopyBlockLinearToPitch_engine_def Let_def)
     (simp add: setLayers_def)

lemma CopyPitchToBlockLinear_engine_setLayers:
  "effects (emitted (CopyPitchToBlockLinear_engine env) (setLayers l1 l2 r))
     = effects (emitted (CopyPitchToBlockLinear_engine env) r)"
  by (simp add: effects_def emitted_def CopyPitchToBlockLinear_engine_def Let_def)
     (simp add: setLayers_def)

lemma effects_append: "effects (xs @ ys) = effects xs @ effects ys"
  by (simp add: effects_def)

lemma effects_Cons: "effects (e # es) = (if is_Logger e then effects es else e # effects es)"
  by (simp add: effects_def)

lemma ReleaseSemaphore_setLayers:
  "emitted (ReleaseSemaphore env) (setLayers l1 l2 r) = emitted (ReleaseSemaphore env) r"
  by (simp add: emitted_def ReleaseSemaphore_def Let_def setLayers_def split: SemaphoreType.splits)

lemma DmaCopy_setLayers:
  "effects (emitted (DmaCopy env) (setLayers l1 l2 r)) = effects (emitted (DmaCopy env) r)"
proof -
  let ?r' = "setLayers l1 l2 r"
  let ?s = "\<lparr>registers = r, trace = []\<rparr>"
  let ?s' = "\<lparr>registers = ?r', trace = []\<rparr>"
  have r0: "registers ?s = r" "registers ?s' = ?r'" by simp_all
  have same: "launchDma ?r' = launchDma r" "pitchIn ?r' = pitchIn r" "pitchOut ?r' = pitchOut r"
    "offsetIn ?r' = offsetIn r" "offsetOut ?r' = offsetOut r" "lineLengthIn ?r' = lineLengthIn r"
    "lineCount ?r' = lineCount r"
    by (simp_all add: setLayers_def)
  show ?thesis
  proof (cases r rule: launch_kind_cases)
    case OneD
    then have OneD': "\<not> multiLineEnable (launchDma ?r')" by (simp add: same)
    show ?thesis
      by (simp add: emitted_DmaCopy DmaCopy_OneD [OF r0(1) OneD] DmaCopy_OneD [OF r0(2) OneD'] same effects_def)
  next
    case Linear
    then have L': "multiLineEnable (launchDma ?r')" "srcMemoryLayout (launchDma ?r') = Pitch"
      "dstMemoryLayout (launchDma ?r') = Pitch" "pitchIn ?r' = pitchOut ?r' \<and> pitchIn ?r' = lineLengthIn ?r'"
      by (auto simp: same)
    show ?thesis
      by (simp add: emitted_DmaCopy DmaCopy_Linear [OF r0(1) Linear] DmaCopy_Linear [OF r0(2) L'] same effects_def)
  next
    case Lines
    then have L': "multiLineEnable (launchDma ?r')" "srcMemoryLayout (launchDma ?r') = Pitch"
      "dstMemoryLayout (launchDma ?r') = Pitch" "\<not> (pitchIn ?r' = pitchOut ?r' \<and> pitchIn ?r' = lineLengthIn ?r')"
      by (auto simp: same)
    have "copyLines ?r' (lineCount r) 0 0 = copyLines r (lineCount r) 0 0"
      by (rule ext) (rule copyLines_cong [OF same(2,3,4,5,6)])
    then have "emitted (copyLines ?r' (lineCount r) 0 0) ?r' = emitted (copyLines r (lineCount r) 0 0) r"
      using emitted_copyLines_state [of r "lineCount r" 0 0 ?r' r] by simp
    then show ?thesis
      by (simp add: emitted_DmaCopy DmaCopy_Lines [OF r0(1) Lines] DmaCopy_Lines [OF r0(2) L'] same
          copyLines_trace effects_def)
  next
    case BlockToBlock
    then have L': "multiLineEnable (launchDma ?r')" "srcMemoryLayout (launchDma ?r') = BlockLinear"
      "dstMemoryLayout (launchDma ?r') = BlockLinear"
      by (simp_all add: same)
    show ?thesis
      by (simp add: emitted_DmaCopy DmaCopy_BlockToBlock [OF r0(1) BlockToBlock]
          DmaCopy_BlockToBlock [OF r0(2) L'])
  next
    case BlockToPitch
    then have L': "multiLineEnable (launchDma ?r')" "srcMemoryLayout (launchDma ?r') = BlockLinear"
      "dstMemoryLayout (launchDma ?r') = Pitch"
      by (simp_all add: same)
    show ?thesis
      using CopyBlockLinearToPitch_engine_setLayers [of env l1 l2 r]
      by (simp add: emitted_DmaCopy DmaCopy_BlockToPitch [OF r0(1) BlockToPitch]
          DmaCopy_BlockToPitch [OF r0(2) L'] CopyBlockLinearToPitch_engine_trace effects_append effects_Cons)
  next
    case PitchToBlock
    then have L': "multiLineEnable (launchDma ?r')" "srcMemoryLayout (launchDma ?r') = Pitch"
      "dstMemoryLayout (launchDma ?r') = BlockLinear"
      by (simp_all add: same)
    show ?thesis
      using CopyPitchToBlockLinear_engine_setLayers [of env l1 l2 r]
      by (simp add: emitted_DmaCopy DmaCopy_PitchToBlock [OF r0(1) PitchToBlock]
          DmaCopy_PitchToBlock [OF r0(2) L'] CopyPitchToBlockLinear_engine_trace effects_append effects_Cons)
  qed
qed

lemma launchBody_setLayers:
  "effects (emitted (launchBody env) (setLayers l1 l2 r)) = effects (emitted (launchBody env) r)"
proof -
  have same: "launchDma (setLayers l1 l2 r) = launchDma r" by (simp add: setLayers_def)
  show ?thesis
    using DmaCopy_setLayers [of env l1 l2 r]
    by (simp add: emitted_def [of "launchBody env"] launchBody_def same emitted_DmaCopy)
qed


text \<open>
  C10. The block-linear to pitch and the pitch to block-linear paths pass the raw
  \<open>offsetIn\<close> and \<open>offsetOut\<close> to \<^verbatim>\<open>TranslateRange\<close>, and the \<open>layer\<close> fields of the two
  surfaces reach the log only: two launches whose registers differ in the layer fields
  alone make the same calls, with the same arguments, to every collaborator but the logger.
\<close>

theorem C10_layer_reaches_log_only:
  "effects (trace (CopyBlockLinearToPitch_engine env (s\<lparr>registers := setLayers l1 l2 (registers s)\<rparr>)))
     = effects (trace (CopyBlockLinearToPitch_engine env s))
   \<and> effects (trace (CopyPitchToBlockLinear_engine env (s\<lparr>registers := setLayers l1 l2 (registers s)\<rparr>)))
     = effects (trace (CopyPitchToBlockLinear_engine env s))
   \<and> effects (trace (LaunchDma_engine env (s\<lparr>registers := setLayers l1 l2 (registers s)\<rparr>)))
     = effects (trace (LaunchDma_engine env s))
   \<and> filter is_TranslateRange (trace (CopyBlockLinearToPitch_engine env \<lparr>registers = r, trace = []\<rparr>))
     = (if Width (blockSize (srcSurface r)) \<noteq> 1 then []
        else [GmmuTranslateRange (offsetIn r) (srcLayerStride r),
              GmmuTranslateRange (offsetOut r) (unat (pitchOut r * lineCount r * surface_depth (srcSurface r)))])
   \<and> filter is_TranslateRange (trace (CopyPitchToBlockLinear_engine env \<lparr>registers = r, trace = []\<rparr>))
     = (if Width (blockSize (dstSurface r)) \<noteq> 1 then []
        else [GmmuTranslateRange (offsetIn r) (unat (pitchIn r * lineCount r * surface_depth (dstSurface r))),
              GmmuTranslateRange (offsetOut r) (dstLayerStride r)])"
proof -
  let ?s' = "s\<lparr>registers := setLayers l1 l2 (registers s)\<rparr>"
  have s': "registers ?s' = setLayers l1 l2 (registers s)" "trace ?s' = trace s" by simp_all
  have 1: "effects (trace (CopyBlockLinearToPitch_engine env ?s')) = effects (trace (CopyBlockLinearToPitch_engine env s))"
    by (simp only: CopyBlockLinearToPitch_engine_trace s' effects_append CopyBlockLinearToPitch_engine_setLayers)
  have 2: "effects (trace (CopyPitchToBlockLinear_engine env ?s')) = effects (trace (CopyPitchToBlockLinear_engine env s))"
    by (simp only: CopyPitchToBlockLinear_engine_trace s' effects_append CopyPitchToBlockLinear_engine_setLayers)
  have 3: "effects (trace (LaunchDma_engine env ?s')) = effects (trace (LaunchDma_engine env s))"
    by (simp only: LaunchDma_engine_split s' effects_append launchBody_setLayers ReleaseSemaphore_setLayers)
  have 4: "filter is_TranslateRange (trace (CopyBlockLinearToPitch_engine env \<lparr>registers = r, trace = []\<rparr>))
     = (if Width (blockSize (srcSurface r)) \<noteq> 1 then []
        else [GmmuTranslateRange (offsetIn r) (srcLayerStride r),
              GmmuTranslateRange (offsetOut r) (unat (pitchOut r * lineCount r * surface_depth (srcSurface r)))])"
    by (simp add: CopyBlockLinearToPitch_engine_def Let_def)
  have 5: "filter is_TranslateRange (trace (CopyPitchToBlockLinear_engine env \<lparr>registers = r, trace = []\<rparr>))
     = (if Width (blockSize (dstSurface r)) \<noteq> 1 then []
        else [GmmuTranslateRange (offsetIn r) (unat (pitchIn r * lineCount r * surface_depth (dstSurface r))),
              GmmuTranslateRange (offsetOut r) (dstLayerStride r)])"
    by (simp add: CopyPitchToBlockLinear_engine_def Let_def)
  show ?thesis using 1 2 3 4 5 by blast
qed

theorem C10_layer_reaches_log_only_witness:
  "effects (trace (LaunchDma_engine example_env \<lparr>registers = setLayers 3 5 example_registers2, trace = []\<rparr>))
     = effects (trace (LaunchDma_engine example_env \<lparr>registers = example_registers2, trace = []\<rparr>))
   \<and> filter is_TranslateRange (trace (CopyBlockLinearToPitch_engine example_env \<lparr>registers = example_registers2, trace = []\<rparr>))
     = [GmmuTranslateRange 0x10000 512, GmmuTranslateRange 0x20000 512]"
  using C10_layer_reaches_log_only [where env = example_env and s = "\<lparr>registers = example_registers2, trace = []\<rparr>"
      and ?l1.0 = 3 and ?l2.0 = 5 and r = example_registers2]
  by (simp add: example_registers2_def example_registers_def Width_def Height_def Depth_def srcLayerStride_def
      GetBlockLinearLayerSize_def DivideCeil_size_t_def AlignUp_size_t_def size_t_def
      GobWidth_def GobHeight_def)

end
